(* ===== verification/QT_Prelude.thy ===== *)
theory QT_Prelude
  imports Main "HOL-Library.Multiset" "HOL-Library.Sublist"
begin

text \<open>
  Shared material of the QueueThread development: the fact collections the component
  theories fill and the generic lemmas on options, lists and multisets their proofs use.

  \<^item> \<open>qt_ops\<close> collects the defining equations of the atomic statements of
    \<^verbatim>\<open>src/QueueThread.h\<close> (one step function per method), so that a proof about
    a step unfolds all of them with \<open>simp add: qt_ops\<close>.
  \<^item> \<open>qt_invs\<close> collects the definitions of the invariants.
\<close>

named_theorems qt_ops "defining equations of the step functions"
named_theorems qt_invs "definitions of the invariants"

section \<open>Options as blocked or enabled steps\<close>

text \<open>
  A step function returns \<open>None\<close> when the statement cannot run in the given state (a
  mutex that is held, a join on a running thread). \<open>guard b x\<close> is the step \<open>x\<close> enabled
  by \<open>b\<close>.
\<close>

definition guard :: "bool \<Rightarrow> 'a \<Rightarrow> 'a option" where
  "guard b x = (if b then Some x else None)"

lemma guard_simps [simp]:
  "guard True x = Some x"
  "guard False x = None"
  by (simp_all add: guard_def)

lemma guard_eq_Some [simp]: "guard b x = Some y \<longleftrightarrow> b \<and> x = y"
  by (auto simp: guard_def)

lemma guard_eq_None [simp]: "guard b x = None \<longleftrightarrow> \<not> b"
  by (simp add: guard_def)

section \<open>Lists as FIFO queues\<close>

text \<open>
  A \<^verbatim>\<open>std::queue<T>\<close> is the list of its elements, front first: \<^verbatim>\<open>push\<close> appends at
  the end, \<^verbatim>\<open>front\<close> and \<^verbatim>\<open>pop\<close> take the head.
\<close>

lemma mset_map_partition:
  "mset (map f xs) = mset (map f (filter (\<lambda>x. \<not> P x) xs)) + mset (map f (filter P xs))"
  by (induction xs) simp_all

lemma filter_map_fst_subseq: "subseq (map fst (filter P xs)) (map fst xs)"
  by (induction xs) (auto intro: subseq_Cons')

end
