(* ===== verification/QT_State.thy ===== *)
theory QT_State
  imports QT_Prelude
begin

text \<open>
  The data model of \<^verbatim>\<open>src/QueueThread.h\<close>: the members of the class
  \<^verbatim>\<open>QueueThread<T>\<close> as a record, the program points of each method as datatypes
  (one constructor per atomic statement, named after the method and the statement), and the
  state of the whole system: the object, the worker thread's locals, the client threads
  that are inside a method, the environment the callback acts on, and a ghost history.

  \<open>'a\<close> is the payload type \<^verbatim>\<open>T\<close>; \<open>'w\<close> is the state of the owner that the
  processing function closes over.
\<close>

section \<open>Threads, thread objects, callbacks\<close>

text \<open>
  \<open>Worker\<close> is the thread that runs \<^verbatim>\<open>QueueProcessThread\<close>; \<open>Client i\<close> are the
  threads that call the public methods. \<open>Client 0\<close> is the owner, the only thread that
  calls \<^verbatim>\<open>Start\<close>, \<^verbatim>\<open>Stop\<close> and \<^verbatim>\<open>IsRunning\<close> (these read and write
  \<^verbatim>\<open>m_pThread\<close> without a lock).
\<close>

datatype tid = Worker | Client nat

text \<open>
  The \<^verbatim>\<open>std::thread\<close> object \<^verbatim>\<open>m_pThread\<close> points to: joinable from its creation
  until \<^verbatim>\<open>join()\<close> returns.
\<close>

datatype thread_obj = Joinable | Joined

text \<open>
  A \<^verbatim>\<open>std::function<void(T)>\<close>: it consumes an item and changes the owner's state, or
  throws (\<open>None\<close>).
\<close>

type_synonym ('a, 'w) callback = "'a \<Rightarrow> 'w \<Rightarrow> 'w option"

section \<open>The object\<close>

text \<open>
  The private members, lines 28 to 35. A mutex is its holder, if any; the condition
  variable is the set of threads blocked in \<^verbatim>\<open>wait\<close>; the queue is the list of its
  elements, front first.
\<close>

record ('a, 'w) QueueThread =
  m_pThread :: "thread_obj option"
  m_cv :: "tid set"
  m_queue :: "'a list"
  m_mutexThread :: "tid option"
  m_mutexFunc :: "tid option"
  m_pFunc :: "('a, 'w) callback option"
  m_bExit :: bool

section \<open>Program points\<close>

text \<open>
  \<^verbatim>\<open>RegisterQueueProcessFunc\<close>, lines 50 to 55: take \<^verbatim>\<open>m_mutexFunc\<close>, assign
  \<^verbatim>\<open>m_pFunc\<close>, release at the end of the scope.
\<close>

datatype ('a, 'w) reg_pc = R_Lock "('a, 'w) callback" | R_Assign "('a, 'w) callback" | R_Unlock

text \<open>\<^verbatim>\<open>Start()\<close>, lines 57 to 70: the test of line 60, the spawn of line 63, the test of line 64.\<close>

datatype start_pc = S_Check | S_Spawn | S_NullCheck

text \<open>
  \<^verbatim>\<open>Stop\<close>, lines 79 to 95: the test of line 82, the critical section of lines 85 to 88,
  \<^verbatim>\<open>notify_all\<close> (90), \<^verbatim>\<open>joinable\<close> (91), \<^verbatim>\<open>join\<close> (93).
\<close>

datatype stop_pc = T_Check | T_Lock | T_SetExit | T_Unlock | T_Notify | T_Joinable | T_Join

text \<open>\<^verbatim>\<open>AddQueueData\<close>, lines 97 to 103: lock, push, \<^verbatim>\<open>notify_all\<close>, release.\<close>

datatype 'a add_pc = A_Lock 'a | A_Push 'a | A_Notify | A_Unlock

text \<open>
  \<^verbatim>\<open>ProcessQueueData\<close>, lines 141 to 157: the null test (144), the loop test (149), front
  and pop (151, 152), the lock of \<^verbatim>\<open>m_mutexFunc\<close> (154), the call (155), the end of the
  loop body, where the lock guard is released (156).
\<close>

datatype ppc = P_CheckFunc | P_LoopTest | P_Pop | P_LockFunc | P_Call | P_Unlock

text \<open>
  The two calls of \<^verbatim>\<open>ProcessQueueData\<close> in the thread function: the one on the
  exit path (line 128) and the one at the end of the loop body (line 137).
\<close>

datatype site = Exit_path | Loop_body

text \<open>
  \<^verbatim>\<open>QueueProcessThread\<close>, lines 114 to 139. \<open>W_NotStarted\<close>: no thread has been
  spawned. \<open>W_WaitPred\<close>: about to test the predicate of line 123 with the mutex held;
  \<open>W_WaitBlock\<close>: the predicate was false, about to release the mutex and block (the
  one atomic action of \<^verbatim>\<open>wait\<close>); \<open>W_Waiting\<close>: blocked inside \<^verbatim>\<open>m_cv.wait\<close>
  with the mutex released; \<open>W_Relock\<close>: woken, about to take the mutex again. \<open>W_Call c p\<close>: inside the call
  of \<^verbatim>\<open>ProcessQueueData\<close> at site \<open>c\<close>, at its point \<open>p\<close>. \<open>W_ScopeEnd\<close>: the
  end of the loop body (138), where the local queue is destroyed. \<open>W_Done\<close>: the thread
  function has returned.
\<close>

datatype wpc =
    W_NotStarted
  | W_LoopTest
  | W_Lock
  | W_WaitPred
  | W_WaitBlock
  | W_Waiting
  | W_Relock
  | W_CheckExit
  | W_ExitUnlock
  | W_Swap
  | W_Unlock
  | W_Call site ppc
  | W_ScopeEnd
  | W_Done

text \<open>
  What the parameter \<^verbatim>\<open>std::queue<T>& queue\<close> of \<^verbatim>\<open>ProcessQueueData\<close> (line 142)
  is bound to: the worker's local queue of line 133 or the member \<^verbatim>\<open>m_queue\<close>.
\<close>

datatype qref = Local_queue | Member_queue

text \<open>What a method returned: nothing, a \<^verbatim>\<open>bool\<close>, or an exception that left it.\<close>

datatype retval = RVoid | RBool bool | RThrow

text \<open>
  Where a client thread is: outside the object (\<open>C_Idle\<close>, or \<open>C_Ret v\<close> after a method
  returned \<open>v\<close>) or inside a method. The flag of \<open>In_Register\<close> says that the call is
  the one of line 75, inside \<^verbatim>\<open>Start(func)\<close>.
\<close>

datatype ('a, 'w) cpc =
    C_Idle
  | C_Ret retval
  | In_Register "('a, 'w) reg_pc" bool
  | In_Start start_pc
  | In_Stop stop_pc
  | In_Add "'a add_pc"
  | In_IsRunning

text \<open>
  Behaviour the C++ standard leaves undefined, or ends the process with: a callback that
  throws on the worker thread (\<^verbatim>\<open>std::terminate\<close>), a call through a null
  \<^verbatim>\<open>m_pFunc\<close>, \<^verbatim>\<open>front()\<close> of an empty queue, \<^verbatim>\<open>joinable()\<close> through a null
  \<^verbatim>\<open>m_pThread\<close>.
\<close>

datatype fault = Callback_threw | Null_callback | Front_of_empty | Null_thread

section \<open>The system state\<close>

text \<open>
  The object together with the threads that run its code. \<open>w_queue\<close> and \<open>w_data\<close> are
  the worker's locals \<^verbatim>\<open>queue\<close> (line 133) and \<^verbatim>\<open>data\<close> (line 151). \<open>world\<close> is
  the owner's state the callback acts on. The last two fields are ghost history: every item
  ever pushed, in the order of the pushes, and every item the worker has disposed of, in that
  order, with the callback it was handed to (\<open>None\<close>: destroyed with the local queue
  without a call).
\<close>

record ('a, 'w) sys = "('a, 'w) QueueThread" +
  wpc :: wpc
  w_queue :: "'a list"
  w_data :: "'a option"
  cpc :: "nat \<Rightarrow> ('a, 'w) cpc"
  world :: 'w
  fault :: "fault option"
  pushed :: "'a list"
  consumed :: "('a \<times> ('a, 'w) callback option) list"

text \<open>
  The constructor, lines 38 to 42: \<^verbatim>\<open>m_bExit\<close> is initialised to \<^verbatim>\<open>false\<close>, every
  other member by its default constructor.
\<close>

definition QueueThread_ctor :: "('a, 'w) QueueThread" where
  "QueueThread_ctor = \<lparr>m_pThread = None, m_cv = {}, m_queue = [], m_mutexThread = None,
     m_mutexFunc = None, m_pFunc = None, m_bExit = False\<rparr>"

text \<open>The initial state: a freshly constructed object, no thread inside it, owner state \<open>w\<close>.\<close>

definition init_sys :: "'w \<Rightarrow> ('a, 'w) sys" where
  "init_sys w = QueueThread.extend QueueThread_ctor
     \<lparr>wpc = W_NotStarted, w_queue = [], w_data = None, cpc = (\<lambda>_. C_Idle), world = w,
      fault = None, pushed = [], consumed = []\<rparr>"

lemmas init_sys_defs = init_sys_def QueueThread_ctor_def QueueThread.defs

lemma init_sys_fields [simp]:
  "m_pThread (init_sys w) = None"
  "m_cv (init_sys w) = {}"
  "m_queue (init_sys w) = []"
  "m_mutexThread (init_sys w) = None"
  "m_mutexFunc (init_sys w) = None"
  "m_pFunc (init_sys w) = None"
  "m_bExit (init_sys w) = False"
  "wpc (init_sys w) = W_NotStarted"
  "w_queue (init_sys w) = []"
  "w_data (init_sys w) = None"
  "cpc (init_sys w) = (\<lambda>_. C_Idle)"
  "world (init_sys w) = w"
  "fault (init_sys w) = None"
  "pushed (init_sys w) = []"
  "consumed (init_sys w) = []"
  by (simp_all add: init_sys_defs)

section \<open>Derived views of a state\<close>

text \<open>The queue a reference denotes, and assignment through the reference.\<close>

definition deref :: "qref \<Rightarrow> ('a, 'w) sys \<Rightarrow> 'a list" where
  "deref q s = (case q of Local_queue \<Rightarrow> w_queue s | Member_queue \<Rightarrow> m_queue s)"

definition assign :: "qref \<Rightarrow> 'a list \<Rightarrow> ('a, 'w) sys \<Rightarrow> ('a, 'w) sys" where
  "assign q xs s = (case q of Local_queue \<Rightarrow> s\<lparr>w_queue := xs\<rparr> | Member_queue \<Rightarrow> s\<lparr>m_queue := xs\<rparr>)"

lemma deref_simps [simp]:
  "deref Local_queue s = w_queue s"
  "deref Member_queue s = m_queue s"
  by (simp_all add: deref_def)

lemma assign_simps [simp]:
  "assign Local_queue xs s = s\<lparr>w_queue := xs\<rparr>"
  "assign Member_queue xs s = s\<lparr>m_queue := xs\<rparr>"
  by (simp_all add: assign_def)

lemma deref_assign [simp]: "deref q (assign q xs s) = xs"
  by (cases q) simp_all

lemma qref_neq [simp]:
  "q \<noteq> Local_queue \<longleftrightarrow> q = Member_queue"
  "q \<noteq> Member_queue \<longleftrightarrow> q = Local_queue"
  by (cases q; simp)+

text \<open>What a reference denotes depends on the two queues only.\<close>

lemma deref_frame [simp]:
  "deref q (s\<lparr>m_pThread := th\<rparr>) = deref q s"
  "deref q (s\<lparr>m_cv := cv\<rparr>) = deref q s"
  "deref q (s\<lparr>m_mutexThread := mt\<rparr>) = deref q s"
  "deref q (s\<lparr>m_mutexFunc := mf\<rparr>) = deref q s"
  "deref q (s\<lparr>m_pFunc := pf\<rparr>) = deref q s"
  "deref q (s\<lparr>m_bExit := b\<rparr>) = deref q s"
  "deref q (s\<lparr>wpc := p\<rparr>) = deref q s"
  "deref q (s\<lparr>w_data := d\<rparr>) = deref q s"
  "deref q (s\<lparr>cpc := c\<rparr>) = deref q s"
  "deref q (s\<lparr>world := wo\<rparr>) = deref q s"
  "deref q (s\<lparr>fault := fa\<rparr>) = deref q s"
  "deref q (s\<lparr>pushed := ps\<rparr>) = deref q s"
  "deref q (s\<lparr>consumed := cs\<rparr>) = deref q s"
  by (cases q; simp)+

lemma deref_queue_update [simp]:
  "deref q (s\<lparr>m_queue := xs\<rparr>) = (if q = Member_queue then xs else w_queue s)"
  "deref q (s\<lparr>w_queue := xs\<rparr>) = (if q = Local_queue then xs else m_queue s)"
  by (cases q; simp)+

text \<open>Assignment through a queue reference changes the one queue it denotes.\<close>

lemma assign_fields [simp]:
  "m_queue (assign q xs s) = (if q = Member_queue then xs else m_queue s)"
  "w_queue (assign q xs s) = (if q = Local_queue then xs else w_queue s)"
  "m_pThread (assign q xs s) = m_pThread s"
  "m_cv (assign q xs s) = m_cv s"
  "m_mutexThread (assign q xs s) = m_mutexThread s"
  "m_mutexFunc (assign q xs s) = m_mutexFunc s"
  "m_pFunc (assign q xs s) = m_pFunc s"
  "m_bExit (assign q xs s) = m_bExit s"
  "wpc (assign q xs s) = wpc s"
  "w_data (assign q xs s) = w_data s"
  "cpc (assign q xs s) = cpc s"
  "world (assign q xs s) = world s"
  "fault (assign q xs s) = fault s"
  "pushed (assign q xs s) = pushed s"
  "consumed (assign q xs s) = consumed s"
  by (cases q; simp)+

text \<open>Storing the program point a thread is already at changes nothing.\<close>

lemma wpc_update_same [simp]: "wpc s = p \<Longrightarrow> s\<lparr>fault := f, wpc := p\<rparr> = s\<lparr>fault := f\<rparr>"
  by (cases s) auto

lemma cpc_update_same [simp]:
  "cpc s i = c \<Longrightarrow> s\<lparr>fault := f, cpc := (cpc s)(i := c)\<rparr> = s\<lparr>fault := f\<rparr>"
  by (cases s) auto

text \<open>
  The items that have been pushed and not yet disposed of, oldest first: the item the
  worker holds, its local queue, the shared queue.
\<close>

definition in_flight :: "('a, 'w) sys \<Rightarrow> 'a list" where
  "in_flight s = (case w_data s of None \<Rightarrow> [] | Some x \<Rightarrow> [x]) @ w_queue s @ m_queue s"

text \<open>The items passed to a callback, in the order of the calls, and the items dropped.\<close>

definition delivered :: "('a, 'w) sys \<Rightarrow> 'a list" where
  "delivered s = map fst (filter (\<lambda>e. \<not> Option.is_none (snd e)) (consumed s))"

definition dropped :: "('a, 'w) sys \<Rightarrow> 'a list" where
  "dropped s = map fst (filter (\<lambda>e. Option.is_none (snd e)) (consumed s))"

lemma delivered_subseq: "subseq (delivered s) (map fst (consumed s))"
  by (simp add: delivered_def filter_map_fst_subseq)

lemma delivered_all: "dropped s = [] \<Longrightarrow> delivered s = map fst (consumed s)"
  by (simp add: dropped_def delivered_def filter_empty_conv)

lemma consumed_mset: "mset (map fst (consumed s)) = mset (delivered s) + mset (dropped s)"
  unfolding delivered_def dropped_def by (rule mset_map_partition)

text \<open>What logging a list of items as delivered, or as dropped, does to the two views.\<close>

lemma consumed_delivered:
  assumes "consumed t = consumed s @ map (\<lambda>x. (x, Some f)) xs"
  shows "delivered t = delivered s @ xs" and "dropped t = dropped s"
  using assms by (simp_all add: delivered_def dropped_def comp_def)

lemma consumed_dropped:
  assumes "consumed t = consumed s @ map (\<lambda>x. (x, None)) xs"
  shows "delivered t = delivered s" and "dropped t = dropped s @ xs"
  using assms by (simp_all add: delivered_def dropped_def comp_def)

end
