(* ===== verification/QT_Client.thy ===== *)
theory QT_Client
  imports QT_State
begin

text \<open>
  The public methods of \<^verbatim>\<open>QueueThread<T>\<close> (lines 50 to 112 of
  \<^verbatim>\<open>src/QueueThread.h\<close>), each as a step function: given the calling client, the
  program point inside the method and the state, it runs the one atomic statement at that
  point. The result is \<open>None\<close> when the statement is blocked (a mutex that is held, a join
  on a thread that still runs); otherwise the next program point (\<open>Inl\<close>) or the value
  the method returns (\<open>Inr\<close>), with the new state. \<open>client_step\<close> dispatches on the
  method the client is in; \<open>invoke\<close> lets a client that is outside the object enter one.

  Three statements acquire a resource and throw when the system refuses it: the
  allocation of the callback object (line 54), the creation of the thread (line 63) and
  the push into the queue (line 101). The parameter \<open>ok\<close> of the methods says whether the
  resource is granted. An exception leaves the method, which then returns the value
  \<open>RThrow\<close>; on its way out the \<^verbatim>\<open>std::lock_guard\<close> of the scope releases its mutex.
\<close>

section \<open>RegisterQueueProcessFunc (lines 50 to 55)\<close>

text \<open>
  If \<^verbatim>\<open>std::make_unique\<close> throws at line 54, \<^verbatim>\<open>m_pFunc\<close> keeps its value and the
  lock guard of line 53 releases \<^verbatim>\<open>m_mutexFunc\<close>.
\<close>

definition RegisterQueueProcessFunc ::
  "bool \<Rightarrow> nat \<Rightarrow> ('a, 'w) reg_pc \<Rightarrow> ('a, 'w) sys \<Rightarrow>
     ((('a, 'w) reg_pc + retval) \<times> ('a, 'w) sys) option"
where
  "RegisterQueueProcessFunc ok i p s = (case p of
     R_Lock f \<Rightarrow>
       guard (m_mutexFunc s = None) (Inl (R_Assign f), s\<lparr>m_mutexFunc := Some (Client i)\<rparr>)
   | R_Assign f \<Rightarrow>
       Some (if ok then (Inl R_Unlock, s\<lparr>m_pFunc := Some f\<rparr>)
             else (Inr RThrow, s\<lparr>m_mutexFunc := None\<rparr>))
   | R_Unlock \<Rightarrow> Some (Inr RVoid, s\<lparr>m_mutexFunc := None\<rparr>))"

section \<open>Start (lines 57 to 70)\<close>

text \<open>
  Here \<open>ok\<close> says whether the system can create a thread at line 63. If it can, the new
  thread starts at the head of \<^verbatim>\<open>QueueProcessThread\<close>; if it cannot,
  \<^verbatim>\<open>std::make_unique<std::thread>\<close> throws, the assignment to \<^verbatim>\<open>m_pThread\<close> does
  not happen and the exception leaves \<^verbatim>\<open>Start\<close>.
\<close>

definition Start ::
  "bool \<Rightarrow> start_pc \<Rightarrow> ('a, 'w) sys \<Rightarrow> ((start_pc + retval) \<times> ('a, 'w) sys) option"
where
  "Start ok p s = (case p of
     S_Check \<Rightarrow> Some (if m_pThread s \<noteq> None then Inr (RBool True) else Inl S_Spawn, s)
   | S_Spawn \<Rightarrow>
       Some (if ok then (Inl S_NullCheck, s\<lparr>m_pThread := Some Joinable, wpc := W_LoopTest\<rparr>)
             else (Inr RThrow, s))
   | S_NullCheck \<Rightarrow> Some (if m_pThread s = None then Inr (RBool False) else Inr (RBool True), s))"

section \<open>Start with a callback (lines 72 to 77)\<close>

text \<open>
  Line 75 calls \<^verbatim>\<open>RegisterQueueProcessFunc\<close>; when that call returns, line 76 enters
  \<^verbatim>\<open>Start()\<close> and returns what it returns. \<open>Start_func f\<close> is the program point
  the method begins at, \<open>after_Register k v\<close> where a client is when
  \<^verbatim>\<open>RegisterQueueProcessFunc\<close> has returned \<open>v\<close>: at the head of \<^verbatim>\<open>Start()\<close> if
  the call was the one of line 75, outside the object otherwise. An exception of line 75
  leaves \<^verbatim>\<open>Start(func)\<close> as well, and line 76 is not reached.
\<close>

definition Start_func :: "('a, 'w) callback \<Rightarrow> ('a, 'w) cpc" where
  "Start_func f = In_Register (R_Lock f) True"

definition after_Register :: "bool \<Rightarrow> retval \<Rightarrow> ('a, 'w) cpc" where
  "after_Register k v = (if k \<and> v \<noteq> RThrow then In_Start S_Check else C_Ret v)"

lemma after_Register_RThrow [simp]: "after_Register k RThrow = C_Ret RThrow"
  by (simp add: after_Register_def)

section \<open>Stop (lines 79 to 95)\<close>

text \<open>
  \<^verbatim>\<open>join\<close> blocks until the thread function has returned; \<^verbatim>\<open>m_pThread\<close> is not
  reset afterwards. \<^verbatim>\<open>m_pThread->joinable()\<close> through a null pointer cannot happen
  after the test of line 82 as long as one thread calls \<^verbatim>\<open>Start\<close> and \<^verbatim>\<open>Stop\<close>;
  the model records it as a fault and changes nothing else.
\<close>

definition Stop ::
  "nat \<Rightarrow> stop_pc \<Rightarrow> ('a, 'w) sys \<Rightarrow> ((stop_pc + retval) \<times> ('a, 'w) sys) option"
where
  "Stop i p s = (case p of
     T_Check \<Rightarrow> Some (if m_pThread s = None then Inr RVoid else Inl T_Lock, s)
   | T_Lock \<Rightarrow>
       guard (m_mutexThread s = None) (Inl T_SetExit, s\<lparr>m_mutexThread := Some (Client i)\<rparr>)
   | T_SetExit \<Rightarrow> Some (Inl T_Unlock, s\<lparr>m_bExit := True\<rparr>)
   | T_Unlock \<Rightarrow> Some (Inl T_Notify, s\<lparr>m_mutexThread := None\<rparr>)
   | T_Notify \<Rightarrow> Some (Inl T_Joinable, s\<lparr>m_cv := {}\<rparr>)
   | T_Joinable \<Rightarrow> (case m_pThread s of
         None \<Rightarrow> Some (Inl T_Joinable, s\<lparr>fault := Some Null_thread\<rparr>)
       | Some Joinable \<Rightarrow> Some (Inl T_Join, s)
       | Some Joined \<Rightarrow> Some (Inr RVoid, s))
   | T_Join \<Rightarrow> guard (wpc s = W_Done) (Inr RVoid, s\<lparr>m_pThread := Some Joined\<rparr>))"

section \<open>AddQueueData (lines 97 to 103)\<close>

text \<open>
  If \<^verbatim>\<open>push\<close> throws at line 101, the queue is unchanged, \<^verbatim>\<open>notify_all\<close> is not
  called and the lock guard of line 100 releases \<^verbatim>\<open>m_mutexThread\<close>.
\<close>

definition AddQueueData ::
  "bool \<Rightarrow> nat \<Rightarrow> 'a add_pc \<Rightarrow> ('a, 'w) sys \<Rightarrow> (('a add_pc + retval) \<times> ('a, 'w) sys) option"
where
  "AddQueueData ok i p s = (case p of
     A_Lock x \<Rightarrow>
       guard (m_mutexThread s = None) (Inl (A_Push x), s\<lparr>m_mutexThread := Some (Client i)\<rparr>)
   | A_Push x \<Rightarrow>
       Some (if ok then (Inl A_Notify, s\<lparr>m_queue := m_queue s @ [x], pushed := pushed s @ [x]\<rparr>)
             else (Inr RThrow, s\<lparr>m_mutexThread := None\<rparr>))
   | A_Notify \<Rightarrow> Some (Inl A_Unlock, s\<lparr>m_cv := {}\<rparr>)
   | A_Unlock \<Rightarrow> Some (Inr RVoid, s\<lparr>m_mutexThread := None\<rparr>))"

section \<open>IsRunning (lines 105 to 112)\<close>

definition IsRunning :: "('a, 'w) sys \<Rightarrow> bool" where
  "IsRunning s = (if m_pThread s \<noteq> None then True else False)"

section \<open>One statement of a client\<close>

text \<open>
  \<open>resume\<close> stores where client \<open>i\<close> is after a statement: at the method's next point
  (wrapped by \<open>k\<close>), or where the return leads (\<open>r\<close>).
\<close>

definition resume ::
  "nat \<Rightarrow> ('p \<Rightarrow> ('a, 'w) cpc) \<Rightarrow> (retval \<Rightarrow> ('a, 'w) cpc) \<Rightarrow>
     (('p + retval) \<times> ('a, 'w) sys) option \<Rightarrow> ('a, 'w) sys option"
where
  "resume i k r res = map_option
     (\<lambda>(p, t). t\<lparr>cpc := (cpc t)(i := (case p of Inl p' \<Rightarrow> k p' | Inr v \<Rightarrow> r v))\<rparr>) res"

definition client_step :: "bool \<Rightarrow> nat \<Rightarrow> ('a, 'w) sys \<Rightarrow> ('a, 'w) sys option" where
  "client_step ok i s = (case cpc s i of
     C_Idle \<Rightarrow> None
   | C_Ret v \<Rightarrow> None
   | In_Register p k \<Rightarrow>
       resume i (\<lambda>p'. In_Register p' k) (after_Register k) (RegisterQueueProcessFunc ok i p s)
   | In_Start p \<Rightarrow> resume i In_Start C_Ret (Start ok p s)
   | In_Stop p \<Rightarrow> resume i In_Stop C_Ret (Stop i p s)
   | In_Add p \<Rightarrow> resume i In_Add C_Ret (AddQueueData ok i p s)
   | In_IsRunning \<Rightarrow> Some (s\<lparr>cpc := (cpc s)(i := C_Ret (RBool (IsRunning s)))\<rparr>))"

text \<open>Whether the client's next statement is one of the three that can throw.\<close>

definition can_throw :: "('a, 'w) cpc \<Rightarrow> bool" where
  "can_throw c = (case c of
     In_Start S_Spawn \<Rightarrow> True
   | In_Register (R_Assign f) k \<Rightarrow> True
   | In_Add (A_Push x) \<Rightarrow> True
   | _ \<Rightarrow> False)"

section \<open>Entering a method\<close>

datatype ('a, 'w) call =
    Call_Register "('a, 'w) callback"
  | Call_Start
  | Call_StartFunc "('a, 'w) callback"
  | Call_Stop
  | Call_Add 'a
  | Call_IsRunning

text \<open>The first program point of a method.\<close>

definition entry :: "('a, 'w) call \<Rightarrow> ('a, 'w) cpc" where
  "entry c = (case c of
     Call_Register f \<Rightarrow> In_Register (R_Lock f) False
   | Call_Start \<Rightarrow> In_Start S_Check
   | Call_StartFunc f \<Rightarrow> Start_func f
   | Call_Stop \<Rightarrow> In_Stop T_Check
   | Call_Add x \<Rightarrow> In_Add (A_Lock x)
   | Call_IsRunning \<Rightarrow> In_IsRunning)"

text \<open>
  The methods that touch \<^verbatim>\<open>m_pThread\<close>, which no mutex protects: only the owner,
  client 0, calls them.
\<close>

definition lifecycle_call :: "('a, 'w) call \<Rightarrow> bool" where
  "lifecycle_call c = (case c of Call_Register _ \<Rightarrow> False | Call_Add _ \<Rightarrow> False | _ \<Rightarrow> True)"

definition outside :: "('a, 'w) cpc \<Rightarrow> bool" where
  "outside c = (case c of C_Idle \<Rightarrow> True | C_Ret _ \<Rightarrow> True | _ \<Rightarrow> False)"

definition invoke :: "nat \<Rightarrow> ('a, 'w) call \<Rightarrow> ('a, 'w) sys \<Rightarrow> ('a, 'w) sys option" where
  "invoke i c s = guard (outside (cpc s i) \<and> (if lifecycle_call c then i = 0 else True))
     (s\<lparr>cpc := (cpc s)(i := entry c)\<rparr>)"

lemmas client_ops [qt_ops] =
  RegisterQueueProcessFunc_def Start_def Start_func_def after_Register_def Stop_def
  AddQueueData_def IsRunning_def resume_def client_step_def invoke_def entry_def outside_def
  lifecycle_call_def can_throw_def

end
