(* ===== verification/QT_Worker.thy ===== *)
theory QT_Worker
  imports QT_State
begin

text \<open>
  The worker thread (lines 114 to 157 of \<^verbatim>\<open>src/QueueThread.h\<close>):
  \<open>ProcessQueueData\<close> runs one atomic statement of the drain loop on the queue its
  parameter refers to, \<open>QueueProcessThread\<close> one atomic statement of the thread function,
  calling \<open>ProcessQueueData\<close> at its two call sites.

  Line 128 passes the name \<^verbatim>\<open>queue\<close> before the declaration of line 133 is in scope.
  The thread function therefore takes as a parameter \<open>xq\<close> what that argument denotes:
  \<open>Local_queue\<close> (the local of line 133, empty at that point) or \<open>Member_queue\<close>
  (\<^verbatim>\<open>m_queue\<close>). Every theorem says for which reading it holds.
\<close>

section \<open>ProcessQueueData (lines 141 to 157)\<close>

text \<open>
  The result is \<open>None\<close> when the statement is blocked; otherwise the next point inside
  the function, or \<open>None\<close> in its place when the function returns. A call through a null
  \<^verbatim>\<open>m_pFunc\<close>, \<^verbatim>\<open>front()\<close> of an empty queue and a callback that throws set
  \<open>fault\<close> and change nothing else: the process ends at that statement. The item is
  logged in \<open>consumed\<close> when the callback has returned.
  The local \<^verbatim>\<open>data\<close> exists from line 151 to the end of the loop body, so a state at
  line 155 without it is not a state of the program and has no step.
\<close>

definition ProcessQueueData ::
  "qref \<Rightarrow> ppc \<Rightarrow> ('a, 'w) sys \<Rightarrow> (ppc option \<times> ('a, 'w) sys) option"
where
  "ProcessQueueData q p s = (case p of
     P_CheckFunc \<Rightarrow> Some (if m_pFunc s = None then None else Some P_LoopTest, s)
   | P_LoopTest \<Rightarrow> Some (if deref q s \<noteq> [] then Some P_Pop else None, s)
   | P_Pop \<Rightarrow> (case deref q s of
         [] \<Rightarrow> Some (Some P_Pop, s\<lparr>fault := Some Front_of_empty\<rparr>)
       | x # xs \<Rightarrow> Some (Some P_LockFunc, assign q xs (s\<lparr>w_data := Some x\<rparr>)))
   | P_LockFunc \<Rightarrow> guard (m_mutexFunc s = None) (Some P_Call, s\<lparr>m_mutexFunc := Some Worker\<rparr>)
   | P_Call \<Rightarrow> (case m_pFunc s of
         None \<Rightarrow> Some (Some P_Call, s\<lparr>fault := Some Null_callback\<rparr>)
       | Some f \<Rightarrow> (case w_data s of
             None \<Rightarrow> None
           | Some x \<Rightarrow> (case f x (world s) of
                 None \<Rightarrow> Some (Some P_Call, s\<lparr>fault := Some Callback_threw\<rparr>)
               | Some w' \<Rightarrow> Some (Some P_Unlock,
                   s\<lparr>w_data := None, consumed := consumed s @ [(x, Some f)], world := w'\<rparr>))))
   | P_Unlock \<Rightarrow> Some (Some P_LoopTest, s\<lparr>m_mutexFunc := None\<rparr>))"

section \<open>QueueProcessThread (lines 114 to 139)\<close>

text \<open>
  The queue each call site passes, and where the thread function continues when the call
  returns: line 129 after the call of line 128, the end of the loop body after that of
  line 137.
\<close>

definition argument :: "qref \<Rightarrow> site \<Rightarrow> qref" where
  "argument xq c = (case c of Exit_path \<Rightarrow> xq | Loop_body \<Rightarrow> Local_queue)"

definition return_to :: "site \<Rightarrow> wpc" where
  "return_to c = (case c of Exit_path \<Rightarrow> W_ExitUnlock | Loop_body \<Rightarrow> W_ScopeEnd)"

text \<open>
  \<open>inside c res\<close> continues the thread function after a statement of the callee: at the
  callee's next point, or behind the call when it returned.
\<close>

definition inside :: "site \<Rightarrow> (ppc option \<times> ('a, 'w) sys) option \<Rightarrow> ('a, 'w) sys option" where
  "inside c res = map_option
     (\<lambda>(p, t). t\<lparr>wpc := (case p of Some p' \<Rightarrow> W_Call c p' | None \<Rightarrow> return_to c)\<rparr>) res"

text \<open>
  \<^verbatim>\<open>m_cv.wait(lock, pred)\<close> (lines 121 to 124) is \<^verbatim>\<open>while (!pred()) wait(lock);\<close>.
  The predicate of line 123 is tested with the mutex held (\<open>W_WaitPred\<close>), as a statement
  of its own. If it fails, \<^verbatim>\<open>wait(lock)\<close> releases the mutex and enters the set of the
  waiting threads in one atomic action (\<open>W_WaitBlock\<close>); the thread is then blocked
  (\<open>W_Waiting\<close>) until a \<^verbatim>\<open>notify_all\<close> or a spurious wake-up takes it out of
  \<open>m_cv\<close>, takes the mutex again (\<open>W_Relock\<close>) and tests again. Other threads can run
  between the test and the blocking; that no wake-up is lost there rests on the mutex. At the end of the loop body the local queue
  is destroyed with whatever it still holds; those items are logged as dropped.
\<close>

definition QueueProcessThread :: "qref \<Rightarrow> ('a, 'w) sys \<Rightarrow> ('a, 'w) sys option" where
  "QueueProcessThread xq s = (case wpc s of
     W_NotStarted \<Rightarrow> None
   | W_LoopTest \<Rightarrow> Some (s\<lparr>wpc := (if \<not> m_bExit s then W_Lock else W_Done)\<rparr>)
   | W_Lock \<Rightarrow>
       guard (m_mutexThread s = None) (s\<lparr>m_mutexThread := Some Worker, wpc := W_WaitPred\<rparr>)
   | W_WaitPred \<Rightarrow>
       Some (s\<lparr>wpc := (if m_queue s \<noteq> [] \<or> m_bExit s then W_CheckExit else W_WaitBlock)\<rparr>)
   | W_WaitBlock \<Rightarrow>
       Some (s\<lparr>m_mutexThread := None, m_cv := insert Worker (m_cv s), wpc := W_Waiting\<rparr>)
   | W_Waiting \<Rightarrow> guard (Worker \<notin> m_cv s) (s\<lparr>wpc := W_Relock\<rparr>)
   | W_Relock \<Rightarrow>
       guard (m_mutexThread s = None) (s\<lparr>m_mutexThread := Some Worker, wpc := W_WaitPred\<rparr>)
   | W_CheckExit \<Rightarrow>
       Some (s\<lparr>wpc := (if m_bExit s then W_Call Exit_path P_CheckFunc else W_Swap)\<rparr>)
   | W_ExitUnlock \<Rightarrow> Some (s\<lparr>m_mutexThread := None, wpc := W_Done\<rparr>)
   | W_Swap \<Rightarrow> Some (s\<lparr>w_queue := m_queue s, m_queue := [], wpc := W_Unlock\<rparr>)
   | W_Unlock \<Rightarrow> Some (s\<lparr>m_mutexThread := None, wpc := W_Call Loop_body P_CheckFunc\<rparr>)
   | W_Call c p \<Rightarrow> inside c (ProcessQueueData (argument xq c) p s)
   | W_ScopeEnd \<Rightarrow>
       Some (s\<lparr>consumed := consumed s @ map (\<lambda>x. (x, None)) (w_queue s), w_queue := [],
               wpc := W_LoopTest\<rparr>)
   | W_Done \<Rightarrow> None)"

text \<open>A spurious wake-up of the worker out of \<^verbatim>\<open>m_cv.wait\<close>.\<close>

definition spurious_wake :: "('a, 'w) sys \<Rightarrow> ('a, 'w) sys option" where
  "spurious_wake s = guard (Worker \<in> m_cv s) (s\<lparr>m_cv := m_cv s - {Worker}\<rparr>)"

lemmas worker_ops [qt_ops] =
  ProcessQueueData_def argument_def return_to_def inside_def QueueProcessThread_def
  spurious_wake_def

lemma argument_simps [simp]:
  "argument xq Exit_path = xq"
  "argument xq Loop_body = Local_queue"
  by (simp_all add: argument_def)

lemma return_to_simps [simp]:
  "return_to Exit_path = W_ExitUnlock"
  "return_to Loop_body = W_ScopeEnd"
  by (simp_all add: return_to_def)

end
