(* ===== verification/QT_System.thy ===== *)
theory QT_System
  imports QT_Client QT_Worker
begin

text \<open>
  The threads of \<^verbatim>\<open>src/QueueThread.h\<close> put together: an \<open>event\<close> names which
  thread runs its next atomic statement, \<open>fire\<close> runs it, \<open>run\<close> runs a schedule (a
  list of events), \<open>qt_step\<close> is the transition relation with one rule per kind of
  event, and \<open>reachable\<close> the states some schedule leads to from a freshly constructed
  object. After a fault the process is gone: no event fires.
\<close>

section \<open>Events and schedules\<close>

datatype ('a, 'w) event =
    Invoke nat "('a, 'w) call"
  | ClientStep nat
  | Throws nat
  | WorkerStep
  | SpuriousWake

text \<open>
  \<open>ClientStep i\<close> is client \<open>i\<close>'s next statement, with every resource granted;
  \<open>Throws i\<close> is client \<open>i\<close>'s next statement throwing, which only the allocation of
  line 54, the thread creation of line 63 and the push of line 101 can do.
\<close>

definition fire :: "qref \<Rightarrow> ('a, 'w) event \<Rightarrow> ('a, 'w) sys \<Rightarrow> ('a, 'w) sys option" where
  "fire xq e s = (if fault s \<noteq> None then None else case e of
     Invoke i c \<Rightarrow> invoke i c s
   | ClientStep i \<Rightarrow> client_step True i s
   | Throws i \<Rightarrow> (if can_throw (cpc s i) then client_step False i s else None)
   | WorkerStep \<Rightarrow> QueueProcessThread xq s
   | SpuriousWake \<Rightarrow> spurious_wake s)"

primrec run :: "qref \<Rightarrow> ('a, 'w) event list \<Rightarrow> ('a, 'w) sys \<Rightarrow> ('a, 'w) sys option" where
  "run xq [] s = Some s"
| "run xq (e # es) s = (case fire xq e s of None \<Rightarrow> None | Some t \<Rightarrow> run xq es t)"

section \<open>The transition relation\<close>

inductive qt_step :: "qref \<Rightarrow> ('a, 'w) sys \<Rightarrow> ('a, 'w) sys \<Rightarrow> bool" for xq where
  call: "fault s = None \<Longrightarrow> invoke i c s = Some t \<Longrightarrow> qt_step xq s t"
| client: "fault s = None \<Longrightarrow> client_step True i s = Some t \<Longrightarrow> qt_step xq s t"
| throws: "fault s = None \<Longrightarrow> can_throw (cpc s i) \<Longrightarrow> client_step False i s = Some t \<Longrightarrow>
    qt_step xq s t"
| worker: "fault s = None \<Longrightarrow> QueueProcessThread xq s = Some t \<Longrightarrow> qt_step xq s t"
| spurious: "fault s = None \<Longrightarrow> spurious_wake s = Some t \<Longrightarrow> qt_step xq s t"

inductive reachable :: "qref \<Rightarrow> 'w \<Rightarrow> ('a, 'w) sys \<Rightarrow> bool" for xq w where
  init: "reachable xq w (init_sys w)"
| step: "reachable xq w s \<Longrightarrow> qt_step xq s t \<Longrightarrow> reachable xq w t"

section \<open>Steps, events and schedules agree\<close>

lemma qt_step_iff_fire: "qt_step xq s t \<longleftrightarrow> (\<exists>e. fire xq e s = Some t)"
proof
  assume "qt_step xq s t"
  then show "\<exists>e. fire xq e s = Some t"
  proof cases
    case (call i c)
    then have "fire xq (Invoke i c) s = Some t" by (simp add: fire_def)
    then show ?thesis ..
  next
    case (client i)
    then have "fire xq (ClientStep i) s = Some t" by (simp add: fire_def)
    then show ?thesis ..
  next
    case (throws i)
    then have "fire xq (Throws i) s = Some t" by (simp add: fire_def)
    then show ?thesis ..
  next
    case worker
    then have "fire xq WorkerStep s = Some t" by (simp add: fire_def)
    then show ?thesis ..
  next
    case spurious
    then have "fire xq SpuriousWake s = Some t" by (simp add: fire_def)
    then show ?thesis ..
  qed
next
  assume "\<exists>e. fire xq e s = Some t"
  then obtain e where e: "fire xq e s = Some t" ..
  then have f: "fault s = None" by (auto simp: fire_def split: if_splits)
  from e f show "qt_step xq s t"
    by (cases e) (auto simp: fire_def split: if_splits intro: qt_step.intros)
qed

lemma fire_step: "fire xq e s = Some t \<Longrightarrow> qt_step xq s t"
  using qt_step_iff_fire by blast

lemma run_append: "run xq (es @ fs) s = (case run xq es s of None \<Rightarrow> None | Some t \<Rightarrow> run xq fs t)"
  by (induction es arbitrary: s) (auto split: option.splits)

lemma run_reachable: "reachable xq w s \<Longrightarrow> run xq es s = Some t \<Longrightarrow> reachable xq w t"
proof (induction es arbitrary: s)
  case Nil
  then show ?case by simp
next
  case (Cons e es)
  from Cons.prems(2) obtain u where u: "fire xq e s = Some u" and r: "run xq es u = Some t"
    by (auto split: option.splits)
  from Cons.prems(1) u have "reachable xq w u"
    by (blast intro: reachable.step fire_step)
  then show ?case using r by (rule Cons.IH)
qed

lemma reachable_run: "reachable xq w s \<Longrightarrow> \<exists>es. run xq es (init_sys w) = Some s"
proof (induction rule: reachable.induct)
  case init
  have "run xq [] (init_sys w) = Some (init_sys w)" by simp
  then show ?case ..
next
  case (step s t)
  then obtain es e where "run xq es (init_sys w) = Some s" and "fire xq e s = Some t"
    by (auto simp: qt_step_iff_fire)
  then have "run xq (es @ [e]) (init_sys w) = Some t"
    by (simp add: run_append)
  then show ?case ..
qed

lemmas system_ops [qt_ops] = fire_def

end
