(* ===== verification/QT_Statements.thy ===== *)
theory QT_Statements
  imports QT_System
begin

text \<open>
  The atomic statements of \<^verbatim>\<open>src/QueueThread.h\<close> once more, as inductive relations
  with one rule per statement and branch, named after the program point: \<open>client_stmt\<close>
  for the public methods and \<open>worker_stmt\<close> for the thread function. Each relation is
  proved to be the graph of the step function of \<open>QT_Client\<close> or \<open>QT_Worker\<close>, so
  the relations add nothing to the model; they provide the case analysis and the induction
  rule that every invariant proof uses (\<open>qt_step_cases\<close>, \<open>reachable_invariant\<close>), so
  that what is proved by rule induction holds of the executable step functions.
\<close>

section \<open>The statements of the clients\<close>

text \<open>
  \<open>client_stmt ok i s t\<close>: client \<open>i\<close> runs its next statement in \<open>s\<close> and the
  result is \<open>t\<close>. One rule per statement and branch, named after the program point.
\<close>

inductive client_stmt :: "bool \<Rightarrow> nat \<Rightarrow> ('a, 'w) sys \<Rightarrow> ('a, 'w) sys \<Rightarrow> bool" for ok i where
  R_Lock: "cpc s i = In_Register (R_Lock f) k \<Longrightarrow> m_mutexFunc s = None \<Longrightarrow>
    client_stmt ok i s
      (s\<lparr>m_mutexFunc := Some (Client i), cpc := (cpc s)(i := In_Register (R_Assign f) k)\<rparr>)"
| R_Assign: "cpc s i = In_Register (R_Assign f) k \<Longrightarrow> ok \<Longrightarrow>
    client_stmt ok i s (s\<lparr>m_pFunc := Some f, cpc := (cpc s)(i := In_Register R_Unlock k)\<rparr>)"
| R_Assign_throws: "cpc s i = In_Register (R_Assign f) k \<Longrightarrow> \<not> ok \<Longrightarrow>
    client_stmt ok i s (s\<lparr>m_mutexFunc := None, cpc := (cpc s)(i := C_Ret RThrow)\<rparr>)"
| R_Unlock: "cpc s i = In_Register R_Unlock k \<Longrightarrow>
    client_stmt ok i s (s\<lparr>m_mutexFunc := None, cpc := (cpc s)(i := after_Register k RVoid)\<rparr>)"
| S_Check_started: "cpc s i = In_Start S_Check \<Longrightarrow> m_pThread s = Some th \<Longrightarrow>
    client_stmt ok i s (s\<lparr>cpc := (cpc s)(i := C_Ret (RBool True))\<rparr>)"
| S_Check_fresh: "cpc s i = In_Start S_Check \<Longrightarrow> m_pThread s = None \<Longrightarrow>
    client_stmt ok i s (s\<lparr>cpc := (cpc s)(i := In_Start S_Spawn)\<rparr>)"
| S_Spawn: "cpc s i = In_Start S_Spawn \<Longrightarrow> ok \<Longrightarrow>
    client_stmt ok i s
      (s\<lparr>m_pThread := Some Joinable, wpc := W_LoopTest, cpc := (cpc s)(i := In_Start S_NullCheck)\<rparr>)"
| S_Spawn_throws: "cpc s i = In_Start S_Spawn \<Longrightarrow> \<not> ok \<Longrightarrow>
    client_stmt ok i s (s\<lparr>cpc := (cpc s)(i := C_Ret RThrow)\<rparr>)"
| S_NullCheck_null: "cpc s i = In_Start S_NullCheck \<Longrightarrow> m_pThread s = None \<Longrightarrow>
    client_stmt ok i s (s\<lparr>cpc := (cpc s)(i := C_Ret (RBool False))\<rparr>)"
| S_NullCheck_some: "cpc s i = In_Start S_NullCheck \<Longrightarrow> m_pThread s = Some th \<Longrightarrow>
    client_stmt ok i s (s\<lparr>cpc := (cpc s)(i := C_Ret (RBool True))\<rparr>)"
| T_Check_none: "cpc s i = In_Stop T_Check \<Longrightarrow> m_pThread s = None \<Longrightarrow>
    client_stmt ok i s (s\<lparr>cpc := (cpc s)(i := C_Ret RVoid)\<rparr>)"
| T_Check_some: "cpc s i = In_Stop T_Check \<Longrightarrow> m_pThread s = Some th \<Longrightarrow>
    client_stmt ok i s (s\<lparr>cpc := (cpc s)(i := In_Stop T_Lock)\<rparr>)"
| T_Lock: "cpc s i = In_Stop T_Lock \<Longrightarrow> m_mutexThread s = None \<Longrightarrow>
    client_stmt ok i s
      (s\<lparr>m_mutexThread := Some (Client i), cpc := (cpc s)(i := In_Stop T_SetExit)\<rparr>)"
| T_SetExit: "cpc s i = In_Stop T_SetExit \<Longrightarrow>
    client_stmt ok i s (s\<lparr>m_bExit := True, cpc := (cpc s)(i := In_Stop T_Unlock)\<rparr>)"
| T_Unlock: "cpc s i = In_Stop T_Unlock \<Longrightarrow>
    client_stmt ok i s (s\<lparr>m_mutexThread := None, cpc := (cpc s)(i := In_Stop T_Notify)\<rparr>)"
| T_Notify: "cpc s i = In_Stop T_Notify \<Longrightarrow>
    client_stmt ok i s (s\<lparr>m_cv := {}, cpc := (cpc s)(i := In_Stop T_Joinable)\<rparr>)"
| T_Joinable_null: "cpc s i = In_Stop T_Joinable \<Longrightarrow> m_pThread s = None \<Longrightarrow>
    client_stmt ok i s (s\<lparr>fault := Some Null_thread\<rparr>)"
| T_Joinable_yes: "cpc s i = In_Stop T_Joinable \<Longrightarrow> m_pThread s = Some Joinable \<Longrightarrow>
    client_stmt ok i s (s\<lparr>cpc := (cpc s)(i := In_Stop T_Join)\<rparr>)"
| T_Joinable_no: "cpc s i = In_Stop T_Joinable \<Longrightarrow> m_pThread s = Some Joined \<Longrightarrow>
    client_stmt ok i s (s\<lparr>cpc := (cpc s)(i := C_Ret RVoid)\<rparr>)"
| T_Join: "cpc s i = In_Stop T_Join \<Longrightarrow> wpc s = W_Done \<Longrightarrow>
    client_stmt ok i s (s\<lparr>m_pThread := Some Joined, cpc := (cpc s)(i := C_Ret RVoid)\<rparr>)"
| A_Lock: "cpc s i = In_Add (A_Lock x) \<Longrightarrow> m_mutexThread s = None \<Longrightarrow>
    client_stmt ok i s
      (s\<lparr>m_mutexThread := Some (Client i), cpc := (cpc s)(i := In_Add (A_Push x))\<rparr>)"
| A_Push: "cpc s i = In_Add (A_Push x) \<Longrightarrow> ok \<Longrightarrow>
    client_stmt ok i s
      (s\<lparr>m_queue := m_queue s @ [x], pushed := pushed s @ [x],
         cpc := (cpc s)(i := In_Add A_Notify)\<rparr>)"
| A_Push_throws: "cpc s i = In_Add (A_Push x) \<Longrightarrow> \<not> ok \<Longrightarrow>
    client_stmt ok i s (s\<lparr>m_mutexThread := None, cpc := (cpc s)(i := C_Ret RThrow)\<rparr>)"
| A_Notify: "cpc s i = In_Add A_Notify \<Longrightarrow>
    client_stmt ok i s (s\<lparr>m_cv := {}, cpc := (cpc s)(i := In_Add A_Unlock)\<rparr>)"
| A_Unlock: "cpc s i = In_Add A_Unlock \<Longrightarrow>
    client_stmt ok i s (s\<lparr>m_mutexThread := None, cpc := (cpc s)(i := C_Ret RVoid)\<rparr>)"
| I_Check_some: "cpc s i = In_IsRunning \<Longrightarrow> m_pThread s = Some th \<Longrightarrow>
    client_stmt ok i s (s\<lparr>cpc := (cpc s)(i := C_Ret (RBool True))\<rparr>)"
| I_Check_null: "cpc s i = In_IsRunning \<Longrightarrow> m_pThread s = None \<Longrightarrow>
    client_stmt ok i s (s\<lparr>cpc := (cpc s)(i := C_Ret (RBool False))\<rparr>)"

text \<open>The relation is the graph of the step function.\<close>

lemma client_stmt_step: "client_stmt ok i s t \<Longrightarrow> client_step ok i s = Some t"
  by (induction rule: client_stmt.induct) (simp_all add: qt_ops)

lemma Register_stmt:
  "cpc s i = In_Register p k \<Longrightarrow> RegisterQueueProcessFunc ok i p s = Some (r, u) \<Longrightarrow>
   client_stmt ok i s
     (u\<lparr>cpc := (cpc u)(i := (case r of Inl p' \<Rightarrow> In_Register p' k | Inr v \<Rightarrow> after_Register k v))\<rparr>)"
  by (cases p)
     (auto simp: RegisterQueueProcessFunc_def split: if_splits intro: client_stmt.intros)

lemma Start_stmt:
  "cpc s i = In_Start p \<Longrightarrow> Start ok p s = Some (r, u) \<Longrightarrow>
   client_stmt ok i s (u\<lparr>cpc := (cpc u)(i := (case r of Inl p' \<Rightarrow> In_Start p' | Inr v \<Rightarrow> C_Ret v))\<rparr>)"
  by (cases p) (auto simp: Start_def split: if_splits intro: client_stmt.intros)

lemma Stop_stmt:
  "cpc s i = In_Stop p \<Longrightarrow> Stop i p s = Some (r, u) \<Longrightarrow>
   client_stmt ok i s (u\<lparr>cpc := (cpc u)(i := (case r of Inl p' \<Rightarrow> In_Stop p' | Inr v \<Rightarrow> C_Ret v))\<rparr>)"
  by (cases p)
     (auto simp: Stop_def split: if_splits option.splits thread_obj.splits
           intro: client_stmt.intros)

lemma Add_stmt:
  "cpc s i = In_Add p \<Longrightarrow> AddQueueData ok i p s = Some (r, u) \<Longrightarrow>
   client_stmt ok i s (u\<lparr>cpc := (cpc u)(i := (case r of Inl p' \<Rightarrow> In_Add p' | Inr v \<Rightarrow> C_Ret v))\<rparr>)"
  by (cases p) (auto simp: AddQueueData_def split: if_splits intro: client_stmt.intros)

lemma IsRunning_stmt:
  "cpc s i = In_IsRunning \<Longrightarrow>
   client_stmt ok i s (s\<lparr>cpc := (cpc s)(i := C_Ret (RBool (IsRunning s)))\<rparr>)"
  by (auto simp: IsRunning_def intro: client_stmt.intros)

lemma client_step_stmt: "client_step ok i s = Some t \<Longrightarrow> client_stmt ok i s t"
  by (cases "cpc s i")
     (auto simp: client_step_def resume_def
           intro: Register_stmt Start_stmt Stop_stmt Add_stmt IsRunning_stmt)

theorem client_step_iff: "client_step ok i s = Some t \<longleftrightarrow> client_stmt ok i s t"
  using client_stmt_step client_step_stmt by blast

section \<open>The statements of the worker\<close>

text \<open>
  \<open>worker_stmt xq s t\<close>: the worker runs its next statement in \<open>s\<close> and the result is
  \<open>t\<close>. One rule per statement and branch; the rules of \<^verbatim>\<open>ProcessQueueData\<close> are
  stated for either call site \<open>c\<close>.
\<close>

inductive worker_stmt :: "qref \<Rightarrow> ('a, 'w) sys \<Rightarrow> ('a, 'w) sys \<Rightarrow> bool" for xq where
  W_LoopTest_go: "wpc s = W_LoopTest \<Longrightarrow> \<not> m_bExit s \<Longrightarrow> worker_stmt xq s (s\<lparr>wpc := W_Lock\<rparr>)"
| W_LoopTest_exit: "wpc s = W_LoopTest \<Longrightarrow> m_bExit s \<Longrightarrow> worker_stmt xq s (s\<lparr>wpc := W_Done\<rparr>)"
| W_Lock: "wpc s = W_Lock \<Longrightarrow> m_mutexThread s = None \<Longrightarrow>
    worker_stmt xq s (s\<lparr>m_mutexThread := Some Worker, wpc := W_WaitPred\<rparr>)"
| W_WaitPred_pass: "wpc s = W_WaitPred \<Longrightarrow> m_queue s \<noteq> [] \<or> m_bExit s \<Longrightarrow>
    worker_stmt xq s (s\<lparr>wpc := W_CheckExit\<rparr>)"
| W_WaitPred_fail: "wpc s = W_WaitPred \<Longrightarrow> m_queue s = [] \<Longrightarrow> \<not> m_bExit s \<Longrightarrow>
    worker_stmt xq s (s\<lparr>wpc := W_WaitBlock\<rparr>)"
| W_WaitBlock: "wpc s = W_WaitBlock \<Longrightarrow>
    worker_stmt xq s
      (s\<lparr>m_mutexThread := None, m_cv := insert Worker (m_cv s), wpc := W_Waiting\<rparr>)"
| W_Waiting: "wpc s = W_Waiting \<Longrightarrow> Worker \<notin> m_cv s \<Longrightarrow> worker_stmt xq s (s\<lparr>wpc := W_Relock\<rparr>)"
| W_Relock: "wpc s = W_Relock \<Longrightarrow> m_mutexThread s = None \<Longrightarrow>
    worker_stmt xq s (s\<lparr>m_mutexThread := Some Worker, wpc := W_WaitPred\<rparr>)"
| W_CheckExit_exit: "wpc s = W_CheckExit \<Longrightarrow> m_bExit s \<Longrightarrow>
    worker_stmt xq s (s\<lparr>wpc := W_Call Exit_path P_CheckFunc\<rparr>)"
| W_CheckExit_go: "wpc s = W_CheckExit \<Longrightarrow> \<not> m_bExit s \<Longrightarrow> worker_stmt xq s (s\<lparr>wpc := W_Swap\<rparr>)"
| W_ExitUnlock: "wpc s = W_ExitUnlock \<Longrightarrow>
    worker_stmt xq s (s\<lparr>m_mutexThread := None, wpc := W_Done\<rparr>)"
| W_Swap: "wpc s = W_Swap \<Longrightarrow>
    worker_stmt xq s (s\<lparr>w_queue := m_queue s, m_queue := [], wpc := W_Unlock\<rparr>)"
| W_Unlock: "wpc s = W_Unlock \<Longrightarrow>
    worker_stmt xq s (s\<lparr>m_mutexThread := None, wpc := W_Call Loop_body P_CheckFunc\<rparr>)"
| W_ScopeEnd: "wpc s = W_ScopeEnd \<Longrightarrow>
    worker_stmt xq s
      (s\<lparr>consumed := consumed s @ map (\<lambda>x. (x, None)) (w_queue s), w_queue := [],
         wpc := W_LoopTest\<rparr>)"
| P_CheckFunc_null: "wpc s = W_Call c P_CheckFunc \<Longrightarrow> m_pFunc s = None \<Longrightarrow>
    worker_stmt xq s (s\<lparr>wpc := return_to c\<rparr>)"
| P_CheckFunc_some: "wpc s = W_Call c P_CheckFunc \<Longrightarrow> m_pFunc s = Some f \<Longrightarrow>
    worker_stmt xq s (s\<lparr>wpc := W_Call c P_LoopTest\<rparr>)"
| P_LoopTest_go: "wpc s = W_Call c P_LoopTest \<Longrightarrow> deref (argument xq c) s \<noteq> [] \<Longrightarrow>
    worker_stmt xq s (s\<lparr>wpc := W_Call c P_Pop\<rparr>)"
| P_LoopTest_done: "wpc s = W_Call c P_LoopTest \<Longrightarrow> deref (argument xq c) s = [] \<Longrightarrow>
    worker_stmt xq s (s\<lparr>wpc := return_to c\<rparr>)"
| P_Pop: "wpc s = W_Call c P_Pop \<Longrightarrow> deref (argument xq c) s = x # xs \<Longrightarrow>
    worker_stmt xq s ((assign (argument xq c) xs (s\<lparr>w_data := Some x\<rparr>))\<lparr>wpc := W_Call c P_LockFunc\<rparr>)"
| P_Pop_empty: "wpc s = W_Call c P_Pop \<Longrightarrow> deref (argument xq c) s = [] \<Longrightarrow>
    worker_stmt xq s (s\<lparr>fault := Some Front_of_empty\<rparr>)"
| P_LockFunc: "wpc s = W_Call c P_LockFunc \<Longrightarrow> m_mutexFunc s = None \<Longrightarrow>
    worker_stmt xq s (s\<lparr>m_mutexFunc := Some Worker, wpc := W_Call c P_Call\<rparr>)"
| P_Call: "wpc s = W_Call c P_Call \<Longrightarrow> m_pFunc s = Some f \<Longrightarrow> w_data s = Some x \<Longrightarrow>
    f x (world s) = Some w' \<Longrightarrow>
    worker_stmt xq s
      (s\<lparr>w_data := None, consumed := consumed s @ [(x, Some f)], world := w',
         wpc := W_Call c P_Unlock\<rparr>)"
| P_Call_throws: "wpc s = W_Call c P_Call \<Longrightarrow> m_pFunc s = Some f \<Longrightarrow> w_data s = Some x \<Longrightarrow>
    f x (world s) = None \<Longrightarrow>
    worker_stmt xq s (s\<lparr>fault := Some Callback_threw\<rparr>)"
| P_Call_null: "wpc s = W_Call c P_Call \<Longrightarrow> m_pFunc s = None \<Longrightarrow>
    worker_stmt xq s (s\<lparr>fault := Some Null_callback\<rparr>)"
| P_Unlock: "wpc s = W_Call c P_Unlock \<Longrightarrow>
    worker_stmt xq s (s\<lparr>m_mutexFunc := None, wpc := W_Call c P_LoopTest\<rparr>)"

text \<open>The relation is the graph of the step function.\<close>

lemma worker_stmt_step: "worker_stmt xq s t \<Longrightarrow> QueueProcessThread xq s = Some t"
  by (induction rule: worker_stmt.induct)
     (auto simp: QueueProcessThread_def ProcessQueueData_def inside_def split: option.splits)

lemma ProcessQueueData_stmt:
  "wpc s = W_Call c p \<Longrightarrow> ProcessQueueData (argument xq c) p s = Some (r, u) \<Longrightarrow>
   worker_stmt xq s (u\<lparr>wpc := (case r of Some p' \<Rightarrow> W_Call c p' | None \<Rightarrow> return_to c)\<rparr>)"
  by (cases p)
     (auto simp: ProcessQueueData_def split: if_splits list.splits option.splits
           intro: worker_stmt.intros)

lemma worker_step_stmt: "QueueProcessThread xq s = Some t \<Longrightarrow> worker_stmt xq s t"
  by (cases "wpc s")
     (auto simp: QueueProcessThread_def inside_def split: if_splits
           intro: worker_stmt.intros ProcessQueueData_stmt)

theorem worker_step_iff: "QueueProcessThread xq s = Some t \<longleftrightarrow> worker_stmt xq s t"
  using worker_stmt_step worker_step_stmt by blast

section \<open>Proving invariants\<close>

text \<open>
  A step is a call, a statement of a client, a statement of the worker or a spurious
  wake-up, and never starts from a faulty state.
\<close>

lemma qt_step_cases [consumes 1, case_names call client worker spurious]:
  assumes "qt_step xq s t"
    and "\<And>i c. fault s = None \<Longrightarrow> outside (cpc s i) \<Longrightarrow>
           (if lifecycle_call c then i = 0 else True) \<Longrightarrow>
           t = s\<lparr>cpc := (cpc s)(i := entry c)\<rparr> \<Longrightarrow> P"
    and "\<And>ok i. fault s = None \<Longrightarrow> client_stmt ok i s t \<Longrightarrow> P"
    and "fault s = None \<Longrightarrow> worker_stmt xq s t \<Longrightarrow> P"
    and "fault s = None \<Longrightarrow> Worker \<in> m_cv s \<Longrightarrow> t = s\<lparr>m_cv := m_cv s - {Worker}\<rparr> \<Longrightarrow> P"
  shows P
  using assms(1)
proof cases
  case (call i c)
  from call(2) have "outside (cpc s i)" "if lifecycle_call c then i = 0 else True"
    "t = s\<lparr>cpc := (cpc s)(i := entry c)\<rparr>"
    by (simp_all add: invoke_def)
  with call(1) show ?thesis by (rule assms(2))
next
  case (client i)
  then show ?thesis using assms(3) by (simp add: client_step_iff)
next
  case (throws i)
  then show ?thesis using assms(3) by (simp add: client_step_iff)
next
  case worker
  then show ?thesis using assms(4) by (simp add: worker_step_iff)
next
  case spurious
  from spurious(2) have "Worker \<in> m_cv s" "t = s\<lparr>m_cv := m_cv s - {Worker}\<rparr>"
    by (simp_all add: spurious_wake_def)
  with spurious(1) show ?thesis by (rule assms(5))
qed

text \<open>
  The rule for proving that a predicate holds in every reachable state: it holds initially
  and each kind of step keeps it. The premises may use that the state before the step is
  reachable, so that an invariant can rest on the ones proved before it.
\<close>

lemma reachable_invariant [consumes 1, case_names init call client worker spurious]:
  assumes "reachable xq w s"
    and "P (init_sys w)"
    and "\<And>s i c. reachable xq w s \<Longrightarrow> P s \<Longrightarrow> fault s = None \<Longrightarrow> outside (cpc s i) \<Longrightarrow>
           (if lifecycle_call c then i = 0 else True) \<Longrightarrow>
           P (s\<lparr>cpc := (cpc s)(i := entry c)\<rparr>)"
    and "\<And>s t ok i. reachable xq w s \<Longrightarrow> P s \<Longrightarrow> fault s = None \<Longrightarrow>
           client_stmt ok i s t \<Longrightarrow> P t"
    and "\<And>s t. reachable xq w s \<Longrightarrow> P s \<Longrightarrow> fault s = None \<Longrightarrow> worker_stmt xq s t \<Longrightarrow> P t"
    and "\<And>s. reachable xq w s \<Longrightarrow> P s \<Longrightarrow> fault s = None \<Longrightarrow> Worker \<in> m_cv s \<Longrightarrow>
           P (s\<lparr>m_cv := m_cv s - {Worker}\<rparr>)"
  shows "P s"
  using assms(1)
proof (induction rule: reachable.induct)
  case init
  show ?case by (rule assms(2))
next
  case (step s t)
  from step.hyps(2) show ?case
  proof (cases rule: qt_step_cases)
    case (call i c)
    with step.hyps(1) step.IH show ?thesis by (simp add: assms(3))
  next
    case (client ok i)
    with step.hyps(1) step.IH show ?thesis by (blast intro: assms(4))
  next
    case worker
    with step.hyps(1) step.IH show ?thesis by (blast intro: assms(5))
  next
    case spurious
    with step.hyps(1) step.IH show ?thesis by (simp add: assms(6))
  qed
qed

end
