(* ===== verification/QT_Invariants.thy ===== *)
theory QT_Invariants
  imports QT_Statements
begin

text \<open>
  The invariants of the interleaved system, each with the lemma that every reachable state
  satisfies it. Each invariant is a small predicate on the state; the proof that a step
  keeps it is a rule induction over the statements of \<open>QT_Client\<close> and \<open>QT_Worker\<close>.
  Later invariants use earlier ones through the reachability of the state before the step.

  \<^item> \<open>thread_inv\<close>: the thread handle \<^verbatim>\<open>m_pThread\<close> agrees with the worker's program
    point and with where the owner is inside \<^verbatim>\<open>Start\<close> and \<^verbatim>\<open>Stop\<close>.
  \<^item> \<open>mutexThread_excl\<close>, \<open>mutexFunc_excl\<close>: a thread inside a critical section is the
    holder of the mutex (mutual exclusion).
  \<^item> \<open>mutexThread_held\<close>, \<open>mutexFunc_held\<close>: the holder of a mutex is inside its critical
    section (no mutex is left locked).
  \<^item> \<open>local_inv\<close>: the worker's locals agree with its program point; the callback is
    non-null and the queue non-empty where the code relies on it.
  \<^item> \<open>history_inv\<close>: the items pushed are the items consumed followed by those in flight.
  \<^item> \<open>cv_inv\<close>: only the worker waits on the condition variable, what the wait predicate
    read is still true when the worker blocks, and no wake-up is lost.
  \<^item> \<open>fault_inv\<close>: the only fault is a callback that threw.
  \<^item> \<open>exit_inv\<close>: the worker is on the exit path or behind the loop only if
    \<^verbatim>\<open>m_bExit\<close> is set; under the reading of line 128 as the local queue the exit path
    takes no item.
  \<^item> \<open>history_step\<close>, \<open>monotone_step\<close>: what one step does to the history of the
    items and to the flags and pointers of the object.
\<close>

section \<open>Program points and what they imply\<close>

text \<open>The program points only the owner can be at.\<close>

fun owner_only :: "('a, 'w) cpc \<Rightarrow> bool" where
  "owner_only (In_Register p k) = k"
| "owner_only (In_Start p) = True"
| "owner_only (In_Stop p) = True"
| "owner_only In_IsRunning = True"
| "owner_only _ = False"

text \<open>What a client's program point says about the thread handle.\<close>

fun thread_ok :: "('a, 'w) cpc \<Rightarrow> thread_obj option \<Rightarrow> bool" where
  "thread_ok (In_Start S_Spawn) th = (th = None)"
| "thread_ok (In_Start S_NullCheck) th = (th \<noteq> None)"
| "thread_ok (In_Stop T_Check) th = True"
| "thread_ok (In_Stop T_Join) th = (th = Some Joinable)"
| "thread_ok (In_Stop p) th = (th \<noteq> None)"
| "thread_ok _ th = True"

text \<open>The critical sections of the two mutexes, for the worker and for a client.\<close>

fun holds_mutexThread_w :: "wpc \<Rightarrow> bool" where
  "holds_mutexThread_w W_WaitPred = True"
| "holds_mutexThread_w W_WaitBlock = True"
| "holds_mutexThread_w W_CheckExit = True"
| "holds_mutexThread_w (W_Call c p) = (c = Exit_path)"
| "holds_mutexThread_w W_ExitUnlock = True"
| "holds_mutexThread_w W_Swap = True"
| "holds_mutexThread_w W_Unlock = True"
| "holds_mutexThread_w _ = False"

fun holds_mutexThread_c :: "('a, 'w) cpc \<Rightarrow> bool" where
  "holds_mutexThread_c (In_Stop T_SetExit) = True"
| "holds_mutexThread_c (In_Stop T_Unlock) = True"
| "holds_mutexThread_c (In_Add (A_Push x)) = True"
| "holds_mutexThread_c (In_Add A_Notify) = True"
| "holds_mutexThread_c (In_Add A_Unlock) = True"
| "holds_mutexThread_c _ = False"

fun holds_mutexFunc_w :: "wpc \<Rightarrow> bool" where
  "holds_mutexFunc_w (W_Call c P_Call) = True"
| "holds_mutexFunc_w (W_Call c P_Unlock) = True"
| "holds_mutexFunc_w _ = False"

fun holds_mutexFunc_c :: "('a, 'w) cpc \<Rightarrow> bool" where
  "holds_mutexFunc_c (In_Register (R_Assign f) k) = True"
| "holds_mutexFunc_c (In_Register R_Unlock k) = True"
| "holds_mutexFunc_c _ = False"

text \<open>
  Where the worker holds an item in \<^verbatim>\<open>data\<close>, where its local queue exists, where it
  has passed the null test of line 144.
\<close>

fun has_data :: "wpc \<Rightarrow> bool" where
  "has_data (W_Call c P_LockFunc) = True"
| "has_data (W_Call c P_Call) = True"
| "has_data _ = False"

fun local_live :: "wpc \<Rightarrow> bool" where
  "local_live W_Unlock = True"
| "local_live (W_Call c p) = (c = Loop_body)"
| "local_live W_ScopeEnd = True"
| "local_live _ = False"

fun func_checked :: "wpc \<Rightarrow> bool" where
  "func_checked (W_Call c p) = (p \<noteq> P_CheckFunc)"
| "func_checked _ = False"

text \<open>The clients that are about to call \<^verbatim>\<open>notify_all\<close> after having changed what the
  worker's wait predicate reads.\<close>

fun will_notify :: "('a, 'w) cpc \<Rightarrow> bool" where
  "will_notify (In_Add A_Notify) = True"
| "will_notify (In_Stop T_Unlock) = True"
| "will_notify (In_Stop T_Notify) = True"
| "will_notify _ = False"

text \<open>No client is about to notify.\<close>

definition quiet :: "(nat \<Rightarrow> ('a, 'w) cpc) \<Rightarrow> bool" where
  "quiet f \<longleftrightarrow> (\<forall>i. \<not> will_notify (f i))"

lemma quiet_update [simp]:
  "\<not> will_notify (f i) \<Longrightarrow> quiet (f(i := c)) \<longleftrightarrow> \<not> will_notify c \<and> quiet f"
  "will_notify c \<Longrightarrow> \<not> quiet (f(i := c))"
  by (auto simp: quiet_def)

lemma quiet_init [simp]: "quiet (\<lambda>_. C_Idle)"
  by (simp add: quiet_def)

lemma return_to_eq [simp]:
  "return_to c = p \<longleftrightarrow> (c = Exit_path \<and> p = W_ExitUnlock) \<or> (c = Loop_body \<and> p = W_ScopeEnd)"
  by (cases c) auto

lemma entry_simps [simp]:
  "owner_only (entry e) = lifecycle_call e"
  "thread_ok (entry e) th"
  "\<not> holds_mutexThread_c (entry e)"
  "\<not> holds_mutexFunc_c (entry e)"
  "\<not> will_notify (entry e)"
  by (cases e; simp add: entry_def Start_func_def lifecycle_call_def)+

lemma after_Register_simps [simp]:
  "owner_only (after_Register k RVoid) = k"
  "thread_ok (after_Register k v) th"
  "\<not> holds_mutexThread_c (after_Register k v)"
  "\<not> holds_mutexFunc_c (after_Register k v)"
  "\<not> will_notify (after_Register k v)"
  by (simp_all add: after_Register_def)

lemma outside_simps [simp]:
  "outside c \<Longrightarrow> \<not> holds_mutexThread_c c"
  "outside c \<Longrightarrow> \<not> holds_mutexFunc_c c"
  "outside c \<Longrightarrow> \<not> will_notify c"
  "outside c \<Longrightarrow> \<not> owner_only c"
  by (cases c; simp add: outside_def)+

lemma return_to_simps2 [simp]:
  "holds_mutexThread_w (return_to c) \<longleftrightarrow> c = Exit_path"
  "\<not> holds_mutexFunc_w (return_to c)"
  "\<not> has_data (return_to c)"
  "local_live (return_to c) \<longleftrightarrow> c = Loop_body"
  "\<not> func_checked (return_to c)"
  by (cases c; simp)+

lemma thread_ok_not_owner: "\<not> owner_only c \<Longrightarrow> thread_ok c th"
  by (cases "(c, th)" rule: thread_ok.cases) simp_all

section \<open>The thread handle\<close>

definition client_thread_ok :: "('a, 'w) sys \<Rightarrow> nat \<Rightarrow> bool" where
  "client_thread_ok s i \<longleftrightarrow>
     (owner_only (cpc s i) \<longrightarrow> i = 0) \<and> thread_ok (cpc s i) (m_pThread s)"

definition thread_inv :: "('a, 'w) sys \<Rightarrow> bool" where
  "thread_inv s \<longleftrightarrow>
     (m_pThread s = None \<longleftrightarrow> wpc s = W_NotStarted) \<and>
     (m_pThread s = Some Joined \<longrightarrow> wpc s = W_Done) \<and>
     (m_bExit s \<longrightarrow> m_pThread s \<noteq> None) \<and>
     (\<forall>i. client_thread_ok s i)"

lemmas thread_inv_defs [qt_invs] = thread_inv_def client_thread_ok_def

lemma thread_invD: "thread_inv s \<Longrightarrow> client_thread_ok s i"
  by (simp add: thread_inv_def)

lemma reachable_thread_inv: "reachable xq w s \<Longrightarrow> thread_inv s"
proof (induction rule: reachable_invariant)
  case init
  show ?case by (simp add: thread_inv_defs)
next
  case (call s i c)
  then show ?case by (auto simp: thread_inv_defs split: if_splits)
next
  case (client s t ok i)
  from \<open>client_stmt ok i s t\<close> thread_invD [OF \<open>thread_inv s\<close>, of i] \<open>thread_inv s\<close>
  show ?case
    by (induction rule: client_stmt.induct)
       (auto simp: thread_inv_defs intro: thread_ok_not_owner)
next
  case (worker s t)
  from \<open>worker_stmt xq s t\<close> \<open>thread_inv s\<close> show ?case
    by (induction rule: worker_stmt.induct) (auto simp: thread_inv_defs)
next
  case (spurious s)
  then show ?case by (auto simp: thread_inv_defs)
qed

text \<open>What the proofs below need of it, as rules.\<close>

lemma thread_inv_client:
  assumes "reachable xq w s"
  shows "client_thread_ok s i" and "m_pThread s = None \<longleftrightarrow> wpc s = W_NotStarted"
  using reachable_thread_inv [OF assms] by (simp_all add: thread_inv_def)

lemma spawn_not_started:
  assumes "reachable xq w s"
  shows "cpc s i = In_Start S_Spawn \<longrightarrow> wpc s = W_NotStarted"
  using thread_inv_client(1) [OF assms, of i] thread_inv_client(2) [OF assms]
  by (auto simp: client_thread_ok_def)

lemma joinable_not_null:
  assumes "reachable xq w s"
  shows "cpc s i = In_Stop T_Joinable \<longrightarrow> m_pThread s \<noteq> None"
  using thread_inv_client(1) [OF assms, of i] by (auto simp: client_thread_ok_def)

section \<open>Mutual exclusion\<close>

definition mutexThread_excl :: "('a, 'w) sys \<Rightarrow> bool" where
  "mutexThread_excl s \<longleftrightarrow>
     (holds_mutexThread_w (wpc s) \<longrightarrow> m_mutexThread s = Some Worker) \<and>
     (\<forall>i. holds_mutexThread_c (cpc s i) \<longrightarrow> m_mutexThread s = Some (Client i))"

definition mutexFunc_excl :: "('a, 'w) sys \<Rightarrow> bool" where
  "mutexFunc_excl s \<longleftrightarrow>
     (holds_mutexFunc_w (wpc s) \<longrightarrow> m_mutexFunc s = Some Worker) \<and>
     (\<forall>i. holds_mutexFunc_c (cpc s i) \<longrightarrow> m_mutexFunc s = Some (Client i))"

lemmas mutex_excl_defs [qt_invs] = mutexThread_excl_def mutexFunc_excl_def

lemma mutexThread_exclD:
  "mutexThread_excl s \<Longrightarrow> holds_mutexThread_c (cpc s i) \<longrightarrow> m_mutexThread s = Some (Client i)"
  by (simp add: mutexThread_excl_def)

lemma mutexFunc_exclD:
  "mutexFunc_excl s \<Longrightarrow> holds_mutexFunc_c (cpc s i) \<longrightarrow> m_mutexFunc s = Some (Client i)"
  by (simp add: mutexFunc_excl_def)

lemma reachable_mutexThread_excl: "reachable xq w s \<Longrightarrow> mutexThread_excl s"
proof (induction rule: reachable_invariant)
  case init
  show ?case by (simp add: mutexThread_excl_def)
next
  case (call s i c)
  then show ?case by (auto simp: mutexThread_excl_def)
next
  case (client s t ok i)
  from \<open>client_stmt ok i s t\<close> mutexThread_exclD [OF \<open>mutexThread_excl s\<close>, of i]
    \<open>mutexThread_excl s\<close>
  show ?case
    by (induction rule: client_stmt.induct) (auto simp: mutexThread_excl_def)
next
  case (worker s t)
  from \<open>worker_stmt xq s t\<close> \<open>mutexThread_excl s\<close> show ?case
    by (induction rule: worker_stmt.induct) (auto simp: mutexThread_excl_def)
next
  case (spurious s)
  then show ?case by (simp add: mutexThread_excl_def)
qed

lemma reachable_mutexFunc_excl: "reachable xq w s \<Longrightarrow> mutexFunc_excl s"
proof (induction rule: reachable_invariant)
  case init
  show ?case by (simp add: mutexFunc_excl_def)
next
  case (call s i c)
  then show ?case by (auto simp: mutexFunc_excl_def)
next
  case (client s t ok i)
  from \<open>client_stmt ok i s t\<close> mutexFunc_exclD [OF \<open>mutexFunc_excl s\<close>, of i]
    \<open>mutexFunc_excl s\<close>
  show ?case
    by (induction rule: client_stmt.induct) (auto simp: mutexFunc_excl_def)
next
  case (worker s t)
  from \<open>worker_stmt xq s t\<close> \<open>mutexFunc_excl s\<close> show ?case
    by (induction rule: worker_stmt.induct) (auto simp: mutexFunc_excl_def)
next
  case (spurious s)
  then show ?case by (simp add: mutexFunc_excl_def)
qed

section \<open>No mutex is left locked\<close>

definition mutexThread_held :: "('a, 'w) sys \<Rightarrow> bool" where
  "mutexThread_held s \<longleftrightarrow>
     (m_mutexThread s = Some Worker \<longrightarrow> holds_mutexThread_w (wpc s)) \<and>
     (\<forall>i. m_mutexThread s = Some (Client i) \<longrightarrow> holds_mutexThread_c (cpc s i))"

definition mutexFunc_held :: "('a, 'w) sys \<Rightarrow> bool" where
  "mutexFunc_held s \<longleftrightarrow>
     (m_mutexFunc s = Some Worker \<longrightarrow> holds_mutexFunc_w (wpc s)) \<and>
     (\<forall>i. m_mutexFunc s = Some (Client i) \<longrightarrow> holds_mutexFunc_c (cpc s i))"

lemmas mutex_held_defs [qt_invs] = mutexThread_held_def mutexFunc_held_def

lemma reachable_mutexThread_held: "reachable xq w s \<Longrightarrow> mutexThread_held s"
proof (induction rule: reachable_invariant)
  case init
  show ?case by (simp add: mutexThread_held_def)
next
  case (call s i c)
  then show ?case by (auto simp: mutexThread_held_def)
next
  case (client s t ok i)
  from \<open>client_stmt ok i s t\<close> spawn_not_started [OF \<open>reachable xq w s\<close>, of i]
    \<open>mutexThread_held s\<close>
  show ?case
    by (induction rule: client_stmt.induct) (auto simp: mutexThread_held_def)
next
  case (worker s t)
  from \<open>worker_stmt xq s t\<close> \<open>mutexThread_held s\<close> show ?case
    by (induction rule: worker_stmt.induct) (auto simp: mutexThread_held_def)
next
  case (spurious s)
  then show ?case by (simp add: mutexThread_held_def)
qed

lemma reachable_mutexFunc_held: "reachable xq w s \<Longrightarrow> mutexFunc_held s"
proof (induction rule: reachable_invariant)
  case init
  show ?case by (simp add: mutexFunc_held_def)
next
  case (call s i c)
  then show ?case by (auto simp: mutexFunc_held_def)
next
  case (client s t ok i)
  from \<open>client_stmt ok i s t\<close> spawn_not_started [OF \<open>reachable xq w s\<close>, of i]
    \<open>mutexFunc_held s\<close>
  show ?case
    by (induction rule: client_stmt.induct) (auto simp: mutexFunc_held_def)
next
  case (worker s t)
  from \<open>worker_stmt xq s t\<close> \<open>mutexFunc_held s\<close> show ?case
    by (induction rule: worker_stmt.induct) (auto simp: mutexFunc_held_def)
next
  case (spurious s)
  then show ?case by (simp add: mutexFunc_held_def)
qed

text \<open>The worker holds a mutex exactly inside its critical sections.\<close>

lemma mutexThread_worker:
  assumes "reachable xq w s"
  shows "m_mutexThread s = Some Worker \<longleftrightarrow> holds_mutexThread_w (wpc s)"
  using reachable_mutexThread_excl [OF assms] reachable_mutexThread_held [OF assms]
  unfolding mutexThread_excl_def mutexThread_held_def by blast

lemma mutexFunc_worker:
  assumes "reachable xq w s"
  shows "m_mutexFunc s = Some Worker \<longleftrightarrow> holds_mutexFunc_w (wpc s)"
  using reachable_mutexFunc_excl [OF assms] reachable_mutexFunc_held [OF assms]
  unfolding mutexFunc_excl_def mutexFunc_held_def by blast

section \<open>The worker's locals\<close>

definition local_inv :: "qref \<Rightarrow> ('a, 'w) sys \<Rightarrow> bool" where
  "local_inv xq s \<longleftrightarrow>
     (w_data s \<noteq> None \<longleftrightarrow> has_data (wpc s)) \<and>
     (w_queue s \<noteq> [] \<longrightarrow> local_live (wpc s)) \<and>
     (func_checked (wpc s) \<longrightarrow> m_pFunc s \<noteq> None) \<and>
     (\<forall>c. wpc s = W_Call c P_Pop \<longrightarrow> deref (argument xq c) s \<noteq> [])"

lemmas local_inv_defs [qt_invs] = local_inv_def

lemma reachable_local_inv: "reachable xq w s \<Longrightarrow> local_inv xq s"
proof (induction rule: reachable_invariant)
  case init
  show ?case by (simp add: local_inv_def)
next
  case (call s i c)
  then show ?case by (simp add: local_inv_def)
next
  case (client s t ok i)
  from \<open>client_stmt ok i s t\<close> spawn_not_started [OF \<open>reachable xq w s\<close>, of i]
    \<open>local_inv xq s\<close>
  show ?case
    by (induction rule: client_stmt.induct) (auto simp: local_inv_def)
next
  case (worker s t)
  from \<open>worker_stmt xq s t\<close> \<open>local_inv xq s\<close> show ?case
    by (induction rule: worker_stmt.induct) (auto simp: local_inv_def)
next
  case (spurious s)
  then show ?case by (simp add: local_inv_def)
qed

section \<open>The history of the items\<close>

definition history_inv :: "('a, 'w) sys \<Rightarrow> bool" where
  "history_inv s \<longleftrightarrow> pushed s = map fst (consumed s) @ in_flight s"

lemmas history_inv_defs [qt_invs] = history_inv_def in_flight_def

lemma reachable_history_inv: "reachable xq w s \<Longrightarrow> history_inv s"
proof (induction rule: reachable_invariant)
  case init
  show ?case by (simp add: history_inv_defs)
next
  case (call s i c)
  then show ?case by (simp add: history_inv_defs)
next
  case (client s t ok i)
  from \<open>client_stmt ok i s t\<close> \<open>history_inv s\<close> show ?case
    by (induction rule: client_stmt.induct) (simp_all add: history_inv_defs)
next
  case (worker s t)
  from \<open>worker_stmt xq s t\<close> reachable_local_inv [OF \<open>reachable xq w s\<close>] \<open>history_inv s\<close>
  show ?case
    by (induction rule: worker_stmt.induct)
       (auto simp: history_inv_defs local_inv_def comp_def split: option.splits)
next
  case (spurious s)
  then show ?case by (simp add: history_inv_defs)
qed

section \<open>The condition variable\<close>

text \<open>
  Between the test of the predicate (line 123) and the blocking of the worker other threads
  run. What the worker has read stays true until it blocks, because it holds
  \<^verbatim>\<open>m_mutexThread\<close> there and every write of \<^verbatim>\<open>m_queue\<close> and \<^verbatim>\<open>m_bExit\<close> is
  inside a critical section of that mutex: this is the third clause of \<open>cv_inv\<close>, and
  the fourth, that no wake-up is lost, rests on it.
\<close>

lemma wait_block_excl:
  assumes "reachable xq w s"
  shows "wpc s = W_WaitBlock \<longrightarrow> \<not> holds_mutexThread_c (cpc s i)"
  using reachable_mutexThread_excl [OF assms] by (auto simp: mutexThread_excl_def)

definition cv_inv :: "('a, 'w) sys \<Rightarrow> bool" where
  "cv_inv s \<longleftrightarrow>
     m_cv s \<subseteq> {Worker} \<and>
     (Worker \<in> m_cv s \<longrightarrow> wpc s = W_Waiting) \<and>
     (wpc s = W_WaitBlock \<longrightarrow> m_queue s = [] \<and> \<not> m_bExit s) \<and>
     (quiet (cpc s) \<and> Worker \<in> m_cv s \<longrightarrow> m_queue s = [] \<and> \<not> m_bExit s)"

lemmas cv_inv_defs [qt_invs] = cv_inv_def

lemma reachable_cv_inv: "reachable xq w s \<Longrightarrow> cv_inv s"
proof (induction rule: reachable_invariant)
  case init
  show ?case by (simp add: cv_inv_def)
next
  case (call s i c)
  then show ?case by (auto simp: cv_inv_def)
next
  case (client s t ok i)
  from \<open>client_stmt ok i s t\<close> spawn_not_started [OF \<open>reachable xq w s\<close>, of i]
    wait_block_excl [OF \<open>reachable xq w s\<close>, of i] \<open>cv_inv s\<close>
  show ?case
    by (induction rule: client_stmt.induct) (auto simp: cv_inv_def)
next
  case (worker s t)
  from \<open>worker_stmt xq s t\<close> \<open>cv_inv s\<close> show ?case
    by (induction rule: worker_stmt.induct) (auto simp: cv_inv_def)
next
  case (spurious s)
  then show ?case by (auto simp: cv_inv_def)
qed

section \<open>Faults\<close>

text \<open>
  The only fault a reachable state can have is a callback that threw: the null tests of
  lines 82 and 144 and the loop test of line 149 protect the dereferences behind them.
\<close>

definition fault_inv :: "('a, 'w) sys \<Rightarrow> bool" where
  "fault_inv s \<longleftrightarrow> fault s = None \<or> fault s = Some Callback_threw"

lemma reachable_fault_inv: "reachable xq w s \<Longrightarrow> fault_inv s"
proof (induction rule: reachable_invariant)
  case init
  show ?case by (simp add: fault_inv_def)
next
  case (call s i c)
  then show ?case by (simp add: fault_inv_def)
next
  case (client s t ok i)
  from \<open>client_stmt ok i s t\<close> joinable_not_null [OF \<open>reachable xq w s\<close>, of i] \<open>fault_inv s\<close>
  show ?case
    by (induction rule: client_stmt.induct) (simp_all add: fault_inv_def)
next
  case (worker s t)
  from \<open>worker_stmt xq s t\<close> reachable_local_inv [OF \<open>reachable xq w s\<close>] \<open>fault_inv s\<close>
  show ?case
    by (induction rule: worker_stmt.induct) (auto simp: fault_inv_def local_inv_def)
next
  case (spurious s)
  then show ?case by (simp add: fault_inv_def)
qed

section \<open>The exit flag\<close>

text \<open>
  Where the worker is when it has seen \<^verbatim>\<open>m_bExit\<close> set: on the exit path and behind
  the loop. Where it is inside the drain loop of the exit path.
\<close>

fun exiting :: "wpc \<Rightarrow> bool" where
  "exiting (W_Call c p) = (c = Exit_path)"
| "exiting W_ExitUnlock = True"
| "exiting W_Done = True"
| "exiting _ = False"

fun draining :: "wpc \<Rightarrow> bool" where
  "draining (W_Call c p) = (c = Exit_path \<and> p \<noteq> P_CheckFunc \<and> p \<noteq> P_LoopTest)"
| "draining _ = False"

lemma return_to_simps3 [simp]:
  "exiting (return_to c) \<longleftrightarrow> c = Exit_path"
  "\<not> draining (return_to c)"
  by (cases c; simp)+

definition exit_inv :: "qref \<Rightarrow> ('a, 'w) sys \<Rightarrow> bool" where
  "exit_inv xq s \<longleftrightarrow>
     (exiting (wpc s) \<longrightarrow> m_bExit s) \<and>
     (xq = Local_queue \<longrightarrow> \<not> draining (wpc s))"

lemmas exit_inv_defs [qt_invs] = exit_inv_def

lemma reachable_exit_inv: "reachable xq w s \<Longrightarrow> exit_inv xq s"
proof (induction rule: reachable_invariant)
  case init
  show ?case by (simp add: exit_inv_def)
next
  case (call s i c)
  then show ?case by (simp add: exit_inv_def)
next
  case (client s t ok i)
  from \<open>client_stmt ok i s t\<close> \<open>exit_inv xq s\<close> show ?case
    by (induction rule: client_stmt.induct) (auto simp: exit_inv_def)
next
  case (worker s t)
  from \<open>worker_stmt xq s t\<close> reachable_local_inv [OF \<open>reachable xq w s\<close>] \<open>exit_inv xq s\<close>
  show ?case
    by (induction rule: worker_stmt.induct) (auto simp: exit_inv_def local_inv_def)
next
  case (spurious s)
  then show ?case by (simp add: exit_inv_def)
qed

section \<open>What one step does to the history\<close>

text \<open>
  A step pushes one item, or disposes of some items, or leaves the history alone; and it
  never takes back what the flags and pointers of the object say.
\<close>

definition history_step :: "('a, 'w) sys \<Rightarrow> ('a, 'w) sys \<Rightarrow> bool" where
  "history_step s t \<longleftrightarrow>
     (\<exists>x. pushed t = pushed s @ [x] \<and> consumed t = consumed s) \<or>
     (\<exists>es. pushed t = pushed s \<and> consumed t = consumed s @ es)"

definition monotone_step :: "('a, 'w) sys \<Rightarrow> ('a, 'w) sys \<Rightarrow> bool" where
  "monotone_step s t \<longleftrightarrow>
     (m_bExit s \<longrightarrow> m_bExit t) \<and> (m_pThread s \<noteq> None \<longrightarrow> m_pThread t \<noteq> None) \<and>
     (m_pFunc s \<noteq> None \<longrightarrow> m_pFunc t \<noteq> None)"

lemma history_step_refl [simp]:
  "pushed t = pushed s \<Longrightarrow> consumed t = consumed s \<Longrightarrow> history_step s t"
  by (simp add: history_step_def)

lemma qt_step_history: "qt_step xq s t \<Longrightarrow> history_step s t"
proof (induction rule: qt_step_cases)
  case (call i c)
  then show ?case by simp
next
  case (client ok i)
  from \<open>client_stmt ok i s t\<close> show ?case
    by (induction rule: client_stmt.induct) (simp_all add: history_step_def)
next
  case worker
  from \<open>worker_stmt xq s t\<close> show ?case
    by (induction rule: worker_stmt.induct) (simp_all add: history_step_def)
next
  case spurious
  then show ?case by simp
qed

lemma qt_step_monotone: "qt_step xq s t \<Longrightarrow> monotone_step s t"
proof (induction rule: qt_step_cases)
  case (call i c)
  then show ?case by (simp add: monotone_step_def)
next
  case (client ok i)
  from \<open>client_stmt ok i s t\<close> show ?case
    by (induction rule: client_stmt.induct) (simp_all add: monotone_step_def)
next
  case worker
  from \<open>worker_stmt xq s t\<close> show ?case
    by (induction rule: worker_stmt.induct) (simp_all add: monotone_step_def)
next
  case spurious
  then show ?case by (simp add: monotone_step_def)
qed

end
