(* ===== verification/QT_Scenarios.thy ===== *)
theory QT_Scenarios
  imports QT_System
begin

text \<open>
  Client programs and schedules for \<^verbatim>\<open>src/QueueThread.h\<close>, and what the methods do
  when no other thread runs in between.

  \<^item> \<open>call_alone\<close> runs one method call of a client to its return with no other thread
    interleaved; the theorems of the section on the methods called alone give the result
    of each public method on every branch.
  \<^item> \<open>do_register\<close>, \<open>do_add\<close>, \<open>do_start\<close>, \<open>stop_signal\<close> are the complete calls
    as schedules, \<open>work n\<close> is \<open>n\<close> statements of the worker; the named schedules
    combine them, and the lemmas on them give the reachable states to which the later
    theories apply their theorems.
\<close>

section \<open>A method called alone\<close>

text \<open>
  \<open>finish xq i n s\<close> runs client \<open>i\<close> until it is outside the object, for at most
  \<open>n\<close> statements; the result is \<open>None\<close> if a statement is blocked or the fuel runs out.
  The longest method, \<^verbatim>\<open>Stop\<close>, has seven statements, so seven is enough fuel for every
  method that is not blocked.
\<close>

primrec finish :: "qref \<Rightarrow> nat \<Rightarrow> nat \<Rightarrow> ('a, 'w) sys \<Rightarrow> ('a, 'w) sys option" where
  "finish xq i 0 s = (if outside (cpc s i) then Some s else None)"
| "finish xq i (Suc n) s = (if outside (cpc s i) then Some s else
     case fire xq (ClientStep i) s of None \<Rightarrow> None | Some t \<Rightarrow> finish xq i n t)"

definition call_alone ::
  "qref \<Rightarrow> nat \<Rightarrow> ('a, 'w) call \<Rightarrow> ('a, 'w) sys \<Rightarrow> ('a, 'w) sys option"
where
  "call_alone xq i c s =
     (case fire xq (Invoke i c) s of None \<Rightarrow> None | Some t \<Rightarrow> finish xq i 7 t)"

text \<open>The state in which client \<open>i\<close> has returned \<open>v\<close>.\<close>

definition returned :: "nat \<Rightarrow> retval \<Rightarrow> ('a, 'w) sys \<Rightarrow> ('a, 'w) sys" where
  "returned i v s = s\<lparr>cpc := (cpc s)(i := C_Ret v)\<rparr>"

lemmas alone_ops = qt_ops guard_def call_alone_def returned_def eval_nat_numeral

lemma finish_outside [simp]: "outside (cpc s i) \<Longrightarrow> finish xq i n s = Some s"
  by (cases n) simp_all

lemma mutexThread_reset [simp]:
  "m_mutexThread s = None \<Longrightarrow> s\<lparr>m_mutexThread := None\<rparr> = s"
  "m_mutexThread s = None \<Longrightarrow> s\<lparr>m_mutexThread := None, cpc := f\<rparr> = s\<lparr>cpc := f\<rparr>"
  by simp_all

lemma mutexFunc_reset [simp]:
  "m_mutexFunc s = None \<Longrightarrow> s\<lparr>m_mutexFunc := None\<rparr> = s"
  "m_mutexFunc s = None \<Longrightarrow> s\<lparr>m_mutexFunc := None, cpc := f\<rparr> = s\<lparr>cpc := f\<rparr>"
  by simp_all

section \<open>Clients and schedules\<close>

text \<open>
  The callbacks of the scenarios. The world is the list the callbacks append to;
  \<open>tag_cb k\<close> appends the item with the tag \<open>k\<close>, so that the list shows which callback
  received which item. \<open>throwing_cb\<close> throws on every item.
\<close>

type_synonym demo = "(int, (nat \<times> int) list) sys"
type_synonym demo_event = "(int, (nat \<times> int) list) event"

definition tag_cb :: "nat \<Rightarrow> (int, (nat \<times> int) list) callback" where
  "tag_cb k x w = Some (w @ [(k, x)])"

definition throwing_cb :: "(int, (nat \<times> int) list) callback" where
  "throwing_cb x w = None"

text \<open>
  A complete call as a schedule: the call and the statements of the method, with nothing
  in between. \<open>stop_signal\<close> is \<^verbatim>\<open>Stop\<close> up to the \<^verbatim>\<open>join\<close> of line 93, which
  waits for the worker; the \<open>ClientStep 0\<close> that follows it in a schedule is the
  \<^verbatim>\<open>join\<close> returning.
\<close>

definition do_register :: "nat \<Rightarrow> ('a, 'w) callback \<Rightarrow> ('a, 'w) event list" where
  "do_register i f = [Invoke i (Call_Register f), ClientStep i, ClientStep i, ClientStep i]"

definition do_add :: "nat \<Rightarrow> 'a \<Rightarrow> ('a, 'w) event list" where
  "do_add i x = [Invoke i (Call_Add x), ClientStep i, ClientStep i, ClientStep i, ClientStep i]"

definition do_start :: "('a, 'w) event list" where
  "do_start = [Invoke 0 Call_Start, ClientStep 0, ClientStep 0, ClientStep 0]"

definition stop_signal :: "('a, 'w) event list" where
  "stop_signal = [Invoke 0 Call_Stop, ClientStep 0, ClientStep 0, ClientStep 0, ClientStep 0,
     ClientStep 0, ClientStep 0]"

primrec work :: "nat \<Rightarrow> ('a, 'w) event list" where
  "work 0 = []"
| "work (Suc n) = WorkerStep # work n"

text \<open>
  The schedules. \<open>warm_up\<close> is the first scenario of the specification up to
  \<^verbatim>\<open>start()\<close>: a callback is registered, two producers enqueue 1, 2 and 3, the owner
  starts the worker.
  \<^item> \<open>graceful\<close>: the worker processes the batch and waits; then the owner stops it.
  \<^item> \<open>stop_early\<close>: the owner has called \<^verbatim>\<open>Stop\<close> before the worker has run its
    first statement and is at the \<^verbatim>\<open>join\<close>.
  \<^item> \<open>busy\<close>: the worker is inside the callback for item 2, item 3 is in its local queue,
    item 4 has been enqueued meanwhile, and client 2 has called
    \<^verbatim>\<open>RegisterQueueProcessFunc\<close>.
  \<^item> \<open>contended\<close>: as \<open>busy\<close>, with client 1 inside the critical section of
    \<^verbatim>\<open>AddQueueData\<close>.
  \<^item> \<open>second_scenario\<close>: the second scenario of the specification up to
    \<^verbatim>\<open>stop()\<close>: \<^verbatim>\<open>Start\<close>, item 10 is enqueued and taken by the worker, a
    callback is registered, item 20 is enqueued.
  \<^item> \<open>woken_for_exit\<close>: the worker waits, item 1 is enqueued, and the owner has called
    \<^verbatim>\<open>Stop\<close> before the worker has run again.
  \<^item> \<open>thrown\<close>: the callback throws on the first item.
  \<^item> \<open>unregistered\<close>: two items are enqueued and the worker is started while no callback
    is registered.
  \<^item> \<open>unnotified\<close>: the worker waits, a producer has pushed an item and not yet notified.
  \<^item> \<open>batch\<close>: the worker has swapped out the batch 1, 2, 3 and is at the loop test of
    \<^verbatim>\<open>ProcessQueueData\<close>; \<open>thrown_before\<close>: the same with one item and a callback
    that throws.
  \<^item> \<open>joining\<close>: the owner is at the \<^verbatim>\<open>join\<close> of \<^verbatim>\<open>Stop\<close> and the worker, woken
    by the notification, has not run yet.
  \<^item> \<open>idling\<close>: the worker has processed the batch and is blocked in \<^verbatim>\<open>m_cv.wait\<close>.
  \<^item> \<open>joined\<close>: after \<open>joining\<close>, the worker has left the thread function and the
    owner is still at the \<^verbatim>\<open>join\<close>.
  \<^item> \<open>restart\<close>: after \<open>graceful\<close>, item 7 is enqueued and the owner calls
    \<^verbatim>\<open>Start\<close> again.
  \<^item> \<open>spawning\<close>: the owner is inside \<^verbatim>\<open>Start\<close>, behind the thread creation of
    line 63.
  \<^item> \<open>stopping\<close>: the owner is inside \<^verbatim>\<open>Stop\<close>, about to set \<^verbatim>\<open>m_bExit\<close>, while
    the worker waits.
\<close>

definition warm_up :: "demo_event list" where
  "warm_up = do_register 0 (tag_cb 0) @ do_add 1 1 @ do_add 1 2 @ do_add 2 3 @ do_start"

definition graceful :: "demo_event list" where
  "graceful = warm_up @ work 28 @ stop_signal @ work 7 @ [ClientStep 0]"

definition stop_early :: "demo_event list" where
  "stop_early = warm_up @ stop_signal"

definition busy :: "demo_event list" where
  "busy = warm_up @ work 15 @ do_add 1 4 @ [Invoke 2 (Call_Register (tag_cb 1))]"

definition contended :: "demo_event list" where
  "contended = busy @ [Invoke 1 (Call_Add 5), ClientStep 1]"

definition second_scenario :: "demo_event list" where
  "second_scenario = do_start @ work 4 @ do_add 1 10 @ work 8 @ do_register 0 (tag_cb 1)
     @ do_add 1 20"

definition woken_for_exit :: "demo_event list" where
  "woken_for_exit = do_register 0 (tag_cb 0) @ do_start @ work 4 @ do_add 1 1 @ stop_signal"

definition thrown :: "demo_event list" where
  "thrown = do_register 0 throwing_cb @ do_add 1 1 @ do_start @ work 11"

definition unregistered :: "demo_event list" where
  "unregistered = do_add 1 1 @ do_add 1 2 @ do_start"

definition unnotified :: "demo_event list" where
  "unnotified = do_start @ work 4 @ [Invoke 1 (Call_Add 1), ClientStep 1, ClientStep 1]"

definition batch :: "demo_event list" where
  "batch = warm_up @ work 7"

definition thrown_before :: "demo_event list" where
  "thrown_before = do_register 0 throwing_cb @ do_add 1 1 @ do_start @ work 7"

definition joining :: "demo_event list" where
  "joining = warm_up @ work 28 @ stop_signal"

definition idling :: "demo_event list" where
  "idling = warm_up @ work 28"

definition joined :: "demo_event list" where
  "joined = joining @ work 7"

definition restart :: "demo_event list" where
  "restart = do_add 1 7 @ [Invoke 0 Call_Start, ClientStep 0]"

definition spawning :: "demo_event list" where
  "spawning = [Invoke 0 Call_Start, ClientStep 0, ClientStep 0]"

definition stopping :: "demo_event list" where
  "stopping = warm_up @ work 28 @ [Invoke 0 Call_Stop, ClientStep 0, ClientStep 0]"

lemmas schedule_defs = do_register_def do_add_def do_start_def stop_signal_def warm_up_def
  tag_cb_def throwing_cb_def

lemmas eval_ops = qt_ops guard_def init_sys_defs schedule_defs eval_nat_numeral
  delivered_def dropped_def in_flight_def

lemma scenario_reachable: "run xq es (init_sys w) = Some s \<Longrightarrow> reachable xq w s"
  by (rule run_reachable [OF reachable.init])

section \<open>What the schedules lead to\<close>

lemma graceful_state:
  "\<exists>s. run xq graceful (init_sys []) = Some s \<and> cpc s 0 = C_Ret RVoid \<and> wpc s = W_Done
     \<and> m_pThread s = Some Joined \<and> m_bExit s \<and> m_queue s = [] \<and> fault s = None
     \<and> m_mutexThread s = None \<and> m_pFunc s = Some (tag_cb 0)
     \<and> world s = [(0, 1), (0, 2), (0, 3)] \<and> delivered s = [1, 2, 3] \<and> dropped s = []"
  by (cases xq) (simp_all add: graceful_def eval_ops)

lemma graceful_idle:
  "\<exists>s. run xq graceful (init_sys []) = Some s \<and> (\<forall>i. outside (cpc s i)) \<and> wpc s = W_Done"
  by (cases xq) (simp_all add: graceful_def eval_ops)

lemma restart_state:
  "\<exists>s t. run xq graceful (init_sys []) = Some s \<and> wpc s = W_Done \<and> m_bExit s
     \<and> run xq restart s = Some t
     \<and> cpc t 0 = C_Ret (RBool True) \<and> m_queue t = [7] \<and> wpc t = W_Done
     \<and> world t = [(0, 1), (0, 2), (0, 3)]"
  by (cases xq) (simp_all add: graceful_def restart_def eval_ops)

lemma stopped_state:
  "\<exists>s t. run xq graceful (init_sys []) = Some s \<and> m_bExit s
     \<and> fire xq (Invoke 1 (Call_Add 7)) s = Some t"
  by (cases xq) (simp_all add: graceful_def eval_ops)

lemma spawning_state:
  "\<exists>s :: demo. run xq spawning (init_sys []) = Some s \<and> cpc s 0 = In_Start S_NullCheck
     \<and> m_pThread s = Some Joinable \<and> wpc s = W_LoopTest"
  by (simp add: spawning_def eval_ops)

lemma stopping_state:
  "\<exists>s t. run xq stopping (init_sys []) = Some s \<and> fire xq (ClientStep 0) s = Some t
     \<and> m_pThread s = Some Joinable \<and> \<not> m_bExit s
     \<and> m_pThread t = Some Joinable \<and> m_bExit t"
  by (simp add: stopping_def eval_ops)

lemma busy_state:
  "\<exists>s. run xq busy (init_sys []) = Some s \<and> wpc s = W_Call Loop_body P_Call
     \<and> pushed s = [1, 2, 3, 4] \<and> delivered s = [1] \<and> dropped s = [] \<and> w_data s = Some 2
     \<and> w_queue s = [3] \<and> m_queue s = [4] \<and> world s = [(0, 1)] \<and> fault s = None
     \<and> m_mutexFunc s = Some Worker \<and> m_mutexThread s = None
     \<and> cpc s 1 = C_Ret RVoid \<and> cpc s 2 = In_Register (R_Lock (tag_cb 1)) False"
  by (simp add: busy_def eval_ops)

lemma joining_state:
  "\<exists>s. run xq joining (init_sys []) = Some s \<and> cpc s 0 = In_Stop T_Join
     \<and> wpc s = W_Waiting \<and> Worker \<notin> m_cv s \<and> m_bExit s \<and> fault s = None"
  by (simp add: joining_def eval_ops)

lemma batch_state:
  "\<exists>s. run xq batch (init_sys []) = Some s \<and> wpc s = W_Call Loop_body P_LoopTest
     \<and> w_queue s = [1, 2, 3] \<and> m_pFunc s = Some (tag_cb 0) \<and> m_mutexFunc s = None
     \<and> w_data s = None \<and> fault s = None \<and> world s = [] \<and> cpc s 2 = C_Ret RVoid"
  by (simp add: batch_def eval_ops)

lemma idling_state:
  "\<exists>s. run xq idling (init_sys []) = Some s \<and> (\<forall>i. outside (cpc s i)) \<and> wpc s = W_Waiting
     \<and> Worker \<in> m_cv s \<and> m_queue s = [] \<and> \<not> m_bExit s \<and> m_mutexThread s = None
     \<and> fault s = None \<and> delivered s = [1, 2, 3]"
  by (simp add: idling_def eval_ops)

lemma joined_state:
  "\<exists>s. run xq joined (init_sys []) = Some s \<and> cpc s 0 = In_Stop T_Join \<and> wpc s = W_Done
     \<and> m_pThread s = Some Joinable \<and> m_bExit s \<and> fault s = None"
  by (cases xq) (simp_all add: joined_def joining_def eval_ops)

lemma batch_idle:
  "\<exists>s. run xq batch (init_sys []) = Some s \<and> (\<forall>i. outside (cpc s i))
     \<and> wpc s = W_Call Loop_body P_LoopTest \<and> w_queue s = [1, 2, 3] \<and> m_queue s = []
     \<and> m_pFunc s = Some (tag_cb 0) \<and> fault s = None \<and> \<not> m_bExit s \<and> pushed s = [1, 2, 3]"
  by (simp add: batch_def eval_ops)

lemma thrown_before_state:
  "\<exists>s. run xq thrown_before (init_sys []) = Some s \<and> wpc s = W_Call Loop_body P_LoopTest
     \<and> w_queue s = [1] \<and> m_pFunc s = Some throwing_cb \<and> m_mutexFunc s = None
     \<and> w_data s = None \<and> fault s = None"
  by (simp add: thrown_before_def eval_ops)

lemma calling_state:
  "\<exists>s t. run xq busy (init_sys []) = Some s \<and> fire xq WorkerStep s = Some t
     \<and> in_flight s = [2, 3, 4] \<and> in_flight t = [3, 4] \<and> map fst (consumed t) = [1, 2]
     \<and> world t = [(0, 1), (0, 2)]"
  by (simp add: busy_def eval_ops)

lemma contended_state:
  "\<exists>s. run xq contended (init_sys []) = Some s \<and> wpc s = W_Call Loop_body P_Call
     \<and> cpc s 1 = In_Add (A_Push 5) \<and> m_mutexThread s = Some (Client 1)"
  by (simp add: contended_def busy_def eval_ops)

lemma unnotified_state:
  "\<exists>s. run xq unnotified (init_sys []) = Some s \<and> wpc s = W_Waiting \<and> Worker \<in> m_cv s
     \<and> m_queue s = [1] \<and> cpc s 1 = In_Add A_Notify \<and> fault s = None"
  by (simp add: unnotified_def eval_ops)

lemma thrown_state:
  "\<exists>s. run xq thrown (init_sys []) = Some s \<and> fault s = Some Callback_threw
     \<and> wpc s = W_Call Loop_body P_Call \<and> world s = [] \<and> consumed s = []"
  by (simp add: thrown_def eval_ops)

lemma warm_up_state:
  "\<exists>s. run xq warm_up (init_sys []) = Some s \<and> wpc s = W_LoopTest \<and> \<not> m_bExit s
     \<and> m_queue s = [1, 2, 3] \<and> m_pFunc s = Some (tag_cb 0) \<and> m_mutexThread s = None
     \<and> m_mutexFunc s = None \<and> fault s = None \<and> world s = [] \<and> consumed s = []
     \<and> pushed s = [1, 2, 3] \<and> cpc s 0 = C_Ret (RBool True)"
  by (simp add: eval_ops)

lemma stop_early_state:
  "\<exists>s t. run xq stop_early (init_sys []) = Some s \<and> m_bExit s \<and> wpc s = W_LoopTest
     \<and> m_queue s = [1, 2, 3] \<and> consumed s = [] \<and> cpc s 0 = In_Stop T_Join
     \<and> run xq (work 1 @ [ClientStep 0] @ do_add 1 4) s = Some t \<and> cpc t 0 = C_Ret RVoid
     \<and> m_pThread t = Some Joined \<and> world t = []"
  by (simp add: stop_early_def eval_ops)

lemma second_scenario_state:
  "\<exists>s. run xq second_scenario (init_sys []) = Some s \<and> wpc s = W_LoopTest \<and> \<not> m_bExit s
     \<and> m_queue s = [20] \<and> m_pFunc s = Some (tag_cb 1) \<and> m_mutexThread s = None
     \<and> fault s = None \<and> world s = [] \<and> dropped s = [10] \<and> delivered s = []
     \<and> cpc s 0 = C_Ret RVoid"
  by (simp add: second_scenario_def eval_ops)

lemma woken_for_exit_state:
  "\<exists>s. run xq woken_for_exit (init_sys []) = Some s \<and> wpc s = W_Waiting \<and> Worker \<notin> m_cv s
     \<and> m_bExit s \<and> m_queue s = [1] \<and> m_pFunc s = Some (tag_cb 0) \<and> m_mutexThread s = None
     \<and> m_mutexFunc s = None \<and> fault s = None \<and> world s = [] \<and> consumed s = []"
  by (simp add: woken_for_exit_def eval_ops)

lemma woken_for_exit_clients:
  "\<exists>s. run xq woken_for_exit (init_sys []) = Some s \<and> wpc s = W_Waiting \<and> Worker \<notin> m_cv s
     \<and> m_bExit s \<and> m_queue s = [1] \<and> w_queue s = [] \<and> m_pFunc s = Some (tag_cb 0)
     \<and> fault s = None \<and> cpc s 0 = In_Stop T_Join \<and> (\<forall>i. i \<noteq> 0 \<longrightarrow> outside (cpc s i))"
  by (simp add: woken_for_exit_def eval_ops)

lemma unregistered_state:
  "\<exists>s. run xq unregistered (init_sys []) = Some s \<and> wpc s = W_LoopTest \<and> \<not> m_bExit s
     \<and> m_queue s = [1, 2] \<and> m_pFunc s = None \<and> m_mutexThread s = None \<and> fault s = None
     \<and> world s = [] \<and> consumed s = []"
  by (simp add: unregistered_def eval_ops)

section \<open>The methods, called alone\<close>

text \<open>
  C34. \<^verbatim>\<open>AddQueueData\<close> called alone (lines 97 to 103): if \<^verbatim>\<open>m_mutexThread\<close> is
  free the call returns, the item is at the back of \<^verbatim>\<open>m_queue\<close>, every waiter has been
  notified and the mutex is free again; if the mutex is held the call blocks.
\<close>

theorem AddQueueData_alone:
  assumes "fault s = None" and "outside (cpc s i)"
  shows "call_alone xq i (Call_Add x) s = (if m_mutexThread s = None
    then Some (returned i RVoid
      (s\<lparr>m_cv := {}, m_queue := m_queue s @ [x], pushed := pushed s @ [x]\<rparr>))
    else None)"
  using assms by (simp add: alone_ops)

theorem AddQueueData_alone_witness:
  "call_alone Member_queue 1 (Call_Add 5) (init_sys [] :: demo) =
     Some (returned 1 RVoid ((init_sys [])\<lparr>m_cv := {}, m_queue := [5], pushed := [5]\<rparr>))"
  using AddQueueData_alone [of "init_sys [] :: demo" 1 Member_queue 5]
  by (simp add: outside_def)

text \<open>
  C35. \<^verbatim>\<open>RegisterQueueProcessFunc\<close> called alone (lines 50 to 55): if
  \<^verbatim>\<open>m_mutexFunc\<close> is free the call returns and \<^verbatim>\<open>m_pFunc\<close> points to the new
  callback, nothing else has changed; if the mutex is held the call blocks.
\<close>

theorem RegisterQueueProcessFunc_alone:
  assumes "fault s = None" and "outside (cpc s i)"
  shows "call_alone xq i (Call_Register f) s = (if m_mutexFunc s = None
    then Some (returned i RVoid (s\<lparr>m_pFunc := Some f\<rparr>)) else None)"
  using assms by (simp add: alone_ops)

theorem RegisterQueueProcessFunc_alone_witness:
  "call_alone Member_queue 2 (Call_Register (tag_cb 1)) (init_sys [] :: demo) =
     Some (returned 2 RVoid ((init_sys [])\<lparr>m_pFunc := Some (tag_cb 1)\<rparr>))"
  using RegisterQueueProcessFunc_alone [of "init_sys [] :: demo" 2 Member_queue "tag_cb 1"]
  by (simp add: outside_def)

text \<open>
  C33. \<^verbatim>\<open>Start\<close> called alone by the owner (lines 57 to 70): if there is no thread
  object, one is created, the worker is at the head of \<^verbatim>\<open>QueueProcessThread\<close> and the
  call returns true; if there is one, the call returns true and changes nothing.
\<close>

theorem Start_alone:
  assumes "fault s = None" and "outside (cpc s 0)"
  shows "call_alone xq 0 Call_Start s = Some (returned 0 (RBool True)
    (if m_pThread s = None then s\<lparr>m_pThread := Some Joinable, wpc := W_LoopTest\<rparr> else s))"
  using assms by (simp add: alone_ops)

theorem Start_alone_witness:
  "call_alone Member_queue 0 Call_Start (init_sys [] :: demo) =
     Some (returned 0 (RBool True) ((init_sys [])\<lparr>m_pThread := Some Joinable, wpc := W_LoopTest\<rparr>))"
  using Start_alone [of "init_sys [] :: demo" Member_queue] by (simp add: outside_def)

text \<open>
  C36. \<^verbatim>\<open>Start(func)\<close> called alone by the owner (lines 72 to 77) is
  \<^verbatim>\<open>RegisterQueueProcessFunc\<close> followed by \<^verbatim>\<open>Start\<close>: if \<^verbatim>\<open>m_mutexFunc\<close> is free
  the callback is installed, the worker is created unless a thread object exists, and the
  call returns true.
\<close>

theorem StartFunc_alone:
  assumes "fault s = None" and "outside (cpc s 0)" and "m_mutexFunc s = None"
  shows "call_alone xq 0 (Call_StartFunc f) s = Some (returned 0 (RBool True)
    (if m_pThread s = None
     then s\<lparr>m_pThread := Some Joinable, m_pFunc := Some f, wpc := W_LoopTest\<rparr>
     else s\<lparr>m_pFunc := Some f\<rparr>))"
  using assms by (simp add: alone_ops)

theorem StartFunc_alone_witness:
  "call_alone Member_queue 0 (Call_StartFunc (tag_cb 0)) (init_sys [] :: demo) =
     Some (returned 0 (RBool True)
       ((init_sys [])\<lparr>m_pThread := Some Joinable, m_pFunc := Some (tag_cb 0), wpc := W_LoopTest\<rparr>))"
  using StartFunc_alone [of "init_sys [] :: demo" Member_queue "tag_cb 0"]
  by (simp add: outside_def)

text \<open>
  C32. \<^verbatim>\<open>Stop\<close> called alone by the owner (lines 79 to 95): without a thread object it
  returns at line 83 and changes nothing; otherwise it needs \<^verbatim>\<open>m_mutexThread\<close>, sets
  \<^verbatim>\<open>m_bExit\<close>, notifies, and then returns at once if the thread has been joined before,
  joins it if the thread function has returned, and blocks in \<^verbatim>\<open>join\<close> if it has not.
\<close>

theorem Stop_alone:
  assumes "fault s = None" and "outside (cpc s 0)"
  shows "call_alone xq 0 Call_Stop s = (case m_pThread s of
      None \<Rightarrow> Some (returned 0 RVoid s)
    | Some th \<Rightarrow> if m_mutexThread s \<noteq> None then None else (case th of
        Joined \<Rightarrow> Some (returned 0 RVoid (s\<lparr>m_cv := {}, m_bExit := True\<rparr>))
      | Joinable \<Rightarrow> if wpc s = W_Done
          then Some (returned 0 RVoid (s\<lparr>m_pThread := Some Joined, m_cv := {}, m_bExit := True\<rparr>))
          else None))"
proof (cases "m_pThread s")
  case None
  with assms show ?thesis by (simp add: alone_ops)
next
  case (Some th)
  with assms show ?thesis
    by (cases th; cases "wpc s = W_Done"; cases "m_mutexThread s = None")
       (simp_all add: alone_ops)
qed

theorem Stop_alone_witness:
  "\<exists>s :: demo. run Member_queue graceful (init_sys []) = Some s \<and>
     call_alone Member_queue 0 Call_Stop s = Some (returned 0 RVoid (s\<lparr>m_cv := {}, m_bExit := True\<rparr>))"
proof -
  from graceful_state [of Member_queue] obtain s
    where r: "run Member_queue graceful (init_sys []) = Some s"
      and p: "m_pThread s = Some Joined" "cpc s 0 = C_Ret RVoid" "fault s = None"
        "m_mutexThread s = None"
    by blast
  from p(2) have "outside (cpc s 0)" by (simp add: outside_def)
  from Stop_alone [OF p(3) this, of Member_queue] p r
  have "run Member_queue graceful (init_sys []) = Some s \<and>
     call_alone Member_queue 0 Call_Stop s = Some (returned 0 RVoid (s\<lparr>m_cv := {}, m_bExit := True\<rparr>))"
    by simp
  then show ?thesis ..
qed

section \<open>A call that throws\<close>

text \<open>
  C29. A call whose resource is refused leaves the object as it was. If the allocation of
  line 54, the thread creation of line 63 or the push of line 101 throws, in a call of
  \<^verbatim>\<open>RegisterQueueProcessFunc\<close>, \<^verbatim>\<open>Start\<close>, \<^verbatim>\<open>Start(func)\<close> or
  \<^verbatim>\<open>AddQueueData\<close> that had found its mutex free, the exception leaves the method
  and the state is the one before the call: the lock guard has released the mutex, the
  queue, the callback and the thread handle are unchanged, no waiter was notified, and
  \<^verbatim>\<open>Start(func)\<close> has not gone on to \<^verbatim>\<open>Start()\<close>.
\<close>

theorem throwing_call_unwinds:
  assumes "fault s = None" and "outside (cpc s i)"
    and "case c of Call_Add x \<Rightarrow> m_mutexThread s = None
         | Call_Register f \<Rightarrow> m_mutexFunc s = None
         | Call_StartFunc f \<Rightarrow> i = 0 \<and> m_mutexFunc s = None
         | Call_Start \<Rightarrow> i = 0 \<and> m_pThread s = None
         | _ \<Rightarrow> False"
  shows "run xq [Invoke i c, ClientStep i, Throws i] s = Some (returned i RThrow s)"
  using assms by (cases c) (simp_all add: alone_ops)

theorem throwing_call_unwinds_witness:
  "\<exists>s :: demo. run Member_queue busy (init_sys []) = Some s \<and> m_queue s = [4]
     \<and> run Member_queue [Invoke 1 (Call_Add 5), ClientStep 1, Throws 1] s
         = Some (returned 1 RThrow s)"
proof -
  from busy_state [of Member_queue] obtain s
    where r: "run Member_queue busy (init_sys []) = Some s"
      and p: "fault s = None" "m_mutexThread s = None" "m_queue s = [4]"
        "cpc s 1 = C_Ret RVoid"
    by blast
  from p have o: "outside (cpc s 1)" by (simp add: outside_def)
  from throwing_call_unwinds [OF p(1) o, of "Call_Add 5" Member_queue] p r
  have "run Member_queue busy (init_sys []) = Some s \<and> m_queue s = [4]
     \<and> run Member_queue [Invoke 1 (Call_Add 5), ClientStep 1, Throws 1] s
         = Some (returned 1 RThrow s)"
    by simp
  then show ?thesis ..
qed

end
