(* ===== verification/QT_Safety.thy ===== *)
theory QT_Safety
  imports QT_Invariants QT_Scenarios
begin

text \<open>
  The safety properties of \<^verbatim>\<open>QueueThread<T>\<close> that hold in every reachable state, for
  every schedule, every number of producers, every callback and both readings of line 128:
  the history of the items (nothing is duplicated, reordered or invented), mutual exclusion
  on the two mutexes, the absence of undefined behaviour, and the wake-ups of the
  condition variable. Each theorem follows from the invariants of \<open>QT_Invariants\<close>; each
  is applied to a state of a schedule of \<open>QT_Scenarios\<close> in which its hypotheses hold.
\<close>

section \<open>The history of the items\<close>

text \<open>
  C1. Conservation of the items, in order. In every reachable state the sequence of the
  items pushed by \<^verbatim>\<open>AddQueueData\<close> is the sequence of the items the worker has disposed
  of (passed to a callback, or dropped with a batch) followed by the item the worker holds,
  its local queue and \<^verbatim>\<open>m_queue\<close>: no item is lost from the object, duplicated,
  invented or reordered by the swap of line 134 and the drain loop of lines 149 to 156.
\<close>

theorem fifo_conservation:
  assumes "reachable xq w s"
  shows "pushed s = map fst (consumed s) @ in_flight s"
proof -
  from assms have "history_inv s" by (rule reachable_history_inv)
  then show ?thesis by (simp add: history_inv_def)
qed

theorem fifo_conservation_witness:
  "\<exists>s :: demo. reachable Member_queue [] s \<and> map fst (consumed s) @ in_flight s = [1, 2, 3, 4 :: int]"
proof -
  from busy_state [of Member_queue] obtain s
    where r: "run Member_queue busy (init_sys []) = Some s" and p: "pushed s = [1, 2, 3, 4]"
    by blast
  from r have re: "reachable Member_queue [] s" by (rule scenario_reachable)
  from fifo_conservation [OF re] p re
  have "reachable Member_queue [] s \<and> map fst (consumed s) @ in_flight s = [1, 2, 3, 4]"
    by simp
  then show ?thesis ..
qed

text \<open>
  C11. FIFO delivery. In every reachable state the items the callbacks have received are,
  in the order of the calls, a subsequence of the items pushed; if no batch was dropped
  for want of a callback, they are a prefix of the items pushed.
\<close>

theorem delivered_in_order:
  assumes "reachable xq w s"
  shows "subseq (delivered s) (pushed s) \<and>
    (dropped s = [] \<longrightarrow> prefix (delivered s) (pushed s))"
proof -
  from assms have h: "pushed s = map fst (consumed s) @ in_flight s"
    using reachable_history_inv by (simp add: history_inv_def)
  have "subseq (map fst (consumed s)) (pushed s)"
    by (simp add: h prefix_imp_subseq)
  with delivered_subseq [of s] have "subseq (delivered s) (pushed s)"
    by (rule subseq_order.trans)
  moreover have "prefix (delivered s) (pushed s)" if "dropped s = []"
    using delivered_all [OF that] by (simp add: h)
  ultimately show ?thesis by blast
qed

theorem delivered_in_order_witness:
  "\<exists>s :: demo. reachable Local_queue [] s \<and> dropped s = [] \<and> delivered s = [1, 2, 3]
     \<and> subseq (delivered s) (pushed s) \<and> prefix (delivered s) (pushed s)"
proof -
  from graceful_state [of Local_queue] obtain s
    where r: "run Local_queue graceful (init_sys []) = Some s"
      and d: "delivered s = [1, 2, 3]" "dropped s = []"
    by blast
  from r have re: "reachable Local_queue [] s" by (rule scenario_reachable)
  from delivered_in_order [OF re] d re
  have "reachable Local_queue [] s \<and> dropped s = [] \<and> delivered s = [1, 2, 3]
     \<and> subseq (delivered s) (pushed s) \<and> prefix (delivered s) (pushed s)"
    by simp
  then show ?thesis ..
qed

text \<open>
  C20. Every item is accounted for exactly once. In every reachable state the multiset of
  the items pushed is the sum of those delivered to a callback, those dropped and those
  still in flight: no item reaches a callback twice, and an item that was delivered is
  neither pending nor dropped as well.
\<close>

theorem item_accounting:
  assumes "reachable xq w s"
  shows "mset (pushed s) = mset (delivered s) + mset (dropped s) + mset (in_flight s)"
proof -
  from assms have "pushed s = map fst (consumed s) @ in_flight s"
    using reachable_history_inv by (simp add: history_inv_def)
  then have "mset (pushed s) = mset (map fst (consumed s)) + mset (in_flight s)"
    by simp
  then show ?thesis by (simp only: consumed_mset)
qed

theorem item_accounting_witness:
  "\<exists>s :: demo. reachable Member_queue [] s \<and> mset (pushed s) = {#1, 2, 3, 4 :: int#}
     \<and> delivered s = [1] \<and> dropped s = [] \<and> mset (in_flight s) = {#2, 3, 4#}"
proof -
  from busy_state [of Member_queue] obtain s
    where r: "run Member_queue busy (init_sys []) = Some s" and p: "pushed s = [1, 2, 3, 4]"
      and d: "delivered s = [1]" "dropped s = []"
    by blast
  from r have re: "reachable Member_queue [] s" by (rule scenario_reachable)
  from item_accounting [OF re] p d re
  have "reachable Member_queue [] s \<and> mset (pushed s) = {#1, 2, 3, 4#}
     \<and> delivered s = [1] \<and> dropped s = [] \<and> mset (in_flight s) = {#2, 3, 4#}"
    by simp
  then show ?thesis ..
qed

section \<open>Mutual exclusion\<close>

text \<open>
  C3. Mutual exclusion on \<^verbatim>\<open>m_mutexThread\<close>. In every reachable state, if a client is
  inside the critical section of \<^verbatim>\<open>AddQueueData\<close> (lines 100 to 103) or of \<^verbatim>\<open>Stop\<close>
  (lines 86 to 88), then it is the holder of the mutex, no other client is inside such a
  section, and the worker is not between its lock and unlock of the mutex (lines 120 to
  135): the queue and the exit flag are written by one thread at a time.
\<close>

theorem mutexThread_exclusive:
  assumes "reachable xq w s" and "holds_mutexThread_c (cpc s i)"
  shows "m_mutexThread s = Some (Client i) \<and> \<not> holds_mutexThread_w (wpc s) \<and>
    (\<forall>j. holds_mutexThread_c (cpc s j) \<longrightarrow> j = i)"
proof -
  from assms(1) have e: "mutexThread_excl s" by (rule reachable_mutexThread_excl)
  with assms(2) have h: "m_mutexThread s = Some (Client i)"
    by (simp add: mutexThread_excl_def)
  with e show ?thesis by (auto simp: mutexThread_excl_def)
qed

theorem mutexThread_exclusive_witness:
  "\<exists>s :: demo. reachable Member_queue [] s \<and> cpc s 1 = In_Add (A_Push (5 :: int))
     \<and> m_mutexThread s = Some (Client 1) \<and> \<not> holds_mutexThread_w (wpc s)
     \<and> \<not> holds_mutexThread_c (cpc s 2)"
proof -
  from contended_state [of Member_queue] obtain s
    where r: "run Member_queue contended (init_sys []) = Some s"
      and c: "cpc s 1 = In_Add (A_Push 5)"
    by blast
  from r have re: "reachable Member_queue [] s" by (rule scenario_reachable)
  from c have "holds_mutexThread_c (cpc s 1)" by simp
  from mutexThread_exclusive [OF re this] c re
  have "reachable Member_queue [] s \<and> cpc s 1 = In_Add (A_Push 5)
     \<and> m_mutexThread s = Some (Client 1) \<and> \<not> holds_mutexThread_w (wpc s)
     \<and> \<not> holds_mutexThread_c (cpc s 2)"
    by auto
  then show ?thesis ..
qed

text \<open>
  C12. The callback is called under \<^verbatim>\<open>m_mutexFunc\<close> and serialised with registration.
  In every reachable state in which the worker is at the call of line 155, the worker
  holds \<^verbatim>\<open>m_mutexFunc\<close>, the callback pointer is not null, the worker holds an item, and
  no client is between the lock and the assignment of
  \<^verbatim>\<open>RegisterQueueProcessFunc\<close> (lines 53 and 54).
\<close>

theorem callback_serialised:
  assumes "reachable xq w s" and "wpc s = W_Call c P_Call"
  shows "m_mutexFunc s = Some Worker \<and> m_pFunc s \<noteq> None \<and> w_data s \<noteq> None \<and>
    (\<forall>i. \<not> holds_mutexFunc_c (cpc s i))"
proof -
  from assms(1) have e: "mutexFunc_excl s" and l: "local_inv xq s"
    by (rule reachable_mutexFunc_excl, rule reachable_local_inv)
  from assms have h: "m_mutexFunc s = Some Worker"
    by (simp add: mutexFunc_worker)
  with e have "\<forall>i. \<not> holds_mutexFunc_c (cpc s i)"
    by (auto simp: mutexFunc_excl_def)
  with h l assms(2) show ?thesis by (simp add: local_inv_def)
qed

theorem callback_serialised_witness:
  "\<exists>s :: demo. reachable Member_queue [] s \<and> wpc s = W_Call Loop_body P_Call
     \<and> m_mutexFunc s = Some Worker \<and> w_data s = Some (2 :: int)
     \<and> cpc s 2 = In_Register (R_Lock (tag_cb 1)) False \<and> \<not> holds_mutexFunc_c (cpc s 2)"
proof -
  from busy_state [of Member_queue] obtain s
    where r: "run Member_queue busy (init_sys []) = Some s"
      and c: "wpc s = W_Call Loop_body P_Call" "w_data s = Some 2"
        "cpc s 2 = In_Register (R_Lock (tag_cb 1)) False"
    by blast
  from r have re: "reachable Member_queue [] s" by (rule scenario_reachable)
  from callback_serialised [OF re c(1)] c re
  have "reachable Member_queue [] s \<and> wpc s = W_Call Loop_body P_Call
     \<and> m_mutexFunc s = Some Worker \<and> w_data s = Some 2
     \<and> cpc s 2 = In_Register (R_Lock (tag_cb 1)) False \<and> \<not> holds_mutexFunc_c (cpc s 2)"
    by simp
  then show ?thesis ..
qed

text \<open>
  C22. Which lock the callback runs under. In every reachable state in which the worker
  is inside \<^verbatim>\<open>ProcessQueueData\<close>, it holds \<^verbatim>\<open>m_mutexThread\<close> exactly if the call is
  the one of the exit path (line 128): batches are processed with the queue unlocked, so
  producers are not blocked by a callback, whereas the drain of the exit path runs with the
  queue locked. Under the reading of line 128 as the local queue that drain never takes an
  item.
\<close>

theorem callback_lock_discipline:
  assumes "reachable xq w s" and "wpc s = W_Call c p"
  shows "(m_mutexThread s = Some Worker \<longleftrightarrow> c = Exit_path) \<and>
    (c = Exit_path \<and> xq = Local_queue \<longrightarrow> p = P_CheckFunc \<or> p = P_LoopTest)"
proof -
  from assms have "m_mutexThread s = Some Worker \<longleftrightarrow> c = Exit_path"
    by (simp add: mutexThread_worker)
  moreover from reachable_exit_inv [OF assms(1)] assms(2)
  have "c = Exit_path \<and> xq = Local_queue \<longrightarrow> p = P_CheckFunc \<or> p = P_LoopTest"
    by (auto simp: exit_inv_def)
  ultimately show ?thesis ..
qed

theorem callback_lock_discipline_witness:
  "\<exists>s :: demo. reachable Local_queue [] s \<and> wpc s = W_Call Loop_body P_Call
     \<and> m_mutexThread s \<noteq> Some Worker"
proof -
  from busy_state [of Local_queue] obtain s
    where r: "run Local_queue busy (init_sys []) = Some s"
      and c: "wpc s = W_Call Loop_body P_Call"
    by blast
  from r have re: "reachable Local_queue [] s" by (rule scenario_reachable)
  from callback_lock_discipline [OF re c] c re
  have "reachable Local_queue [] s \<and> wpc s = W_Call Loop_body P_Call
     \<and> m_mutexThread s \<noteq> Some Worker"
    by simp
  then show ?thesis ..
qed

text \<open>
  C25. No mutex is left locked. In every reachable state in which every client is outside
  the object and the worker has not started, waits on the condition variable or has
  exited, both mutexes are free.
\<close>

theorem locks_released:
  assumes "reachable xq w s" and "\<forall>i. outside (cpc s i)"
    and "wpc s = W_NotStarted \<or> wpc s = W_Waiting \<or> wpc s = W_Done"
  shows "m_mutexThread s = None \<and> m_mutexFunc s = None"
proof -
  from assms(1) have t: "mutexThread_held s" and f: "mutexFunc_held s"
    by (rule reachable_mutexThread_held, rule reachable_mutexFunc_held)
  from assms(2) have c: "\<not> holds_mutexThread_c (cpc s i)" "\<not> holds_mutexFunc_c (cpc s i)" for i
    by simp_all
  from assms(3) have w: "\<not> holds_mutexThread_w (wpc s)" "\<not> holds_mutexFunc_w (wpc s)"
    by auto
  have "m_mutexThread s = None"
  proof (cases "m_mutexThread s")
    case (Some h)
    with t c(1) w(1) show ?thesis by (cases h) (auto simp: mutexThread_held_def)
  qed simp
  moreover have "m_mutexFunc s = None"
  proof (cases "m_mutexFunc s")
    case (Some h)
    with f c(2) w(2) show ?thesis by (cases h) (auto simp: mutexFunc_held_def)
  qed simp
  ultimately show ?thesis ..
qed

theorem locks_released_witness:
  "\<exists>s :: demo. reachable Member_queue [] s
     \<and> wpc s = W_Done \<and> m_mutexThread s = None \<and> m_mutexFunc s = None"
proof -
  from graceful_idle [of Member_queue] obtain s
    where r: "run Member_queue graceful (init_sys []) = Some s"
      and c: "\<forall>i. outside (cpc s i)" "wpc s = W_Done"
    by blast
  from r have re: "reachable Member_queue [] s" by (rule scenario_reachable)
  from locks_released [OF re c(1)] c re
  have "reachable Member_queue [] s \<and> wpc s = W_Done \<and> m_mutexThread s = None
     \<and> m_mutexFunc s = None"
    by simp
  then show ?thesis ..
qed

section \<open>Undefined behaviour\<close>

text \<open>
  C4. No undefined behaviour. A reachable state has no fault, or the fault of a callback
  that threw: the worker never calls through a null \<^verbatim>\<open>m_pFunc\<close> (line 155), never
  takes \<^verbatim>\<open>front()\<close> of an empty queue (line 151), and \<^verbatim>\<open>Stop\<close> never dereferences a
  null \<^verbatim>\<open>m_pThread\<close> (line 91), although \<^verbatim>\<open>m_pFunc\<close> is tested without the lock at
  line 144.
\<close>

theorem no_undefined_behaviour:
  assumes "reachable xq w s"
  shows "fault s = None \<or> fault s = Some Callback_threw"
proof -
  from assms have "fault_inv s" by (rule reachable_fault_inv)
  then show ?thesis by (simp add: fault_inv_def)
qed

theorem no_undefined_behaviour_witness:
  "\<exists>s :: demo. reachable Member_queue [] s
     \<and> fault s = Some Callback_threw"
proof -
  from thrown_state [of Member_queue] obtain s
    where r: "run Member_queue thrown (init_sys []) = Some s" and f: "fault s \<noteq> None"
    by auto
  from r have re: "reachable Member_queue [] s" by (rule scenario_reachable)
  from no_undefined_behaviour [OF re] f re
  have "reachable Member_queue [] s \<and> fault s = Some Callback_threw"
    by simp
  then show ?thesis ..
qed

section \<open>The condition variable\<close>

text \<open>
  C6. No wake-up is lost. In every reachable state in which the worker is blocked in
  \<^verbatim>\<open>m_cv.wait\<close> although the queue is not empty or the exit flag is set, some client is
  between its write and its \<^verbatim>\<open>notify_all\<close> (lines 101 and 102, lines 87 to 90); and only the worker ever
  waits.
\<close>

theorem no_lost_wakeup:
  assumes "reachable xq w s" and "Worker \<in> m_cv s" and "m_queue s \<noteq> [] \<or> m_bExit s"
  shows "wpc s = W_Waiting \<and> m_cv s = {Worker} \<and> (\<exists>i. will_notify (cpc s i))"
proof -
  from assms(1) have c: "cv_inv s" by (rule reachable_cv_inv)
  with assms(2,3) have "\<not> quiet (cpc s)" by (auto simp: cv_inv_def)
  then have "\<exists>i. will_notify (cpc s i)" by (simp add: quiet_def)
  with c assms(2) show ?thesis by (auto simp: cv_inv_def)
qed

theorem no_lost_wakeup_witness:
  "\<exists>s :: demo. reachable Member_queue [] s \<and> Worker \<in> m_cv s \<and> m_queue s = [1 :: int]
     \<and> wpc s = W_Waiting \<and> (\<exists>i. will_notify (cpc s i))"
proof -
  from unnotified_state [of Member_queue] obtain s
    where r: "run Member_queue unnotified (init_sys []) = Some s"
      and c: "Worker \<in> m_cv s" "m_queue s = [1]"
    by blast
  from r have re: "reachable Member_queue [] s" by (rule scenario_reachable)
  from c(2) have "m_queue s \<noteq> [] \<or> m_bExit s" by simp
  from no_lost_wakeup [OF re c(1) this] c re
  have "reachable Member_queue [] s \<and> Worker \<in> m_cv s \<and> m_queue s = [1]
     \<and> wpc s = W_Waiting \<and> (\<exists>i. will_notify (cpc s i))"
    by simp
  then show ?thesis ..
qed

end
