(* ===== verification/QT_Lifecycle.thy ===== *)
theory QT_Lifecycle
  imports QT_Invariants QT_Scenarios
begin

text \<open>
  The life of the worker thread: \<^verbatim>\<open>Start\<close>, \<^verbatim>\<open>Stop\<close> and \<^verbatim>\<open>IsRunning\<close> against
  the four worker states of the specification. \<open>phase\<close> reads the worker state off the
  members \<^verbatim>\<open>m_pThread\<close> and \<^verbatim>\<open>m_bExit\<close>; the worker states are ordered as the
  specification lists them. The theorems show that the object moves through them in this
  order, one at a time, and never back: a stopped object stays stopped and its worker is
  never created again. \<^verbatim>\<open>Stop\<close> returns only when the thread function has returned
  or was never started, and a second \<^verbatim>\<open>Stop\<close> changes nothing.
\<close>

section \<open>The worker states of the specification\<close>

datatype lifecycle = NotStarted | Running | StopRequested | Stopped

fun rank :: "lifecycle \<Rightarrow> nat" where
  "rank NotStarted = 0"
| "rank Running = 1"
| "rank StopRequested = 2"
| "rank Stopped = 3"

lemma rank_inject [simp]: "rank a = rank b \<longleftrightarrow> a = b"
  by (cases a; cases b) simp_all

instantiation lifecycle :: linorder
begin

definition less_eq_lifecycle :: "lifecycle \<Rightarrow> lifecycle \<Rightarrow> bool" where
  "less_eq_lifecycle a b \<longleftrightarrow> rank a \<le> rank b"

definition less_lifecycle :: "lifecycle \<Rightarrow> lifecycle \<Rightarrow> bool" where
  "less_lifecycle a b \<longleftrightarrow> rank a < rank b"

instance
  by standard (auto simp: less_eq_lifecycle_def less_lifecycle_def)

end

text \<open>
  The worker state of an object: no thread object is \<open>NotStarted\<close>, a thread object
  that has been joined is \<open>Stopped\<close>, and in between the exit flag tells \<open>Running\<close> from
  \<open>StopRequested\<close>.
\<close>

definition phase :: "('a, 'w) sys \<Rightarrow> lifecycle" where
  "phase s = (case m_pThread s of
     None \<Rightarrow> NotStarted
   | Some Joinable \<Rightarrow> (if m_bExit s then StopRequested else Running)
   | Some Joined \<Rightarrow> Stopped)"

lemma phase_eq:
  "phase s = NotStarted \<longleftrightarrow> m_pThread s = None"
  "phase s = Stopped \<longleftrightarrow> m_pThread s = Some Joined"
  "phase s = Running \<longleftrightarrow> m_pThread s = Some Joinable \<and> \<not> m_bExit s"
  "phase s = StopRequested \<longleftrightarrow> m_pThread s = Some Joinable \<and> m_bExit s"
  by (auto simp: phase_def split: option.splits thread_obj.splits)

text \<open>One step forward in the order of the worker states, or none.\<close>

definition advances :: "lifecycle \<Rightarrow> lifecycle \<Rightarrow> bool" where
  "advances a b \<longleftrightarrow> a \<le> b \<and> rank b \<le> Suc (rank a)"

lemma advances_refl [simp]: "advances a a"
  by (simp add: advances_def)

lemma advances_Stopped: "advances Stopped b \<longleftrightarrow> b = Stopped"
  by (cases b) (simp_all add: advances_def less_eq_lifecycle_def)

section \<open>The object moves through the worker states in order\<close>

lemma client_stmt_phase:
  assumes "client_stmt ok i s t" and "client_thread_ok s i"
    and "m_bExit s \<longrightarrow> m_pThread s \<noteq> None" and "wpc s = W_Done \<longrightarrow> m_bExit s"
  shows "advances (phase s) (phase t)"
  using assms
  by (induction rule: client_stmt.induct)
     (auto simp: client_thread_ok_def phase_def advances_def less_eq_lifecycle_def
           split: option.splits thread_obj.splits)

lemma qt_step_phase:
  assumes "reachable xq w s" and "qt_step xq s t"
  shows "advances (phase s) (phase t)"
  using assms(2)
proof (cases rule: qt_step_cases)
  case (call i c)
  then show ?thesis by (simp add: phase_def)
next
  case (client ok i)
  from \<open>client_stmt ok i s t\<close> thread_inv_client(1) [OF assms(1), of i]
  show ?thesis
    by (rule client_stmt_phase)
       (use reachable_thread_inv [OF assms(1)] reachable_exit_inv [OF assms(1)]
        in \<open>auto simp: thread_inv_def exit_inv_def\<close>)
next
  case worker
  from \<open>worker_stmt xq s t\<close> have "phase t = phase s"
    by (induction rule: worker_stmt.induct) (simp_all add: phase_def)
  then show ?thesis by simp
next
  case spurious
  then show ?thesis by (simp add: phase_def)
qed

text \<open>
  C21. The object moves through the worker states in the order \<open>NotStarted\<close>,
  \<open>Running\<close>, \<open>StopRequested\<close>, \<open>Stopped\<close>: a step of a reachable state leaves the
  worker state as it is or moves it to the next one. In particular no step leaves
  \<open>Stopped\<close>: the restart the specification allows never happens.
\<close>

theorem phase_monotone:
  assumes "reachable xq w s" and "qt_step xq s t"
  shows "phase s \<le> phase t \<and> rank (phase t) \<le> Suc (rank (phase s)) \<and>
    (phase s = Stopped \<longrightarrow> phase t = Stopped)"
proof -
  from assms have a: "advances (phase s) (phase t)" by (rule qt_step_phase)
  then have "phase s = Stopped \<longrightarrow> phase t = Stopped"
    by (auto simp: advances_Stopped)
  with a show ?thesis by (simp add: advances_def)
qed

theorem phase_monotone_witness:
  "\<exists>(s :: demo) t. reachable Member_queue [] s \<and> qt_step Member_queue s t
     \<and> phase s = Running \<and> phase t = StopRequested \<and> phase s \<le> phase t"
proof -
  from stopping_state [of Member_queue] obtain s t
    where r: "run Member_queue stopping (init_sys []) = Some s"
      and f: "fire Member_queue (ClientStep 0) s = Some t"
      and p: "phase s = Running" "phase t = StopRequested"
    by (auto simp: phase_eq)
  from r have re: "reachable Member_queue [] s" by (rule scenario_reachable)
  from f have st: "qt_step Member_queue s t" by (rule fire_step)
  from phase_monotone [OF re st] p re st
  have "reachable Member_queue [] s \<and> qt_step Member_queue s t
     \<and> phase s = Running \<and> phase t = StopRequested \<and> phase s \<le> phase t"
    by simp
  then show ?thesis by blast
qed

text \<open>
  C24. The thread handle and the worker agree. In every reachable state
  \<^verbatim>\<open>m_pThread\<close> is null exactly if the thread function has not been started; if the
  thread has been joined, the thread function has returned; the exit flag is set only
  once a thread exists; and the worker is on the exit path or behind the loop only if the
  exit flag is set.
\<close>

theorem thread_handle_agrees:
  assumes "reachable xq w s"
  shows "(phase s = NotStarted \<longleftrightarrow> wpc s = W_NotStarted) \<and>
    (phase s = Stopped \<longrightarrow> wpc s = W_Done) \<and>
    (m_bExit s \<longrightarrow> StopRequested \<le> phase s) \<and>
    (exiting (wpc s) \<longrightarrow> m_bExit s)"
proof -
  from assms have t: "thread_inv s" and e: "exit_inv xq s"
    by (rule reachable_thread_inv, rule reachable_exit_inv)
  from t have "m_bExit s \<longrightarrow> StopRequested \<le> phase s"
    by (cases "m_pThread s"; cases "the (m_pThread s)")
       (simp_all add: thread_inv_def phase_def less_eq_lifecycle_def)
  with t e show ?thesis by (simp add: thread_inv_def exit_inv_def phase_eq)
qed

theorem thread_handle_agrees_witness:
  "\<exists>s :: demo. reachable Local_queue [] s \<and> phase s = Stopped \<and> wpc s = W_Done \<and> m_bExit s"
proof -
  from graceful_state [of Local_queue] obtain s
    where r: "run Local_queue graceful (init_sys []) = Some s"
      and p: "m_pThread s = Some Joined"
    by blast
  from r have re: "reachable Local_queue [] s" by (rule scenario_reachable)
  from thread_handle_agrees [OF re] p re
  have "reachable Local_queue [] s \<and> phase s = Stopped \<and> wpc s = W_Done \<and> m_bExit s"
    by (simp add: phase_eq)
  then show ?thesis ..
qed

section \<open>After Stop\<close>

text \<open>What a step does once the thread function has returned.\<close>

definition same_output :: "('a, 'w) sys \<Rightarrow> ('a, 'w) sys \<Rightarrow> bool" where
  "same_output s t \<longleftrightarrow> wpc t = W_Done \<and> consumed t = consumed s \<and> world t = world s"

lemma done_step:
  assumes "reachable xq w s" and "wpc s = W_Done" and "qt_step xq s t"
  shows "same_output s t"
  using assms(3)
proof (cases rule: qt_step_cases)
  case (call i c)
  with assms(2) show ?thesis by (simp add: same_output_def)
next
  case (client ok i)
  from \<open>client_stmt ok i s t\<close> spawn_not_started [OF assms(1), of i] assms(2) show ?thesis
    by (induction rule: client_stmt.induct) (simp_all add: same_output_def)
next
  case worker
  from \<open>worker_stmt xq s t\<close> assms(2) show ?thesis
    by (induction rule: worker_stmt.induct) (simp_all add: same_output_def)
next
  case spurious
  with assms(2) show ?thesis by (simp add: same_output_def)
qed

lemma done_run:
  "reachable xq w s \<Longrightarrow> wpc s = W_Done \<Longrightarrow> run xq es s = Some t \<Longrightarrow> same_output s t"
proof (induction es arbitrary: s)
  case Nil
  then show ?case by (simp add: same_output_def)
next
  case (Cons e es)
  from Cons.prems(3) obtain u where u: "fire xq e s = Some u" and r: "run xq es u = Some t"
    by (auto split: option.splits)
  from u have st: "qt_step xq s u" by (rule fire_step)
  with Cons.prems(1,2) have d: "same_output s u" by (rule done_step)
  from Cons.prems(1) st have "reachable xq w u" by (rule reachable.step)
  moreover from d have "wpc u = W_Done" by (simp add: same_output_def)
  ultimately have "same_output u t" using r by (rule Cons.IH)
  with d show ?case by (simp add: same_output_def)
qed

text \<open>
  C10. The worker is never restarted. From a reachable state in which the thread function
  has returned, whatever the clients call afterwards (\<^verbatim>\<open>Start\<close> and
  \<^verbatim>\<open>AddQueueData\<close> included), the thread function stays returned, no further item is
  passed to a callback and the world does not change: items enqueued after the worker has
  exited are never processed.
\<close>

theorem worker_never_restarts:
  assumes "reachable xq w s" and "wpc s = W_Done" and "run xq es s = Some t"
  shows "wpc t = W_Done \<and> consumed t = consumed s \<and> world t = world s"
proof -
  from assms have "same_output s t" by (rule done_run)
  then show ?thesis by (simp add: same_output_def)
qed

theorem worker_never_restarts_witness:
  "\<exists>(s :: demo) t. reachable Member_queue [] s \<and> run Member_queue restart s = Some t
     \<and> cpc t 0 = C_Ret (RBool True) \<and> m_queue t = [7] \<and> wpc t = W_Done
     \<and> consumed t = consumed s \<and> world t = world s"
proof -
  from restart_state [of Member_queue] obtain s t
    where r: "run Member_queue graceful (init_sys []) = Some s" and d: "wpc s = W_Done"
      and rt: "run Member_queue restart s = Some t"
      and c: "cpc t 0 = C_Ret (RBool True)" "m_queue t = [7]"
    by blast
  from r have re: "reachable Member_queue [] s" by (rule scenario_reachable)
  from worker_never_restarts [OF re d rt] rt c re
  have "reachable Member_queue [] s \<and> run Member_queue restart s = Some t
     \<and> cpc t 0 = C_Ret (RBool True) \<and> m_queue t = [7] \<and> wpc t = W_Done
     \<and> consumed t = consumed s \<and> world t = world s"
    by simp
  then show ?thesis by blast
qed

text \<open>
  C37. Nothing is ever reset. No step clears the exit flag, the thread handle or the
  callback pointer once they are set: \<^verbatim>\<open>m_bExit\<close> is written only at lines 40 and 87,
  \<^verbatim>\<open>m_pThread\<close> only at line 63 and \<^verbatim>\<open>m_pFunc\<close> only at line 54.
\<close>

theorem flags_never_reset:
  assumes "qt_step xq s t"
  shows "(m_bExit s \<longrightarrow> m_bExit t) \<and> (m_pThread s \<noteq> None \<longrightarrow> m_pThread t \<noteq> None) \<and>
    (m_pFunc s \<noteq> None \<longrightarrow> m_pFunc t \<noteq> None)"
proof -
  from assms have "monotone_step s t" by (rule qt_step_monotone)
  then show ?thesis by (simp add: monotone_step_def)
qed

theorem flags_never_reset_witness:
  "\<exists>(s :: demo) t. qt_step Member_queue s t \<and> m_bExit s \<and> m_bExit t"
proof -
  from stopped_state [of Member_queue] obtain s :: demo and t
    where b: "m_bExit s" and f: "fire Member_queue (Invoke 1 (Call_Add 7)) s = Some t"
    by blast
  from f have st: "qt_step Member_queue s t" by (rule fire_step)
  from flags_never_reset [OF st] b st have "qt_step Member_queue s t \<and> m_bExit s \<and> m_bExit t"
    by simp
  then show ?thesis by blast
qed

section \<open>What Stop guarantees when it returns\<close>

text \<open>
  C19. \<^verbatim>\<open>Stop\<close> returns only when the worker is gone. In a reachable state, a
  statement of \<^verbatim>\<open>Stop\<close> that returns (line 83, the test of line 91 failing, or the
  \<^verbatim>\<open>join\<close> of line 93) returns with the thread function not started or returned, and
  in the second case with \<^verbatim>\<open>m_bExit\<close> set; the caller does not hold
  \<^verbatim>\<open>m_mutexThread\<close>. So after \<^verbatim>\<open>Stop\<close>, and after the destructor (lines 44 to 48),
  which calls it, no thread of the object runs the callback or reads a member. At that
  moment \<^verbatim>\<open>IsRunning\<close> is true exactly if the thread function has returned: it reports
  that a worker was started, not that one runs.
\<close>

theorem stop_returns_after_worker:
  assumes "reachable xq w s" and "cpc s i = In_Stop p" and "Stop i p s = Some (Inr v, t)"
  shows "v = RVoid \<and> (wpc t = W_NotStarted \<or> wpc t = W_Done) \<and>
    (wpc t = W_Done \<longrightarrow> m_bExit t) \<and> (IsRunning t \<longleftrightarrow> wpc t = W_Done) \<and>
    m_mutexThread t \<noteq> Some (Client i)"
  using reachable_thread_inv [OF assms(1)] reachable_exit_inv [OF assms(1)]
    reachable_mutexThread_held [OF assms(1)] assms(2,3)
  by (cases p)
     (auto simp: Stop_def IsRunning_def thread_inv_def exit_inv_def mutexThread_held_def
           split: if_splits option.splits thread_obj.splits)

theorem stop_returns_after_worker_witness:
  "\<exists>(s :: demo) t. reachable Member_queue [] s \<and> cpc s 0 = In_Stop T_Join
     \<and> Stop 0 T_Join s = Some (Inr RVoid, t) \<and> wpc t = W_Done \<and> m_bExit t
     \<and> IsRunning t"
proof -
  from joined_state [of Member_queue] obtain s
    where r: "run Member_queue joined (init_sys []) = Some s"
      and p: "cpc s 0 = In_Stop T_Join" "wpc s = W_Done"
    by blast
  from r have re: "reachable Member_queue [] s" by (rule scenario_reachable)
  let ?t = "s\<lparr>m_pThread := Some Joined\<rparr>"
  from p have st: "Stop 0 T_Join s = Some (Inr RVoid, ?t)" by (simp add: Stop_def)
  from stop_returns_after_worker [OF re p(1) st] p st re
  have "reachable Member_queue [] s \<and> cpc s 0 = In_Stop T_Join
     \<and> Stop 0 T_Join s = Some (Inr RVoid, ?t) \<and> wpc ?t = W_Done \<and> m_bExit ?t
     \<and> IsRunning ?t"
    by simp
  then show ?thesis by blast
qed

text \<open>What the members are once the object is \<open>Stopped\<close>.\<close>

lemma stopped_fields:
  assumes "reachable xq w s" and "phase s = Stopped"
  shows "m_pThread s = Some Joined" and "wpc s = W_Done" and "m_bExit s" and "m_cv s = {}"
proof -
  from assms(2) show j: "m_pThread s = Some Joined" by (simp add: phase_eq)
  with reachable_thread_inv [OF assms(1)] show d: "wpc s = W_Done" by (simp add: thread_inv_def)
  with reachable_exit_inv [OF assms(1)] show "m_bExit s" by (simp add: exit_inv_def)
  from d reachable_cv_inv [OF assms(1)] show "m_cv s = {}" by (auto simp: cv_inv_def)
qed

text \<open>
  C30. \<^verbatim>\<open>Stop\<close> is idempotent. In a reachable state in which the object is
  \<open>Stopped\<close>, a further call of \<^verbatim>\<open>Stop\<close> by the owner, run alone with
  \<^verbatim>\<open>m_mutexThread\<close> free, returns and leaves the state exactly as it was: the exit
  flag is set already, nobody waits on the condition variable, and \<^verbatim>\<open>joinable()\<close> is
  false at line 91, so the thread is not joined a second time.
\<close>

theorem stop_idempotent:
  assumes "reachable xq w s" and "phase s = Stopped" and "outside (cpc s 0)"
    and "m_mutexThread s = None" and "fault s = None"
  shows "call_alone xq 0 Call_Stop s = Some (returned 0 RVoid s)"
  using stopped_fields [OF assms(1,2)] assms(3-5)
  by (cases s) (simp add: alone_ops)

theorem stop_idempotent_witness:
  "\<exists>s :: demo. reachable Local_queue [] s \<and> phase s = Stopped \<and> world s = [(0, 1), (0, 2), (0, 3)]
     \<and> call_alone Local_queue 0 Call_Stop s = Some (returned 0 RVoid s)"
proof -
  from graceful_state [of Local_queue] obtain s
    where r: "run Local_queue graceful (init_sys []) = Some s"
      and p: "m_pThread s = Some Joined" "cpc s 0 = C_Ret RVoid" "m_mutexThread s = None"
        "fault s = None" "world s = [(0, 1), (0, 2), (0, 3)]"
    by blast
  from r have re: "reachable Local_queue [] s" by (rule scenario_reachable)
  from p have ph: "phase s = Stopped" and o: "outside (cpc s 0)"
    by (simp_all add: phase_eq outside_def)
  from stop_idempotent [OF re ph o p(3,4)] ph p re
  have "reachable Local_queue [] s \<and> phase s = Stopped \<and> world s = [(0, 1), (0, 2), (0, 3)]
     \<and> call_alone Local_queue 0 Call_Stop s = Some (returned 0 RVoid s)"
    by simp
  then show ?thesis ..
qed

section \<open>Start\<close>

text \<open>
  C23. \<^verbatim>\<open>Start\<close> never returns false. In a reachable state no statement of
  \<^verbatim>\<open>Start\<close> returns false: the test of line 64 follows an assignment of a non-null
  pointer, so lines 65 to 67 are dead; and if the thread cannot be created, line 63
  throws, the exception leaves \<^verbatim>\<open>Start\<close> and the object is unchanged.
\<close>

theorem start_never_false:
  assumes "reachable xq w s" and "cpc s i = In_Start p" and "Start ok p s = Some (r, t)"
  shows "r \<noteq> Inr (RBool False) \<and> (p = S_Spawn \<and> \<not> ok \<longrightarrow> r = Inr RThrow \<and> t = s)"
  using thread_inv_client(1) [OF assms(1), of i] assms(2,3)
  by (cases p) (auto simp: Start_def client_thread_ok_def split: if_splits)

theorem start_never_false_witness:
  "\<exists>s :: demo. reachable Member_queue [] s \<and> cpc s 0 = In_Start S_NullCheck
     \<and> Start True S_NullCheck s = Some (Inr (RBool True), s)"
proof -
  from spawning_state [of Member_queue] obtain s :: demo
    where r: "run Member_queue spawning (init_sys []) = Some s"
      and c: "cpc s 0 = In_Start S_NullCheck" and p: "m_pThread s = Some Joinable"
    by blast
  from r have re: "reachable Member_queue [] s" by (rule scenario_reachable)
  from p have st: "Start True S_NullCheck s = Some (Inr (RBool True), s)"
    by (simp add: Start_def)
  from start_never_false [OF re c st] c st re
  have "reachable Member_queue [] s \<and> cpc s 0 = In_Start S_NullCheck
     \<and> Start True S_NullCheck s = Some (Inr (RBool True), s)"
    by simp
  then show ?thesis ..
qed

end
