(* ===== verification/QT_Refinement.thy ===== *)
theory QT_Refinement
  imports QT_Invariants QT_Scenarios
begin

text \<open>
  What \<^verbatim>\<open>QueueThread<T>\<close> promises about the items, as an abstract machine, and the
  proof that the interleaved model implements it. The abstract machine is a FIFO channel:
  a list of pending items and a list of items disposed of; \<open>enqueue\<close> appends to the
  pending ones, \<open>dispose n\<close> moves the first \<open>n\<close> pending items, in order, to the end
  of the disposed ones. \<open>abstraction\<close> maps a state of the model to a state of the
  channel: pending are the item the worker holds, its local queue and \<^verbatim>\<open>m_queue\<close>;
  disposed are the items logged in \<open>consumed\<close>. Every step of the model is a step of the
  channel (\<open>dispose 0\<close> is the step that changes nothing).
\<close>

section \<open>The FIFO channel\<close>

record 'a fifo =
  pending :: "'a list"
  disposed :: "'a list"

definition fifo_init :: "'a fifo" where
  "fifo_init = \<lparr>pending = [], disposed = []\<rparr>"

definition enqueue :: "'a \<Rightarrow> 'a fifo \<Rightarrow> 'a fifo" where
  "enqueue x q = q\<lparr>pending := pending q @ [x]\<rparr>"

definition dispose :: "nat \<Rightarrow> 'a fifo \<Rightarrow> 'a fifo" where
  "dispose n q = \<lparr>pending = drop n (pending q), disposed = disposed q @ take n (pending q)\<rparr>"

inductive fifo_step :: "'a fifo \<Rightarrow> 'a fifo \<Rightarrow> bool" where
  enq: "fifo_step q (enqueue x q)"
| disp: "n \<le> length (pending q) \<Longrightarrow> fifo_step q (dispose n q)"

lemma dispose_0 [simp]: "dispose 0 q = q"
  by (simp add: dispose_def)

section \<open>The model implements the channel\<close>

definition abstraction :: "('a, 'w) sys \<Rightarrow> 'a fifo" where
  "abstraction s = \<lparr>pending = in_flight s, disposed = map fst (consumed s)\<rparr>"

lemma abstraction_init [simp]: "abstraction (init_sys w) = fifo_init"
  by (simp add: abstraction_def fifo_init_def in_flight_def)

text \<open>What a step of the model is in the channel, from what it does to the history.\<close>

lemma history_step_fifo:
  assumes "history_step s t" and "history_inv s" and "history_inv t"
  shows "fifo_step (abstraction s) (abstraction t)"
  using assms(1) unfolding history_step_def
proof (elim disjE exE conjE)
  fix x
  assume "pushed t = pushed s @ [x]" and "consumed t = consumed s"
  with assms(2,3) have "abstraction t = enqueue x (abstraction s)"
    by (simp add: history_inv_def abstraction_def enqueue_def)
  then show ?thesis by (simp add: fifo_step.enq)
next
  fix es
  assume "pushed t = pushed s" and "consumed t = consumed s @ es"
  with assms(2,3) have i: "in_flight s = map fst es @ in_flight t"
    by (simp add: history_inv_def)
  with \<open>consumed t = consumed s @ es\<close>
  have "abstraction t = dispose (length es) (abstraction s)"
    by (simp add: abstraction_def dispose_def)
  moreover from i have "length es \<le> length (pending (abstraction s))"
    by (simp add: abstraction_def)
  ultimately show ?thesis by (simp add: fifo_step.disp)
qed

text \<open>
  C5. The model refines the FIFO channel. A step of a reachable state is, under the
  abstraction, a step of the channel: it enqueues one item at the back, or disposes of the
  first pending items in order, or changes nothing. So whatever the schedule, the
  producers and the worker together behave as one first-in, first-out queue.
\<close>

theorem refines_fifo:
  assumes "reachable xq w s" and "qt_step xq s t"
  shows "fifo_step (abstraction s) (abstraction t)"
proof -
  from assms have "reachable xq w t" by (rule reachable.step)
  then have "history_inv t" by (rule reachable_history_inv)
  moreover from assms(1) have "history_inv s" by (rule reachable_history_inv)
  moreover from assms(2) have "history_step s t" by (rule qt_step_history)
  ultimately show ?thesis by (simp add: history_step_fifo)
qed

theorem refines_fifo_witness:
  "\<exists>(s :: demo) t. reachable Member_queue [] s \<and> qt_step Member_queue s t
     \<and> pending (abstraction s) = [2, 3, 4] \<and> pending (abstraction t) = [3, 4]
     \<and> fifo_step (abstraction s) (abstraction t)"
proof -
  from calling_state [of Member_queue] obtain s t
    where r: "run Member_queue busy (init_sys []) = Some s"
      and f: "fire Member_queue WorkerStep s = Some t"
      and p: "in_flight s = [2, 3, 4]" "in_flight t = [3, 4]"
    by blast
  from r have re: "reachable Member_queue [] s" by (rule scenario_reachable)
  from f have st: "qt_step Member_queue s t" by (rule fire_step)
  from refines_fifo [OF re st] p re st
  have "reachable Member_queue [] s \<and> qt_step Member_queue s t
     \<and> pending (abstraction s) = [2, 3, 4] \<and> pending (abstraction t) = [3, 4]
     \<and> fifo_step (abstraction s) (abstraction t)"
    by (simp add: abstraction_def)
  then show ?thesis by blast
qed

end
