(* ===== verification/QT_Drain.thy ===== *)
theory QT_Drain
  imports QT_Scenarios
begin

text \<open>
  The drain loop of \<^verbatim>\<open>ProcessQueueData\<close> (lines 149 to 156) as one big step. When the
  worker runs the loop without interference, it terminates, and what it does is what the
  reference function \<open>apply_all\<close> computes: the callback applied to the items of the
  queue, front first. \<open>ready\<close> says that the worker is at the loop test with the queue
  \<open>xs\<close> and the callback \<open>f\<close>, holding no item, with \<^verbatim>\<open>m_mutexFunc\<close> free. One
  iteration is five statements (test, front and pop, lock, call, unlock), and the loop
  ends with one more test, so \<open>5 * length xs + 1\<close> statements are the fuel the loop needs.
\<close>

section \<open>The reference\<close>

fun apply_all :: "('a, 'w) callback \<Rightarrow> 'a list \<Rightarrow> 'w \<Rightarrow> 'w option" where
  "apply_all f [] w = Some w"
| "apply_all f (x # xs) w = (case f x w of None \<Rightarrow> None | Some w' \<Rightarrow> apply_all f xs w')"

section \<open>The loop\<close>

definition ready ::
  "site \<Rightarrow> qref \<Rightarrow> 'a list \<Rightarrow> ('a, 'w) callback \<Rightarrow> ('a, 'w) sys \<Rightarrow> bool"
where
  "ready c q xs f s \<longleftrightarrow> wpc s = W_Call c P_LoopTest \<and> deref q s = xs \<and> m_pFunc s = Some f \<and>
     m_mutexFunc s = None \<and> w_data s = None \<and> fault s = None"

text \<open>What the loop leaves alone.\<close>

definition same_buffer :: "('a, 'w) sys \<Rightarrow> ('a, 'w) sys \<Rightarrow> bool" where
  "same_buffer s t \<longleftrightarrow> pushed t = pushed s \<and> cpc t = cpc s \<and> m_bExit t = m_bExit s \<and>
     m_pThread t = m_pThread s \<and> m_mutexThread t = m_mutexThread s \<and> m_cv t = m_cv s"

lemma same_buffer_refl [simp]: "same_buffer s s"
  by (simp add: same_buffer_def)

lemma same_buffer_trans: "same_buffer s t \<Longrightarrow> same_buffer t u \<Longrightarrow> same_buffer s u"
  by (simp add: same_buffer_def)

lemma work_add: "work (m + n) = work m @ work n"
  by (induction m) simp_all

lemma run_work_add:
  "run xq (work (m + n)) s = (case run xq (work m) s of None \<Rightarrow> None | Some t \<Rightarrow> run xq (work n) t)"
  by (simp add: work_add run_append)

lemma run_work_Some:
  "run xq (work m) s = Some t \<Longrightarrow> run xq (work n) t = Some u \<Longrightarrow> run xq (work (m + n)) s = Some u"
  by (simp add: run_work_add)

lemma drain_iteration:
  assumes "ready c (argument xq c) (x # xs) f s" and "f x (world s) = Some w1"
  shows "\<exists>t. run xq (work 5) s = Some t \<and> ready c (argument xq c) xs f t \<and> world t = w1 \<and>
    consumed t = consumed s @ [(x, Some f)] \<and> same_buffer s t \<and>
    (argument xq c = Local_queue \<longrightarrow> m_queue t = m_queue s)"
  using assms
  by (cases c; cases xq)
     (simp_all add: ready_def same_buffer_def eval_nat_numeral qt_ops guard_def)

lemma drain_exit:
  assumes "ready c (argument xq c) [] f s"
  shows "run xq (work 1) s = Some (s\<lparr>wpc := return_to c\<rparr>)"
  using assms by (simp add: ready_def qt_ops)

lemma drain_loop:
  assumes "ready c (argument xq c) xs f s" and "apply_all f xs (world s) = Some w'"
  shows "\<exists>t. run xq (work (5 * length xs)) s = Some t \<and> ready c (argument xq c) [] f t \<and>
    world t = w' \<and> consumed t = consumed s @ map (\<lambda>x. (x, Some f)) xs \<and> same_buffer s t \<and>
    (argument xq c = Local_queue \<longrightarrow> m_queue t = m_queue s)"
  using assms
proof (induction xs arbitrary: s)
  case Nil
  then show ?case by simp
next
  case (Cons x xs)
  from Cons.prems(2) obtain w1 where w1: "f x (world s) = Some w1"
    and rest: "apply_all f xs w1 = Some w'"
    by (auto split: option.splits)
  from drain_iteration [OF Cons.prems(1) w1] obtain t
    where t: "run xq (work 5) s = Some t" "ready c (argument xq c) xs f t" "world t = w1"
      "consumed t = consumed s @ [(x, Some f)]" "same_buffer s t"
      "argument xq c = Local_queue \<longrightarrow> m_queue t = m_queue s"
    by blast
  from Cons.IH [OF t(2)] rest t(3) obtain u
    where u: "run xq (work (5 * length xs)) t = Some u" "ready c (argument xq c) [] f u"
      "world u = w'" "consumed u = consumed t @ map (\<lambda>x. (x, Some f)) xs" "same_buffer t u"
      "argument xq c = Local_queue \<longrightarrow> m_queue u = m_queue t"
    by auto
  from t(1) u(1) have "run xq (work (5 + 5 * length xs)) s = Some u"
    by (rule run_work_Some)
  then have "run xq (work (5 * length (x # xs))) s = Some u"
    by simp
  with u t(4-6) show ?case
    by (auto intro: same_buffer_trans)
qed

text \<open>The whole loop: \<open>u\<close> is the state at the last loop test, which returns.\<close>

lemma drain_run:
  assumes "ready c (argument xq c) xs f s" and "apply_all f xs (world s) = Some w'"
  shows "\<exists>u. run xq (work (5 * length xs + 1)) s = Some (u\<lparr>wpc := return_to c\<rparr>) \<and>
    ready c (argument xq c) [] f u \<and> world u = w' \<and>
    consumed u = consumed s @ map (\<lambda>x. (x, Some f)) xs \<and> same_buffer s u \<and>
    (argument xq c = Local_queue \<longrightarrow> m_queue u = m_queue s)"
proof -
  from drain_loop [OF assms] obtain u
    where u: "run xq (work (5 * length xs)) s = Some u" "ready c (argument xq c) [] f u"
      "world u = w'" "consumed u = consumed s @ map (\<lambda>x. (x, Some f)) xs" "same_buffer s u"
      "argument xq c = Local_queue \<longrightarrow> m_queue u = m_queue s"
    by blast
  from u(1) drain_exit [OF u(2)]
  have "run xq (work (5 * length xs + 1)) s = Some (u\<lparr>wpc := return_to c\<rparr>)"
    by (rule run_work_Some)
  with u show ?thesis by blast
qed

text \<open>
  C9. The drain loop terminates and computes the reference. If the worker is at the loop
  test of line 149 with the queue \<open>xs\<close>, a callback \<open>f\<close> that throws on none of the
  items, and \<^verbatim>\<open>m_mutexFunc\<close> free, then \<open>5 * length xs + 1\<close> statements of the
  worker, with no other thread in between, leave it behind the call of
  \<^verbatim>\<open>ProcessQueueData\<close> with the queue empty; the world is \<open>apply_all f xs\<close> of the
  world before, the items are logged as delivered to \<open>f\<close> in the order of the queue, and
  the buffer, the flags and the clients are untouched.
\<close>

theorem drain_terminates:
  assumes "ready c (argument xq c) xs f s" and "apply_all f xs (world s) = Some w'"
  shows "\<exists>t. run xq (work (5 * length xs + 1)) s = Some t \<and> wpc t = return_to c \<and>
    deref (argument xq c) t = [] \<and> world t = w' \<and>
    consumed t = consumed s @ map (\<lambda>x. (x, Some f)) xs \<and> same_buffer s t"
proof -
  from drain_run [OF assms] obtain u
    where "run xq (work (5 * length xs + 1)) s = Some (u\<lparr>wpc := return_to c\<rparr>)"
      "ready c (argument xq c) [] f u" "world u = w'"
      "consumed u = consumed s @ map (\<lambda>x. (x, Some f)) xs" "same_buffer s u"
    by blast
  then show ?thesis by (simp add: ready_def same_buffer_def)
qed

theorem drain_terminates_witness:
  "\<exists>(s :: demo) t. run Member_queue batch (init_sys []) = Some s
     \<and> run Member_queue (work 16) s = Some t \<and> wpc t = W_ScopeEnd \<and> w_queue t = []
     \<and> world t = [(0, 1), (0, 2), (0, 3)]"
proof -
  from batch_state [of Member_queue] obtain s
    where r: "run Member_queue batch (init_sys []) = Some s"
      and p: "wpc s = W_Call Loop_body P_LoopTest" "w_queue s = [1, 2, 3]"
        "m_pFunc s = Some (tag_cb 0)" "m_mutexFunc s = None" "w_data s = None"
        "fault s = None" "world s = []"
    by blast
  from p have "ready Loop_body (argument Member_queue Loop_body) [1, 2, 3] (tag_cb 0) s"
    by (simp add: ready_def)
  moreover from p have "apply_all (tag_cb 0) [1, 2, 3] (world s) = Some [(0, 1), (0, 2), (0, 3)]"
    by (simp add: tag_cb_def)
  ultimately obtain t where "run Member_queue (work 16) s = Some t" "wpc t = W_ScopeEnd"
    "w_queue t = []" "world t = [(0, 1), (0, 2), (0, 3)]"
    using drain_terminates [of Loop_body Member_queue "[1, 2, 3]" "tag_cb 0" s] by auto
  with r show ?thesis by blast
qed

text \<open>
  C38. A callback that throws stops the drain loop at its item. If the callback throws on
  the item at the front of the queue, four statements of the worker end in the fault of a
  thrown callback; the item has left the queue and is not logged as delivered.
\<close>

theorem drain_throws:
  assumes "ready c (argument xq c) (x # xs) f s" and "f x (world s) = None"
  shows "\<exists>t. run xq (work 4) s = Some t \<and> fault t = Some Callback_threw \<and>
    deref (argument xq c) t = xs \<and> w_data t = Some x \<and> consumed t = consumed s \<and>
    world t = world s"
  using assms
  by (cases c; cases xq)
     (simp_all add: ready_def eval_nat_numeral qt_ops guard_def)

theorem drain_throws_witness:
  "\<exists>(s :: demo) t. run Member_queue thrown_before (init_sys []) = Some s
     \<and> run Member_queue (work 4) s = Some t \<and> fault t = Some Callback_threw \<and> w_data t = Some 1"
proof -
  from thrown_before_state [of Member_queue] obtain s
    where r: "run Member_queue thrown_before (init_sys []) = Some s"
      and p: "wpc s = W_Call Loop_body P_LoopTest" "w_queue s = [1]"
        "m_pFunc s = Some throwing_cb" "m_mutexFunc s = None" "w_data s = None"
        "fault s = None"
    by blast
  from p have "ready Loop_body (argument Member_queue Loop_body) [1] throwing_cb s"
    by (simp add: ready_def)
  from drain_throws [OF this] obtain t
    where "run Member_queue (work 4) s = Some t" "fault t = Some Callback_threw"
      "w_data t = Some 1"
    by (auto simp: throwing_cb_def)
  with r show ?thesis by blast
qed

end
