(* ===== verification/QT_Round.thy ===== *)
theory QT_Round
  imports QT_Invariants QT_Drain
begin

text \<open>
  One iteration of the loop of \<^verbatim>\<open>QueueProcessThread\<close> (lines 118 to 138) as one big
  step of the worker, for every queue, every callback and every reachable state the
  iteration starts in: with a callback registered the whole content of \<^verbatim>\<open>m_queue\<close> is
  delivered in order; without one it is dropped; and a registration between two items of a
  batch takes effect at the second.
\<close>

section \<open>From the loop test to the call of ProcessQueueData\<close>

text \<open>
  The head of an iteration that finds the queue non-empty: loop test (118), lock (120), wait
  predicate (123), exit test (126), swap (134), unlock (135). The worker is then at the call
  of line 137 with the batch in its local queue.
\<close>

definition at_loop_head :: "('a, 'w) sys \<Rightarrow> bool" where
  "at_loop_head s \<longleftrightarrow> wpc s = W_LoopTest \<and> \<not> m_bExit s \<and> m_mutexThread s = None \<and>
     fault s = None"

lemma loop_head_locals:
  assumes "reachable xq w s" and "wpc s = W_LoopTest"
  shows "w_queue s = []" and "w_data s = None"
  using reachable_local_inv [OF assms(1)] assms(2) by (auto simp: local_inv_def)

lemma take_batch:
  assumes "at_loop_head s" and "m_queue s \<noteq> []" and "w_data s = None"
    and "m_pFunc s = Some f" and "m_mutexFunc s = None"
  shows "\<exists>t. run xq (work 7) s = Some t \<and> ready Loop_body Local_queue (m_queue s) f t \<and>
    m_queue t = [] \<and> world t = world s \<and> consumed t = consumed s \<and> same_buffer s t"
  using assms
  by (simp add: at_loop_head_def ready_def same_buffer_def eval_nat_numeral qt_ops guard_def)

text \<open>The end of the loop body (line 138) with the local queue empty.\<close>

lemma scope_end:
  assumes "ready Loop_body Local_queue [] f u"
  shows "run xq (work 1) (u\<lparr>wpc := W_ScopeEnd\<rparr>) = Some (u\<lparr>wpc := W_LoopTest\<rparr>)"
  using assms by (simp add: ready_def qt_ops)

section \<open>A round with a callback\<close>

lemma round_run:
  assumes "at_loop_head s" and "m_queue s \<noteq> []" and "w_data s = None"
    and "m_pFunc s = Some f" and "m_mutexFunc s = None"
    and "apply_all f (m_queue s) (world s) = Some w'"
  shows "\<exists>t. run xq (work (5 * length (m_queue s) + 9)) s = Some t \<and> at_loop_head t \<and>
    m_queue t = [] \<and> in_flight t = [] \<and> world t = w' \<and>
    consumed t = consumed s @ map (\<lambda>x. (x, Some f)) (m_queue s) \<and> same_buffer s t"
proof -
  let ?xs = "m_queue s"
  from take_batch [OF assms(1-5)] obtain t
    where t: "run xq (work 7) s = Some t" "ready Loop_body Local_queue ?xs f t"
      "m_queue t = []" "world t = world s" "consumed t = consumed s" "same_buffer s t"
    by blast
  from t(2) have "ready Loop_body (argument xq Loop_body) ?xs f t" by simp
  from drain_run [OF this] assms(6) t(4) obtain u
    where u: "run xq (work (5 * length ?xs + 1)) t = Some (u\<lparr>wpc := W_ScopeEnd\<rparr>)"
      "ready Loop_body Local_queue [] f u" "world u = w'"
      "consumed u = consumed t @ map (\<lambda>x. (x, Some f)) ?xs" "same_buffer t u"
      "m_queue u = m_queue t"
    by auto
  from t(3) u(6) have q: "m_queue u = []" by simp
  from u(1) scope_end [OF u(2)]
  have "run xq (work ((5 * length ?xs + 1) + 1)) t = Some (u\<lparr>wpc := W_LoopTest\<rparr>)"
    by (rule run_work_Some)
  with t(1) have "run xq (work (7 + ((5 * length ?xs + 1) + 1))) s = Some (u\<lparr>wpc := W_LoopTest\<rparr>)"
    by (rule run_work_Some)
  then have "run xq (work (5 * length ?xs + 9)) s = Some (u\<lparr>wpc := W_LoopTest\<rparr>)"
    by (simp add: add.commute)
  moreover from assms(1) t(6) u(2,5) have "at_loop_head (u\<lparr>wpc := W_LoopTest\<rparr>)"
    by (simp add: at_loop_head_def same_buffer_def ready_def)
  moreover from t(5,6) u(2-5) q have "m_queue (u\<lparr>wpc := W_LoopTest\<rparr>) = []"
    "in_flight (u\<lparr>wpc := W_LoopTest\<rparr>) = []" "world (u\<lparr>wpc := W_LoopTest\<rparr>) = w'"
    "consumed (u\<lparr>wpc := W_LoopTest\<rparr>) = consumed s @ map (\<lambda>x. (x, Some f)) ?xs"
    "same_buffer s (u\<lparr>wpc := W_LoopTest\<rparr>)"
    by (simp_all add: ready_def same_buffer_def in_flight_def)
  ultimately show ?thesis by blast
qed

text \<open>
  C13. One round of the worker delivers the queue. From a reachable state in which the
  worker is at the loop test of line 118, no stop is requested, both mutexes are free,
  \<^verbatim>\<open>m_queue\<close> is not empty and a callback \<open>f\<close> is registered that throws on none of
  the items, \<open>5 * length (m_queue s) + 9\<close> statements of the worker, with no other thread in
  between, bring it back to the loop test: \<^verbatim>\<open>m_queue\<close> is empty, nothing is in
  flight, every item of the queue has been passed to \<open>f\<close> in the order of the queue, the
  world is \<open>apply_all f\<close> of the world before, and the flags, the mutex, the condition
  variable and the clients are as before.
\<close>

theorem worker_round:
  assumes "reachable xq w s" and "at_loop_head s" and "m_queue s \<noteq> []"
    and "m_pFunc s = Some f" and "m_mutexFunc s = None"
    and "apply_all f (m_queue s) (world s) = Some w'"
  shows "\<exists>t. run xq (work (5 * length (m_queue s) + 9)) s = Some t \<and> at_loop_head t \<and>
    m_queue t = [] \<and> in_flight t = [] \<and> world t = w' \<and>
    consumed t = consumed s @ map (\<lambda>x. (x, Some f)) (m_queue s) \<and> same_buffer s t"
proof -
  from assms(1,2) have "w_data s = None"
    by (simp add: at_loop_head_def loop_head_locals)
  with assms(2,3) show ?thesis using assms(4-6) by (rule round_run)
qed

theorem worker_round_witness:
  "\<exists>(s :: demo) t. reachable Local_queue [] s \<and> m_queue s = [1, 2, 3]
     \<and> run Local_queue (work 24) s = Some t \<and> at_loop_head t \<and> in_flight t = []
     \<and> world t = [(0, 1), (0, 2), (0, 3)]
     \<and> consumed t = [(1, Some (tag_cb 0)), (2, Some (tag_cb 0)), (3, Some (tag_cb 0))]"
proof -
  from warm_up_state [of Local_queue] obtain s
    where r: "run Local_queue warm_up (init_sys []) = Some s"
      and p: "wpc s = W_LoopTest" "\<not> m_bExit s" "m_mutexThread s = None" "fault s = None"
      and q: "m_queue s = [1, 2, 3]" "m_pFunc s = Some (tag_cb 0)" "m_mutexFunc s = None"
        "world s = []" "consumed s = []"
    by blast
  from r have re: "reachable Local_queue [] s" by (rule scenario_reachable)
  from p have h: "at_loop_head s" by (simp add: at_loop_head_def)
  from q have a: "apply_all (tag_cb 0) (m_queue s) (world s) = Some [(0, 1), (0, 2), (0, 3)]"
    by (simp add: tag_cb_def)
  from q have n: "m_queue s \<noteq> []" by simp
  from worker_round [OF re h n q(2,3) a] q obtain t
    where "run Local_queue (work 24) s = Some t" "at_loop_head t" "in_flight t = []"
      "world t = [(0, 1), (0, 2), (0, 3)]"
      "consumed t = [(1, Some (tag_cb 0)), (2, Some (tag_cb 0)), (3, Some (tag_cb 0))]"
    by auto
  with re q(1) show ?thesis by blast
qed

section \<open>A round without a callback\<close>

text \<open>
  C28. Items the worker takes while no callback is registered are dropped. From a
  reachable state in which the worker is at the loop test of line 118, no stop is
  requested, \<^verbatim>\<open>m_mutexThread\<close> is free, \<^verbatim>\<open>m_queue\<close> is not empty and \<^verbatim>\<open>m_pFunc\<close>
  is null, eight statements of the worker bring it back to the loop test: the null test of
  line 144 returns before the drain loop, and the local queue is destroyed with the whole
  batch at the end of the loop body (line 138). Every item of the queue is logged as
  dropped, none is delivered, the world is unchanged and no fault is raised.
\<close>

theorem unregistered_batch_dropped:
  assumes "reachable xq w s" and "at_loop_head s" and "m_queue s \<noteq> []" and "m_pFunc s = None"
  shows "\<exists>t. run xq (work 8) s = Some t \<and> at_loop_head t \<and> m_queue t = [] \<and>
    in_flight t = [] \<and> world t = world s \<and> dropped t = dropped s @ m_queue s \<and>
    delivered t = delivered s \<and> same_buffer s t"
  using assms(2-4) loop_head_locals [OF assms(1)]
  by (simp add: at_loop_head_def same_buffer_def in_flight_def dropped_def delivered_def
      eval_nat_numeral qt_ops guard_def comp_def)

theorem unregistered_batch_dropped_witness:
  "\<exists>(s :: demo) t. reachable Member_queue [] s \<and> m_queue s = [1, 2]
     \<and> run Member_queue (work 8) s = Some t \<and> at_loop_head t \<and> in_flight t = []
     \<and> dropped t = [1, 2] \<and> delivered t = [] \<and> world t = []"
proof -
  from unregistered_state [of Member_queue] obtain s
    where r: "run Member_queue unregistered (init_sys []) = Some s"
      and p: "wpc s = W_LoopTest" "\<not> m_bExit s" "m_mutexThread s = None" "fault s = None"
      and q: "m_queue s = [1, 2]" "m_pFunc s = None" "world s = []" "consumed s = []"
    by blast
  from r have re: "reachable Member_queue [] s" by (rule scenario_reachable)
  from p have h: "at_loop_head s" by (simp add: at_loop_head_def)
  from q have n: "m_queue s \<noteq> []" by simp
  from unregistered_batch_dropped [OF re h n q(2)] q obtain t
    where "run Member_queue (work 8) s = Some t" "at_loop_head t" "in_flight t = []"
      "dropped t = [1, 2]" "delivered t = []" "world t = []"
    by (auto simp: dropped_def delivered_def)
  with re q(1) show ?thesis by blast
qed

section \<open>Registration between two items\<close>

text \<open>
  C27. The callback is read per item, not per batch. If the worker is at the loop test of
  line 149 with at least two items \<open>x\<close>, \<open>y\<close> in the queue and the callback \<open>f\<close>,
  and a client registers \<open>g\<close> after the worker has processed \<open>x\<close>, then \<open>x\<close> has been
  passed to \<open>f\<close> and \<open>y\<close> is passed to \<open>g\<close>, although both were swapped out in one
  batch; the worker is again at the loop test with the rest of the queue and the callback
  \<open>g\<close>. This holds at both calls of \<^verbatim>\<open>ProcessQueueData\<close> and for both readings of
  line 128.
\<close>

theorem callback_currency:
  assumes "ready c (argument xq c) (x # y # ys) f s" and "outside (cpc s i)"
    and "f x (world s) = Some w1" and "g y w1 = Some w2"
  shows "\<exists>t. run xq (work 5 @ do_register i g @ work 5) s = Some t \<and>
    ready c (argument xq c) ys g t \<and> world t = w2 \<and>
    consumed t = consumed s @ [(x, Some f), (y, Some g)] \<and> cpc t i = C_Ret RVoid"
  using assms
  by (cases c; cases xq)
     (simp_all add: ready_def do_register_def eval_nat_numeral qt_ops guard_def)

theorem callback_currency_witness:
  "\<exists>(s :: demo) t. run Member_queue batch (init_sys []) = Some s
     \<and> run Member_queue (work 5 @ do_register 2 (tag_cb 1) @ work 5) s = Some t
     \<and> w_queue t = [3] \<and> m_pFunc t = Some (tag_cb 1) \<and> world t = [(0, 1), (1, 2)]"
proof -
  from batch_state [of Member_queue] obtain s
    where r: "run Member_queue batch (init_sys []) = Some s"
      and p: "wpc s = W_Call Loop_body P_LoopTest" "w_queue s = [1, 2, 3]"
        "m_pFunc s = Some (tag_cb 0)" "m_mutexFunc s = None" "w_data s = None"
        "fault s = None" "world s = []" "cpc s 2 = C_Ret RVoid"
    by blast
  from p have "ready Loop_body (argument Member_queue Loop_body) (1 # 2 # [3]) (tag_cb 0) s"
    by (simp add: ready_def)
  moreover from p have "outside (cpc s 2)" by (simp add: outside_def)
  moreover from p have "tag_cb 0 1 (world s) = Some [(0, 1)]" by (simp add: tag_cb_def)
  moreover have "tag_cb 1 2 [(0, 1)] = Some [(0, 1), (1, 2)]" by (simp add: tag_cb_def)
  ultimately obtain t
    where "run Member_queue (work 5 @ do_register 2 (tag_cb 1) @ work 5) s = Some t"
      "w_queue t = [3]" "m_pFunc t = Some (tag_cb 1)" "world t = [(0, 1), (1, 2)]"
    using callback_currency [of Loop_body Member_queue 1 2 "[3]" "tag_cb 0" s 2
        "[(0, 1)]" "tag_cb 1" "[(0, 1), (1, 2)]"]
    by (auto simp: ready_def)
  with r show ?thesis by blast
qed

end
