(* ===== verification/QT_Shutdown.thy ===== *)
theory QT_Shutdown
  imports QT_Round
begin

text \<open>
  What \<^verbatim>\<open>Stop\<close> does to the items that are still queued. The specification calls
  \<^verbatim>\<open>Stop\<close> graceful: every item enqueued before it returns is passed to the
  callback. The theorems of this theory say, for every queue content, every callback and
  every reachable state, when the source keeps that promise and when it does not:
  \<^item> once \<^verbatim>\<open>m_bExit\<close> is set while the worker is at the loop test of line 118, the
    thread function returns without looking at \<^verbatim>\<open>m_queue\<close>, and no schedule ever
    delivers what is queued (\<open>abandoned\<close>);
  \<^item> a \<^verbatim>\<open>Stop\<close> called while the worker is at line 118 leads to such a state;
  \<^item> a \<^verbatim>\<open>Stop\<close> that finds the worker in \<^verbatim>\<open>m_cv.wait\<close> sends it down the exit
    path (lines 126 to 131), and what becomes of the queue there depends on what
    \<^verbatim>\<open>queue\<close> at line 128 denotes.
\<close>

section \<open>States in which the queue is abandoned\<close>

text \<open>
  The program points from which, once \<^verbatim>\<open>m_bExit\<close> is set, the worker reaches the end
  of the thread function through the exit path without a swap: the lock, the wait and the
  exit path itself.
\<close>

fun before_swap :: "wpc \<Rightarrow> bool" where
  "before_swap W_Lock = True"
| "before_swap W_WaitPred = True"
| "before_swap W_Waiting = True"
| "before_swap W_Relock = True"
| "before_swap W_CheckExit = True"
| "before_swap (W_Call c p) = (c = Exit_path)"
| "before_swap W_ExitUnlock = True"
| "before_swap _ = False"

text \<open>
  \<open>abandoned xq s\<close>: the exit flag is set and the worker is at the loop test or has
  returned; or, if \<^verbatim>\<open>queue\<close> at line 128 is the local queue, the worker is anywhere
  before the swap.
\<close>

definition abandoned :: "qref \<Rightarrow> ('a, 'w) sys \<Rightarrow> bool" where
  "abandoned xq s \<longleftrightarrow> m_bExit s \<and>
     (wpc s = W_LoopTest \<or> wpc s = W_Done \<or> (xq = Local_queue \<and> before_swap (wpc s)))"

text \<open>What a step from an abandoned state keeps.\<close>

definition stranded :: "qref \<Rightarrow> ('a, 'w) sys \<Rightarrow> ('a, 'w) sys \<Rightarrow> bool" where
  "stranded xq s t \<longleftrightarrow> abandoned xq t \<and> consumed t = consumed s \<and> world t = world s \<and>
     prefix (m_queue s) (m_queue t)"

lemma stranded_refl: "abandoned xq s \<Longrightarrow> stranded xq s s"
  by (simp add: stranded_def)

lemma stranded_trans: "stranded xq s t \<Longrightarrow> stranded xq t u \<Longrightarrow> stranded xq s u"
  by (auto simp: stranded_def)

lemma return_to_before_swap [simp]: "before_swap (return_to c) \<longleftrightarrow> c = Exit_path"
  by (cases c) simp_all

lemma before_swap_pc:
  assumes "before_swap p" and "\<not> draining p"
  shows "\<not> local_live p \<and> \<not> has_data p"
proof (cases p)
  case (W_Call c pp)
  with assms show ?thesis by (cases pp) auto
qed (use assms in auto)

lemma abandoned_locals:
  assumes "reachable xq w s" and "abandoned xq s"
  shows "w_queue s = []" and "w_data s = None"
proof -
  from assms(2) reachable_exit_inv [OF assms(1)]
  have "\<not> local_live (wpc s) \<and> \<not> has_data (wpc s)"
    by (auto simp: abandoned_def exit_inv_def before_swap_pc)
  with reachable_local_inv [OF assms(1)] show "w_queue s = []" and "w_data s = None"
    by (auto simp: local_inv_def)
qed

lemma abandoned_client:
  assumes "client_stmt ok i s t" and "cpc s i = In_Start S_Spawn \<longrightarrow> wpc s = W_NotStarted"
    and "abandoned xq s"
  shows "stranded xq s t"
  using assms
  by (induction rule: client_stmt.induct) (simp_all add: stranded_def abandoned_def)

lemma abandoned_worker:
  assumes "worker_stmt xq s t" and "exit_inv xq s" and "w_queue s = []" and "w_data s = None"
    and "abandoned xq s"
  shows "stranded xq s t"
  using assms
  by (induction rule: worker_stmt.induct) (simp_all add: stranded_def abandoned_def exit_inv_def)

lemma abandoned_step:
  assumes "reachable xq w s" and "abandoned xq s" and "qt_step xq s t"
  shows "stranded xq s t"
  using assms(3)
proof (cases rule: qt_step_cases)
  case (call i c)
  with assms(2) show ?thesis by (simp add: stranded_def abandoned_def)
next
  case (client ok i)
  from \<open>client_stmt ok i s t\<close> spawn_not_started [OF assms(1), of i] assms(2) show ?thesis
    by (rule abandoned_client)
next
  case worker
  from \<open>worker_stmt xq s t\<close> reachable_exit_inv [OF assms(1)] abandoned_locals [OF assms(1,2)]
    assms(2)
  show ?thesis by (rule abandoned_worker)
next
  case spurious
  with assms(2) show ?thesis by (simp add: stranded_def abandoned_def)
qed

lemma abandoned_run:
  "reachable xq w s \<Longrightarrow> abandoned xq s \<Longrightarrow> run xq es s = Some t \<Longrightarrow> stranded xq s t"
proof (induction es arbitrary: s)
  case Nil
  then show ?case by (simp add: stranded_refl)
next
  case (Cons e es)
  from Cons.prems(3) obtain u where u: "fire xq e s = Some u" and r: "run xq es u = Some t"
    by (auto split: option.splits)
  from u have st: "qt_step xq s u" by (rule fire_step)
  with Cons.prems(1,2) have d: "stranded xq s u" by (rule abandoned_step)
  from Cons.prems(1) st have "reachable xq w u" by (rule reachable.step)
  moreover from d have "abandoned xq u" by (simp add: stranded_def)
  ultimately have "stranded xq u t" using r by (rule Cons.IH)
  with d show ?case by (rule stranded_trans)
qed

text \<open>
  C2. \<^verbatim>\<open>Stop\<close> is not graceful. From a reachable state in which \<^verbatim>\<open>m_bExit\<close> is set
  and the worker is at the loop test of line 118 (or has returned; or, if \<^verbatim>\<open>queue\<close> at
  line 128 is the local queue, is anywhere before the swap), whatever the threads do
  afterwards, no further item is passed to a callback or dropped, the world does not
  change, and \<^verbatim>\<open>m_queue\<close> only grows: every item that has been pushed and not
  consumed by then is in \<^verbatim>\<open>m_queue\<close> for ever. The loop of line 118 tests the flag
  before it looks at the queue, so the items enqueued before \<^verbatim>\<open>Stop\<close> are lost
  whenever the flag is set while the worker is between two rounds.
\<close>

theorem stop_abandons_queue:
  assumes "reachable xq w s" and "abandoned xq s" and "run xq es s = Some t"
  shows "abandoned xq t \<and> consumed t = consumed s \<and> world t = world s \<and>
    prefix (m_queue s) (m_queue t) \<and> pushed t = map fst (consumed s) @ m_queue t"
proof -
  from assms have st: "stranded xq s t" by (rule abandoned_run)
  from assms(1,3) have re: "reachable xq w t" by (rule run_reachable)
  from st have "abandoned xq t" by (simp add: stranded_def)
  with re have "in_flight t = m_queue t"
    by (simp add: in_flight_def abandoned_locals)
  with reachable_history_inv [OF re] st show ?thesis
    by (simp add: history_inv_def stranded_def)
qed

theorem stop_abandons_queue_witness:
  "\<exists>(s :: demo) t. reachable Member_queue [] s \<and> m_queue s = [1, 2, 3] \<and> cpc s 0 = In_Stop T_Join
     \<and> run Member_queue (work 1 @ [ClientStep 0] @ do_add 1 4) s = Some t
     \<and> cpc t 0 = C_Ret RVoid \<and> m_pThread t = Some Joined \<and> consumed t = [] \<and> world t = []
     \<and> pushed t = m_queue t \<and> prefix [1, 2, 3] (m_queue t)"
proof -
  from stop_early_state [of Member_queue] obtain s t
    where r: "run Member_queue stop_early (init_sys []) = Some s"
      and p: "m_bExit s" "wpc s = W_LoopTest" "m_queue s = [1, 2, 3]" "consumed s = []"
        "cpc s 0 = In_Stop T_Join"
      and rt: "run Member_queue (work 1 @ [ClientStep 0] @ do_add 1 4) s = Some t"
      and q: "cpc t 0 = C_Ret RVoid" "m_pThread t = Some Joined" "world t = []"
    by blast
  from r have re: "reachable Member_queue [] s" by (rule scenario_reachable)
  from p have a: "abandoned Member_queue s" by (simp add: abandoned_def)
  from stop_abandons_queue [OF re a rt] p q rt re
  have "reachable Member_queue [] s \<and> m_queue s = [1, 2, 3] \<and> cpc s 0 = In_Stop T_Join
     \<and> run Member_queue (work 1 @ [ClientStep 0] @ do_add 1 4) s = Some t
     \<and> cpc t 0 = C_Ret RVoid \<and> m_pThread t = Some Joined \<and> consumed t = [] \<and> world t = []
     \<and> pushed t = m_queue t \<and> prefix [1, 2, 3] (m_queue t)"
    by simp
  then show ?thesis by blast
qed

section \<open>Stop while the worker is at the loop test\<close>

text \<open>
  The whole of \<^verbatim>\<open>Stop\<close> against a worker at line 118: the owner's seven statements up
  to the \<^verbatim>\<open>join\<close>, the worker's loop test, which fails, and the \<^verbatim>\<open>join\<close>
  returning.
\<close>

lemma loop_head_joinable:
  assumes "reachable xq w s" and "wpc s = W_LoopTest"
  shows "m_pThread s = Some Joinable"
proof (cases "m_pThread s")
  case None
  with reachable_thread_inv [OF assms(1)] assms(2) show ?thesis by (simp add: thread_inv_def)
next
  case (Some th)
  with reachable_thread_inv [OF assms(1)] assms(2) show ?thesis
    by (cases th) (simp_all add: thread_inv_def)
qed

lemma stop_run:
  assumes "reachable xq w s" and "wpc s = W_LoopTest" and "outside (cpc s 0)"
    and "m_mutexThread s = None" and "fault s = None"
  shows "run xq (stop_signal @ work 1 @ [ClientStep 0]) s =
    Some (s\<lparr>m_pThread := Some Joined, m_cv := {}, m_bExit := True, wpc := W_Done,
      cpc := (cpc s)(0 := C_Ret RVoid)\<rparr>)"
  using assms(2-5) loop_head_joinable [OF assms(1,2)]
  by (simp add: stop_signal_def qt_ops guard_def)

text \<open>
  C14. A \<^verbatim>\<open>Stop\<close> that finds the worker at the loop test loses the queue. From every
  reachable state in which the worker is at the loop test of line 118, the owner is
  outside the object and \<^verbatim>\<open>m_mutexThread\<close> is free, the schedule in which the owner
  runs \<^verbatim>\<open>Stop\<close> up to the \<^verbatim>\<open>join\<close>, the worker runs one statement and the
  \<^verbatim>\<open>join\<close> returns is possible, and it ends in the state before with the exit flag
  set, the waiters notified, the thread joined and the thread function returned:
  \<^verbatim>\<open>m_queue\<close>, whatever it holds, is as it was, and nothing has been passed to the
  callback. Both scenarios of the specification have such schedules.
\<close>

theorem stop_at_loop_head:
  assumes "reachable xq w s" and "wpc s = W_LoopTest" and "outside (cpc s 0)"
    and "m_mutexThread s = None" and "fault s = None"
  shows "run xq (stop_signal @ work 1 @ [ClientStep 0]) s =
    Some (s\<lparr>m_pThread := Some Joined, m_cv := {}, m_bExit := True, wpc := W_Done,
      cpc := (cpc s)(0 := C_Ret RVoid)\<rparr>)"
  using assms by (rule stop_run)

theorem stop_at_loop_head_witness:
  "\<exists>(s :: demo) t. reachable Local_queue [] s \<and> m_queue s = [20] \<and> m_pFunc s = Some (tag_cb 1)
     \<and> dropped s = [10] \<and> delivered s = []
     \<and> run Local_queue (stop_signal @ work 1 @ [ClientStep 0]) s = Some t
     \<and> cpc t 0 = C_Ret RVoid \<and> wpc t = W_Done \<and> m_queue t = [20] \<and> delivered t = []
     \<and> world t = []"
proof -
  from second_scenario_state [of Local_queue] obtain s
    where r: "run Local_queue second_scenario (init_sys []) = Some s"
      and p: "wpc s = W_LoopTest" "m_mutexThread s = None" "fault s = None"
        "cpc s 0 = C_Ret RVoid"
      and q: "m_queue s = [20]" "m_pFunc s = Some (tag_cb 1)" "dropped s = [10]"
        "delivered s = []" "world s = []"
    by blast
  from r have re: "reachable Local_queue [] s" by (rule scenario_reachable)
  from p have o: "outside (cpc s 0)" by (simp add: outside_def)
  let ?t = "s\<lparr>m_pThread := Some Joined, m_cv := {}, m_bExit := True, wpc := W_Done,
      cpc := (cpc s)(0 := C_Ret RVoid)\<rparr>"
  from stop_at_loop_head [OF re p(1) o p(2,3)] q re
  have "reachable Local_queue [] s \<and> m_queue s = [20] \<and> m_pFunc s = Some (tag_cb 1)
     \<and> dropped s = [10] \<and> delivered s = []
     \<and> run Local_queue (stop_signal @ work 1 @ [ClientStep 0]) s = Some ?t
     \<and> cpc ?t 0 = C_Ret RVoid \<and> wpc ?t = W_Done \<and> m_queue ?t = [20] \<and> delivered ?t = []
     \<and> world ?t = []"
    by (simp add: delivered_def)
  then show ?thesis by blast
qed

section \<open>Stop while the worker waits: the exit path\<close>

text \<open>
  A worker that is woken out of \<^verbatim>\<open>m_cv.wait\<close> with \<^verbatim>\<open>m_bExit\<close> set takes the mutex
  (121), passes the predicate (123), takes the branch of line 126 and calls
  \<^verbatim>\<open>ProcessQueueData\<close> at line 128, still holding \<^verbatim>\<open>m_mutexThread\<close>: five
  statements to the loop test of line 149, the drain of what \<^verbatim>\<open>queue\<close> denotes, and
  the unlock of line 129.
\<close>

lemma exit_entry:
  assumes "wpc s = W_Waiting" and "Worker \<notin> m_cv s" and "m_bExit s"
    and "m_mutexThread s = None" and "fault s = None" and "m_pFunc s = Some f"
    and "m_mutexFunc s = None" and "w_data s = None"
  shows "run xq (work 5) s =
    Some (s\<lparr>m_mutexThread := Some Worker, wpc := W_Call Exit_path P_LoopTest\<rparr>)"
  using assms by (simp add: eval_nat_numeral qt_ops guard_def)

lemma exit_unlock:
  assumes "ready Exit_path q [] f u"
  shows "run xq (work 1) (u\<lparr>wpc := W_ExitUnlock\<rparr>) = Some (u\<lparr>m_mutexThread := None, wpc := W_Done\<rparr>)"
  using assms by (simp add: ready_def qt_ops)

lemma exit_run:
  assumes "wpc s = W_Waiting" and "Worker \<notin> m_cv s" and "m_bExit s"
    and "m_mutexThread s = None" and "fault s = None" and "m_pFunc s = Some f"
    and "m_mutexFunc s = None" and "w_data s = None"
    and "apply_all f (deref xq s) (world s) = Some w'"
  shows "\<exists>t. run xq (work (5 * length (deref xq s) + 7)) s = Some t \<and> wpc t = W_Done \<and>
    m_mutexThread t = None \<and> fault t = None \<and> deref xq t = [] \<and> w_data t = None \<and>
    world t = w' \<and> consumed t = consumed s @ map (\<lambda>x. (x, Some f)) (deref xq s)"
proof -
  let ?xs = "deref xq s"
  let ?t = "s\<lparr>m_mutexThread := Some Worker, wpc := W_Call Exit_path P_LoopTest\<rparr>"
  from assms(1-8) have t: "run xq (work 5) s = Some ?t" by (rule exit_entry)
  from assms(5-8) have "ready Exit_path (argument xq Exit_path) ?xs f ?t"
    by (simp add: ready_def)
  from drain_run [OF this] assms(9) obtain u
    where u: "run xq (work (5 * length ?xs + 1)) ?t = Some (u\<lparr>wpc := W_ExitUnlock\<rparr>)"
      "ready Exit_path xq [] f u" "world u = w'"
      "consumed u = consumed s @ map (\<lambda>x. (x, Some f)) ?xs"
    by auto
  from u(1) exit_unlock [OF u(2)]
  have "run xq (work ((5 * length ?xs + 1) + 1)) ?t = Some (u\<lparr>m_mutexThread := None, wpc := W_Done\<rparr>)"
    by (rule run_work_Some)
  with t have "run xq (work (5 + ((5 * length ?xs + 1) + 1))) s =
      Some (u\<lparr>m_mutexThread := None, wpc := W_Done\<rparr>)"
    by (rule run_work_Some)
  then have "run xq (work (5 * length ?xs + 7)) s = Some (u\<lparr>m_mutexThread := None, wpc := W_Done\<rparr>)"
    by (simp add: add.commute)
  with u(2-4) show ?thesis by (simp add: ready_def)
qed

lemma waiting_locals:
  assumes "reachable xq w s" and "wpc s = W_Waiting"
  shows "w_queue s = []" and "w_data s = None"
  using reachable_local_inv [OF assms(1)] assms(2) by (auto simp: local_inv_def)

text \<open>
  C15. The exit path delivers the queue if \<^verbatim>\<open>queue\<close> at line 128 denotes
  \<^verbatim>\<open>m_queue\<close>. From a reachable state in which the worker has been woken out of
  \<^verbatim>\<open>m_cv.wait\<close> with \<^verbatim>\<open>m_bExit\<close> set, both mutexes are free and a callback \<open>f\<close>
  is registered that throws on none of the items, \<open>5 * length (m_queue s) + 7\<close>
  statements of the worker end the thread function: every item of \<^verbatim>\<open>m_queue\<close> has
  been passed to \<open>f\<close> in order, the queue is empty, nothing is in flight and the mutex is
  free again.
\<close>

theorem exit_drain_member:
  assumes "reachable Member_queue w s" and "wpc s = W_Waiting" and "Worker \<notin> m_cv s"
    and "m_bExit s" and "m_mutexThread s = None" and "m_mutexFunc s = None"
    and "fault s = None" and "m_pFunc s = Some f"
    and "apply_all f (m_queue s) (world s) = Some w'"
  shows "\<exists>t. run Member_queue (work (5 * length (m_queue s) + 7)) s = Some t \<and> wpc t = W_Done \<and>
    m_mutexThread t = None \<and> m_queue t = [] \<and> in_flight t = [] \<and> world t = w' \<and>
    consumed t = consumed s @ map (\<lambda>x. (x, Some f)) (m_queue s)"
proof -
  from assms(1,2) have l: "w_queue s = []" "w_data s = None" by (rule waiting_locals)+
  from assms(9) have "apply_all f (deref Member_queue s) (world s) = Some w'" by simp
  from exit_run [OF assms(2-5) assms(7,8) assms(6) l(2) this] obtain u
    where u: "run Member_queue (work (5 * length (m_queue s) + 7)) s = Some u" "wpc u = W_Done"
      "m_mutexThread u = None" "m_queue u = []" "w_data u = None" "world u = w'"
      "consumed u = consumed s @ map (\<lambda>x. (x, Some f)) (m_queue s)"
    by auto
  from assms(1) u(1) have "reachable Member_queue w u" by (rule run_reachable)
  with u(2) have "w_queue u = []"
    using reachable_local_inv [of Member_queue w u] by (auto simp: local_inv_def)
  with u show ?thesis by (auto simp: in_flight_def)
qed

theorem exit_drain_member_witness:
  "\<exists>(s :: demo) t. reachable Member_queue [] s \<and> wpc s = W_Waiting \<and> m_bExit s \<and> m_queue s = [1]
     \<and> run Member_queue (work 12) s = Some t \<and> wpc t = W_Done \<and> m_queue t = []
     \<and> world t = [(0, 1)] \<and> consumed t = [(1, Some (tag_cb 0))]"
proof -
  from woken_for_exit_state [of Member_queue] obtain s
    where r: "run Member_queue woken_for_exit (init_sys []) = Some s"
      and p: "wpc s = W_Waiting" "Worker \<notin> m_cv s" "m_bExit s" "m_mutexThread s = None"
        "m_mutexFunc s = None" "fault s = None" "m_pFunc s = Some (tag_cb 0)"
      and q: "m_queue s = [1]" "world s = []" "consumed s = []"
    by blast
  from r have re: "reachable Member_queue [] s" by (rule scenario_reachable)
  from q have a: "apply_all (tag_cb 0) (m_queue s) (world s) = Some [(0, 1)]"
    by (simp add: tag_cb_def)
  from exit_drain_member [OF re p a] q obtain t
    where "run Member_queue (work 12) s = Some t" "wpc t = W_Done" "m_queue t = []"
      "world t = [(0, 1)]" "consumed t = [(1, Some (tag_cb 0))]"
    by auto
  with re p(1,3) q(1) show ?thesis by blast
qed

text \<open>
  C16. The exit path delivers nothing if \<^verbatim>\<open>queue\<close> at line 128 denotes the local
  queue of line 133. From a reachable state in which the worker has been woken out of
  \<^verbatim>\<open>m_cv.wait\<close> with \<^verbatim>\<open>m_bExit\<close> set and \<^verbatim>\<open>m_mutexThread\<close> free, seven
  statements of the worker (six if no callback is registered) end the thread function with
  \<^verbatim>\<open>m_queue\<close> as it was: the drain of line 128 finds the local queue empty, no item
  is passed to the callback, and what was enqueued before \<^verbatim>\<open>Stop\<close> stays in
  \<^verbatim>\<open>m_queue\<close>.
\<close>

theorem exit_drain_local:
  assumes "reachable Local_queue w s" and "wpc s = W_Waiting" and "Worker \<notin> m_cv s"
    and "m_bExit s" and "m_mutexThread s = None" and "fault s = None"
  shows "\<exists>t. run Local_queue (work (if m_pFunc s = None then 6 else 7)) s = Some t \<and>
    wpc t = W_Done \<and> m_mutexThread t = None \<and> m_queue t = m_queue s \<and>
    consumed t = consumed s \<and> world t = world s \<and> abandoned Local_queue t"
  using assms(2-6) waiting_locals [OF assms(1,2)]
  by (cases "m_pFunc s") (simp_all add: abandoned_def eval_nat_numeral qt_ops guard_def)

theorem exit_drain_local_witness:
  "\<exists>(s :: demo) t. reachable Local_queue [] s \<and> wpc s = W_Waiting \<and> m_bExit s \<and> m_queue s = [1]
     \<and> m_pFunc s = Some (tag_cb 0)
     \<and> run Local_queue (work 7) s = Some t \<and> wpc t = W_Done \<and> m_queue t = [1]
     \<and> world t = [] \<and> consumed t = []"
proof -
  from woken_for_exit_state [of Local_queue] obtain s
    where r: "run Local_queue woken_for_exit (init_sys []) = Some s"
      and p: "wpc s = W_Waiting" "Worker \<notin> m_cv s" "m_bExit s" "m_mutexThread s = None"
        "fault s = None"
      and q: "m_pFunc s = Some (tag_cb 0)" "m_queue s = [1]" "world s = []" "consumed s = []"
    by blast
  from r have re: "reachable Local_queue [] s" by (rule scenario_reachable)
  from exit_drain_local [OF re p] q obtain t
    where "run Local_queue (work 7) s = Some t" "wpc t = W_Done" "m_queue t = [1]"
      "world t = []" "consumed t = []"
    by auto
  with re p(1,3) q(1,2) show ?thesis by blast
qed

end
