(* ===== verification/QT_Progress.thy ===== *)
theory QT_Progress
  imports QT_Invariants QT_Scenarios
begin

text \<open>
  Absence of deadlock. A thread is enabled when the process has not ended with a fault and
  the thread's next statement is not blocked. The
  theorems show that in a reachable state a worker that has started and not finished is
  enabled, or is blocked by a client that is enabled, or waits on the condition variable
  with nothing to do; that an owner blocked in the \<^verbatim>\<open>join\<close> of \<^verbatim>\<open>Stop\<close> never
  waits for a system in which no thread can run; and that a worker with nothing to do is
  blocked, which a spurious wake-up does not change.
\<close>

section \<open>Enabled threads\<close>

definition worker_enabled :: "qref \<Rightarrow> ('a, 'w) sys \<Rightarrow> bool" where
  "worker_enabled xq s \<longleftrightarrow> fault s = None \<and> QueueProcessThread xq s \<noteq> None"

definition client_enabled :: "nat \<Rightarrow> ('a, 'w) sys \<Rightarrow> bool" where
  "client_enabled i s \<longleftrightarrow> fault s = None \<and> client_step True i s \<noteq> None"

text \<open>The worker waits for work: blocked on the condition variable, the queue empty, no
  stop requested, and no client about to notify.\<close>

definition idle :: "('a, 'w) sys \<Rightarrow> bool" where
  "idle s \<longleftrightarrow> wpc s = W_Waiting \<and> Worker \<in> m_cv s \<and> m_queue s = [] \<and> \<not> m_bExit s \<and>
     quiet (cpc s)"

lemmas enabled_defs = client_enabled_def client_step_def Stop_def AddQueueData_def
  RegisterQueueProcessFunc_def resume_def

lemma mutexThread_holder_enabled:
  "fault s = None \<Longrightarrow> holds_mutexThread_c (cpc s i) \<Longrightarrow> client_enabled i s"
  by (cases "cpc s i" rule: holds_mutexThread_c.cases) (simp_all add: enabled_defs)

lemma mutexFunc_holder_enabled:
  "fault s = None \<Longrightarrow> holds_mutexFunc_c (cpc s i) \<Longrightarrow> client_enabled i s"
  by (cases "cpc s i" rule: holds_mutexFunc_c.cases) (simp_all add: enabled_defs)

lemma notifier_enabled: "fault s = None \<Longrightarrow> will_notify (cpc s i) \<Longrightarrow> client_enabled i s"
  by (cases "cpc s i" rule: will_notify.cases) (simp_all add: enabled_defs)

lemmas holder_enabled = mutexThread_holder_enabled mutexFunc_holder_enabled notifier_enabled

text \<open>Where the worker can be blocked, and by what.\<close>

lemma worker_enabled_iff:
  "fault s = None \<Longrightarrow> worker_enabled xq s \<longleftrightarrow> (case wpc s of
      W_NotStarted \<Rightarrow> False
    | W_Done \<Rightarrow> False
    | W_Lock \<Rightarrow> m_mutexThread s = None
    | W_Relock \<Rightarrow> m_mutexThread s = None
    | W_Waiting \<Rightarrow> Worker \<notin> m_cv s
    | W_Call c P_LockFunc \<Rightarrow> m_mutexFunc s = None
    | W_Call c P_Call \<Rightarrow> m_pFunc s = None \<or> w_data s \<noteq> None
    | _ \<Rightarrow> True)"
  by (simp add: worker_enabled_def QueueProcessThread_def ProcessQueueData_def inside_def
      split: wpc.splits ppc.splits option.splits list.splits)

lemma mutexThread_holder:
  assumes "reachable xq w s" and "m_mutexThread s \<noteq> None" and "\<not> holds_mutexThread_w (wpc s)"
    and "fault s = None"
  shows "\<exists>i. client_enabled i s"
proof -
  from assms(2) obtain h where h: "m_mutexThread s = Some h" by auto
  with assms(1,3) obtain i where "h = Client i"
    by (cases h) (auto simp: mutexThread_worker)
  with h reachable_mutexThread_held [OF assms(1)] have "holds_mutexThread_c (cpc s i)"
    by (simp add: mutexThread_held_def)
  with assms(4) show ?thesis by (blast intro: holder_enabled)
qed

lemma mutexFunc_holder:
  assumes "reachable xq w s" and "m_mutexFunc s \<noteq> None" and "\<not> holds_mutexFunc_w (wpc s)"
    and "fault s = None"
  shows "\<exists>i. client_enabled i s"
proof -
  from assms(2) obtain h where h: "m_mutexFunc s = Some h" by auto
  with assms(1,3) obtain i where "h = Client i"
    by (cases h) (auto simp: mutexFunc_worker)
  with h reachable_mutexFunc_held [OF assms(1)] have "holds_mutexFunc_c (cpc s i)"
    by (simp add: mutexFunc_held_def)
  with assms(4) show ?thesis by (blast intro: holder_enabled)
qed

lemma waiting_worker:
  assumes "reachable xq w s" and "wpc s = W_Waiting" and "Worker \<in> m_cv s"
    and "fault s = None"
  shows "(\<exists>i. client_enabled i s) \<or> idle s"
proof (cases "quiet (cpc s)")
  case True
  with reachable_cv_inv [OF assms(1)] assms(2,3) show ?thesis
    by (simp add: cv_inv_def idle_def)
next
  case False
  then obtain i where "will_notify (cpc s i)" by (auto simp: quiet_def)
  with assms(4) show ?thesis by (blast intro: holder_enabled)
qed

lemma blocked_worker:
  assumes "reachable xq w s" and "wpc s \<noteq> W_NotStarted" and "wpc s \<noteq> W_Done"
    and "\<not> worker_enabled xq s" and "fault s = None"
  shows "(\<exists>i. client_enabled i s) \<or> idle s"
proof -
  from assms(2-5) consider "wpc s = W_Lock \<or> wpc s = W_Relock" "m_mutexThread s \<noteq> None"
    | "wpc s = W_Waiting" "Worker \<in> m_cv s"
    | c where "wpc s = W_Call c P_LockFunc" "m_mutexFunc s \<noteq> None"
    | c where "wpc s = W_Call c P_Call" "w_data s = None"
    by (auto simp: worker_enabled_iff split: wpc.splits ppc.splits)
  then show ?thesis
  proof cases
    case 1
    with assms(1,5) have "\<exists>i. client_enabled i s" by (auto intro: mutexThread_holder)
    then show ?thesis by simp
  next
    case 2
    with assms(1,5) show ?thesis by (simp add: waiting_worker)
  next
    case 3
    with assms(1,5) have "\<exists>i. client_enabled i s" by (auto intro: mutexFunc_holder)
    then show ?thesis by simp
  next
    case 4
    with reachable_local_inv [OF assms(1)] show ?thesis by (simp add: local_inv_def)
  qed
qed

text \<open>Behind line 87 the exit flag is set.\<close>

fun exit_requested :: "('a, 'w) cpc \<Rightarrow> bool" where
  "exit_requested (In_Stop T_Unlock) = True"
| "exit_requested (In_Stop T_Notify) = True"
| "exit_requested (In_Stop T_Joinable) = True"
| "exit_requested (In_Stop T_Join) = True"
| "exit_requested _ = False"

definition stop_inv :: "('a, 'w) sys \<Rightarrow> bool" where
  "stop_inv s \<longleftrightarrow> (\<forall>i. exit_requested (cpc s i) \<longrightarrow> m_bExit s)"

lemma exit_requested_entry [simp]: "\<not> exit_requested (entry e)"
  by (cases e) (simp_all add: entry_def Start_func_def)

lemma exit_requested_after_Register [simp]: "\<not> exit_requested (after_Register k v)"
  by (simp add: after_Register_def)

lemma exit_requested_outside [simp]: "outside c \<Longrightarrow> \<not> exit_requested c"
  by (cases c) (simp_all add: outside_def)

lemma stop_invD: "stop_inv s \<Longrightarrow> exit_requested (cpc s i) \<longrightarrow> m_bExit s"
  by (auto simp: stop_inv_def)

lemma reachable_stop_inv: "reachable xq w s \<Longrightarrow> stop_inv s"
proof (induction rule: reachable_invariant)
  case init
  show ?case by (simp add: stop_inv_def)
next
  case (call s i c)
  then show ?case by (auto simp: stop_inv_def)
next
  case (client s t ok i)
  from \<open>client_stmt ok i s t\<close> stop_invD [OF \<open>stop_inv s\<close>, of i] \<open>stop_inv s\<close>
  show ?case
    by (induction rule: client_stmt.induct) (auto simp: stop_inv_def)
next
  case (worker s t)
  from \<open>worker_stmt xq s t\<close> \<open>stop_inv s\<close> show ?case
    by (induction rule: worker_stmt.induct) (simp_all add: stop_inv_def)
next
  case (spurious s)
  then show ?case by (simp add: stop_inv_def)
qed

section \<open>No deadlock\<close>

text \<open>
  C7. A worker that has started and not finished is never stuck. In every reachable state
  without fault in which the thread function runs, the worker's next statement is enabled,
  or some client's next statement is enabled, or the worker waits for work: it is blocked
  in \<^verbatim>\<open>m_cv.wait\<close> with the queue empty, no stop requested and no notification
  pending. A worker blocked on a mutex is blocked by a client inside the critical section,
  which can run.
\<close>

theorem worker_not_stuck:
  assumes "reachable xq w s" and "wpc s \<noteq> W_NotStarted" and "wpc s \<noteq> W_Done"
    and "fault s = None"
  shows "worker_enabled xq s \<or> (\<exists>i. client_enabled i s) \<or> idle s"
  using blocked_worker [OF assms(1-3) _ assms(4)] by blast

theorem worker_not_stuck_witness:
  "\<exists>s :: demo. reachable Member_queue [] s \<and> wpc s = W_Waiting \<and> Worker \<in> m_cv s
     \<and> \<not> worker_enabled Member_queue s \<and> \<not> idle s \<and> (\<exists>i. client_enabled i s)"
proof -
  from unnotified_state [of Member_queue] obtain s
    where r: "run Member_queue unnotified (init_sys []) = Some s"
      and p: "wpc s = W_Waiting" "Worker \<in> m_cv s" "m_queue s = [1]" "fault s = None"
    by blast
  from r have re: "reachable Member_queue [] s" by (rule scenario_reachable)
  from p have n: "\<not> worker_enabled Member_queue s" "\<not> idle s"
    by (simp_all add: worker_enabled_iff idle_def)
  from worker_not_stuck [OF re] p n re
  have "reachable Member_queue [] s \<and> wpc s = W_Waiting \<and> Worker \<in> m_cv s
     \<and> \<not> worker_enabled Member_queue s \<and> \<not> idle s \<and> (\<exists>i. client_enabled i s)"
    by simp
  then show ?thesis ..
qed

text \<open>
  C26. \<^verbatim>\<open>Stop\<close> does not wait for a dead system. In every reachable state without fault
  in which the owner is at the \<^verbatim>\<open>join\<close> of line 93, the owner, the worker or some
  other client can run its next statement: the exit flag is set, so the worker does not
  wait for work.
\<close>

theorem join_not_stuck:
  assumes "reachable xq w s" and "cpc s 0 = In_Stop T_Join" and "fault s = None"
  shows "(wpc s = W_Done \<longrightarrow> client_enabled 0 s) \<and>
    (worker_enabled xq s \<or> (\<exists>i. client_enabled i s))"
proof (cases "wpc s = W_Done")
  case True
  with assms(2,3) have "client_enabled 0 s"
    by (simp add: client_enabled_def client_step_def Stop_def resume_def)
  then show ?thesis by blast
next
  case False
  from thread_inv_client(1) [OF assms(1), of 0] thread_inv_client(2) [OF assms(1)] assms(2)
  have "wpc s \<noteq> W_NotStarted"
    by (auto simp: client_thread_ok_def)
  with assms(1,3) False have "worker_enabled xq s \<or> (\<exists>i. client_enabled i s) \<or> idle s"
    using blocked_worker [of xq w s] by blast
  moreover from stop_invD [OF reachable_stop_inv [OF assms(1)], of 0] assms(2) have "\<not> idle s"
    by (simp add: idle_def)
  ultimately show ?thesis using False by blast
qed

theorem join_not_stuck_witness:
  "\<exists>s :: demo. reachable Member_queue [] s \<and> cpc s 0 = In_Stop T_Join \<and> wpc s = W_Waiting
     \<and> \<not> client_enabled 0 s \<and> (worker_enabled Member_queue s \<or> (\<exists>i. client_enabled i s))"
proof -
  from joining_state [of Member_queue] obtain s
    where r: "run Member_queue joining (init_sys []) = Some s"
      and p: "cpc s 0 = In_Stop T_Join" "wpc s = W_Waiting" "fault s = None"
    by blast
  from r have re: "reachable Member_queue [] s" by (rule scenario_reachable)
  from p have n: "\<not> client_enabled 0 s"
    by (simp add: client_enabled_def client_step_def Stop_def resume_def)
  from join_not_stuck [OF re p(1,3)] p n re
  have "reachable Member_queue [] s \<and> cpc s 0 = In_Stop T_Join \<and> wpc s = W_Waiting
     \<and> \<not> client_enabled 0 s \<and> (worker_enabled Member_queue s \<or> (\<exists>i. client_enabled i s))"
    by simp
  then show ?thesis ..
qed

section \<open>Waiting\<close>

text \<open>
  C31. The idle worker blocks and does not spin. In a state in which the worker waits for
  work (it is in the set of the waiting threads, the queue is empty, no stop is requested)
  and \<^verbatim>\<open>m_mutexThread\<close> is free, the worker has no statement to run; and after a
  spurious wake-up four statements (lock, the predicate of line 123, which fails, release
  and block) bring the system back to the very same state: a spurious wake-up delivers
  nothing and changes nothing.
\<close>

theorem idle_is_blocking:
  assumes "idle s" and "m_mutexThread s = None" and "fault s = None"
  shows "fire xq WorkerStep s = None \<and> run xq (SpuriousWake # work 4) s = Some s"
proof -
  from assms(1) have "insert Worker (m_cv s) = m_cv s" by (auto simp: idle_def)
  with assms show ?thesis
    by (cases s) (auto simp add: idle_def qt_ops guard_def eval_nat_numeral insert_absorb)
qed

theorem idle_is_blocking_witness:
  "\<exists>s :: demo. reachable Member_queue [] s \<and> wpc s = W_Waiting \<and> delivered s = [1, 2, 3]
     \<and> fire Member_queue WorkerStep s = None
     \<and> run Member_queue (SpuriousWake # work 4) s = Some s"
proof -
  from idling_state [of Member_queue] obtain s
    where r: "run Member_queue idling (init_sys []) = Some s"
      and o: "\<forall>i. outside (cpc s i)"
      and p: "wpc s = W_Waiting" "Worker \<in> m_cv s" "m_queue s = []" "\<not> m_bExit s"
        "m_mutexThread s = None" "fault s = None" "delivered s = [1, 2, 3]"
    by blast
  from r have re: "reachable Member_queue [] s" by (rule scenario_reachable)
  from o have "quiet (cpc s)" by (simp add: quiet_def)
  with p have i: "idle s" by (simp add: idle_def)
  from idle_is_blocking [OF i p(5,6), of Member_queue] p re
  have "reachable Member_queue [] s \<and> wpc s = W_Waiting \<and> delivered s = [1, 2, 3]
     \<and> fire Member_queue WorkerStep s = None
     \<and> run Member_queue (SpuriousWake # work 4) s = Some s"
    by simp
  then show ?thesis ..
qed

end
