(* ===== verification/QT_Termination.thy ===== *)
theory QT_Termination
  imports QT_Progress QT_Drain
begin

text \<open>
  Termination of the worker's round and of \<^verbatim>\<open>Stop\<close>. When no client is inside a
  critical section and the callback does not throw, the worker, run alone from any
  reachable state, finishes what it is doing after a bounded number of statements: it is
  then at the loop test of line 118 with no stop requested, blocked in \<^verbatim>\<open>m_cv.wait\<close>,
  or behind the end of the thread function. \<open>todo\<close> bounds the number of statements: it
  is a ranking function on the program points of the worker, weighted by the number of
  items still in its queues. With it, a call of \<^verbatim>\<open>Stop\<close> by the owner returns on the
  schedule on which the worker and the owner take turns, from wherever the worker is.
\<close>

section \<open>A ranking function for the worker\<close>

text \<open>The items the worker may still have to process: its local queue and \<^verbatim>\<open>m_queue\<close>.\<close>

definition load :: "('a, 'w) sys \<Rightarrow> nat" where
  "load s = length (w_queue s) + length (m_queue s)"

text \<open>
  An iteration of the drain loop is at most six ranks: the points of
  \<^verbatim>\<open>ProcessQueueData\<close> in the reverse of the order in which the loop goes through them,
  the pop being the one that takes an item off the load.
\<close>

fun ppc_rank :: "ppc \<Rightarrow> nat" where
  "ppc_rank P_Pop = 0"
| "ppc_rank P_LoopTest = 1"
| "ppc_rank P_Unlock = 2"
| "ppc_rank P_Call = 3"
| "ppc_rank P_LockFunc = 4"
| "ppc_rank P_CheckFunc = 5"

text \<open>
  \<open>steps_left p l e b\<close>: a bound on the statements the worker runs from the program point
  \<open>p\<close> until it rests, with \<open>l\<close> items in its queues, the exit flag \<open>e\<close>, and \<open>b\<close>
  saying that it is in the set of the waiting threads.
\<close>

fun steps_left :: "wpc \<Rightarrow> nat \<Rightarrow> bool \<Rightarrow> bool \<Rightarrow> nat" where
  "steps_left W_NotStarted l e b = 0"
| "steps_left W_Done l e b = 0"
| "steps_left W_LoopTest l e b = (if e then 1 else 0)"
| "steps_left W_Waiting l e b = (if b then 0 else 6 * l + 14)"
| "steps_left W_Lock l e b = 6 * l + 13"
| "steps_left W_Relock l e b = 6 * l + 13"
| "steps_left W_WaitPred l e b = 6 * l + 12"
| "steps_left W_WaitBlock l e b = 1"
| "steps_left W_CheckExit l e b = 6 * l + 11"
| "steps_left W_Swap l e b = 6 * l + 10"
| "steps_left W_Unlock l e b = 6 * l + 9"
| "steps_left (W_Call c p) l e b = 6 * l + ppc_rank p + 3"
| "steps_left W_ScopeEnd l e b = 2"
| "steps_left W_ExitUnlock l e b = 1"

definition todo :: "('a, 'w) sys \<Rightarrow> nat" where
  "todo s = steps_left (wpc s) (load s) (m_bExit s) (Worker \<in> m_cv s)"

text \<open>Where the ranking is zero: the worker is between two rounds, blocked, or gone.\<close>

lemma todo_0:
  "todo s = 0 \<longleftrightarrow> wpc s = W_NotStarted \<or> wpc s = W_Done \<or> (wpc s = W_LoopTest \<and> \<not> m_bExit s) \<or>
     (wpc s = W_Waiting \<and> Worker \<in> m_cv s)"
  by (cases "wpc s") (simp_all add: todo_def)

lemma steps_left_return [simp]: "2 < k \<Longrightarrow> steps_left (return_to c) l e b < k + m"
  by (cases c) simp_all

section \<open>The worker alone\<close>

text \<open>
  \<open>calm s\<close>: the process has not ended with a fault, no client is inside a critical
  section of either mutex, and the registered callback, if any, throws on no item.
\<close>

definition total :: "('a, 'w) callback \<Rightarrow> bool" where
  "total f \<longleftrightarrow> (\<forall>x v. f x v \<noteq> None)"

definition calm :: "('a, 'w) sys \<Rightarrow> bool" where
  "calm s \<longleftrightarrow> fault s = None \<and>
     (\<forall>i. \<not> holds_mutexThread_c (cpc s i) \<and> \<not> holds_mutexFunc_c (cpc s i)) \<and>
     (\<forall>f. m_pFunc s = Some f \<longrightarrow> total f)"

lemma totalD: "total f \<Longrightarrow> f x v = None \<Longrightarrow> False"
  unfolding total_def by blast

text \<open>What a statement of the worker leaves alone.\<close>

definition worker_frame :: "('a, 'w) sys \<Rightarrow> ('a, 'w) sys \<Rightarrow> bool" where
  "worker_frame s t \<longleftrightarrow> cpc t = cpc s \<and> m_bExit t = m_bExit s \<and> m_pThread t = m_pThread s \<and>
     m_pFunc t = m_pFunc s \<and> pushed t = pushed s"

lemma worker_frame_refl [simp]: "worker_frame s s"
  by (simp add: worker_frame_def)

lemma worker_frame_trans: "worker_frame s t \<Longrightarrow> worker_frame t u \<Longrightarrow> worker_frame s u"
  by (simp add: worker_frame_def)

lemma calm_free:
  assumes "reachable xq w s" and "calm s"
  shows "\<not> holds_mutexThread_w (wpc s) \<longrightarrow> m_mutexThread s = None"
    and "\<not> holds_mutexFunc_w (wpc s) \<longrightarrow> m_mutexFunc s = None"
proof -
  from assms(2) have c: "\<not> holds_mutexThread_c (cpc s i)" "\<not> holds_mutexFunc_c (cpc s i)" for i
    by (simp_all add: calm_def)
  show "\<not> holds_mutexThread_w (wpc s) \<longrightarrow> m_mutexThread s = None"
  proof (cases "m_mutexThread s")
    case (Some h)
    with reachable_mutexThread_held [OF assms(1)] c(1) show ?thesis
      by (cases h) (auto simp: mutexThread_held_def)
  qed simp
  show "\<not> holds_mutexFunc_w (wpc s) \<longrightarrow> m_mutexFunc s = None"
  proof (cases "m_mutexFunc s")
    case (Some h)
    with reachable_mutexFunc_held [OF assms(1)] c(2) show ?thesis
      by (cases h) (auto simp: mutexFunc_held_def)
  qed simp
qed

lemma calm_enabled:
  assumes "reachable xq w s" and "calm s" and "todo s \<noteq> 0"
  shows "worker_enabled xq s"
proof -
  from assms(2) have f: "fault s = None" by (simp add: calm_def)
  from assms(3) calm_free [OF assms(1,2)] reachable_local_inv [OF assms(1)]
  show ?thesis
    unfolding worker_enabled_iff [OF f]
    by (auto simp: todo_0 local_inv_def split: wpc.splits ppc.splits)
qed

lemma calm_worker_stmt:
  assumes "worker_stmt xq s t" and "local_inv xq s" and "calm s" and "todo s \<noteq> 0"
  shows "todo t < todo s \<and> calm t \<and> worker_frame s t"
  using assms
  by (induction rule: worker_stmt.induct)
     (auto simp: todo_def load_def calm_def local_inv_def worker_frame_def deref_def
           split: qref.splits dest: totalD)

lemma calm_step:
  assumes "reachable xq w s" and "calm s" and "todo s \<noteq> 0"
  shows "\<exists>t. fire xq WorkerStep s = Some t \<and> todo t < todo s \<and> calm t \<and> worker_frame s t"
proof -
  from assms have "worker_enabled xq s" by (rule calm_enabled)
  then obtain t where t: "QueueProcessThread xq s = Some t" and f: "fault s = None"
    by (auto simp: worker_enabled_def)
  from t have "worker_stmt xq s t" by (simp add: worker_step_iff)
  from calm_worker_stmt [OF this reachable_local_inv [OF assms(1)] assms(2,3)] t f
  show ?thesis by (simp add: fire_def)
qed

lemma calm_run:
  assumes "reachable xq w s" and "calm s"
  shows "\<exists>n t. n \<le> todo s \<and> run xq (work n) s = Some t \<and> todo t = 0 \<and> calm t \<and>
    worker_frame s t"
  using assms
proof (induction "todo s" arbitrary: s rule: less_induct)
  case less
  show ?case
  proof (cases "todo s = 0")
    case True
    with less.prems(2) have "0 \<le> todo s \<and> run xq (work 0) s = Some s \<and> todo s = 0 \<and> calm s \<and>
        worker_frame s s"
      by simp
    then show ?thesis by blast
  next
    case False
    from calm_step [OF less.prems False] obtain u
      where u: "fire xq WorkerStep s = Some u" "todo u < todo s" "calm u" "worker_frame s u"
      by blast
    from less.prems(1) u(1) have "reachable xq w u"
      by (blast intro: reachable.step fire_step)
    from less.hyps [OF u(2) this u(3)] obtain n t
      where t: "n \<le> todo u" "run xq (work n) u = Some t" "todo t = 0" "calm t"
        "worker_frame u t"
      by blast
    from u(1) t(2) have "run xq (work (Suc n)) s = Some t" by simp
    moreover from t(1) u(2) have "Suc n \<le> todo s" by simp
    moreover from u(4) t(5) have "worker_frame s t" by (rule worker_frame_trans)
    ultimately show ?thesis using t(3,4) by blast
  qed
qed

text \<open>
  C18. The worker finishes its round. From every reachable state without fault in which
  no client is inside a critical section of \<^verbatim>\<open>m_mutexThread\<close> or \<^verbatim>\<open>m_mutexFunc\<close> and
  the registered callback throws on no item, the worker, run alone, is never blocked and
  after at most \<open>todo s\<close> statements is at the loop test of line 118 with no stop
  requested, or blocked in \<^verbatim>\<open>m_cv.wait\<close>, or behind the end of the thread function (or
  was never started); no fault has occurred, and the clients, the exit flag, the callback
  and the items pushed are as before. The bound is six statements per item in the worker's queues and
  at most fourteen more.
\<close>

theorem worker_finishes:
  assumes "reachable xq w s" and "calm s"
  shows "\<exists>n t. n \<le> todo s \<and> run xq (work n) s = Some t \<and> fault t = None \<and>
    (wpc t = W_NotStarted \<or> wpc t = W_Done \<or> (wpc t = W_LoopTest \<and> \<not> m_bExit t) \<or>
     (wpc t = W_Waiting \<and> Worker \<in> m_cv t)) \<and>
    cpc t = cpc s \<and> m_bExit t = m_bExit s \<and> m_pFunc t = m_pFunc s \<and> pushed t = pushed s"
proof -
  from calm_run [OF assms] obtain n t
    where "n \<le> todo s" "run xq (work n) s = Some t" "todo t = 0" "calm t" "worker_frame s t"
    by blast
  then have "n \<le> todo s \<and> run xq (work n) s = Some t \<and> fault t = None \<and>
    (wpc t = W_NotStarted \<or> wpc t = W_Done \<or> (wpc t = W_LoopTest \<and> \<not> m_bExit t) \<or>
     (wpc t = W_Waiting \<and> Worker \<in> m_cv t)) \<and>
    cpc t = cpc s \<and> m_bExit t = m_bExit s \<and> m_pFunc t = m_pFunc s \<and> pushed t = pushed s"
    by (simp add: todo_0 calm_def worker_frame_def)
  then show ?thesis by blast
qed

text \<open>
  Where the worker ends when a stop is requested and nobody is about to notify: behind the
  end of the thread function.
\<close>

lemma calm_quiet:
  assumes "reachable xq w s" and "calm s" and "cpc s 0 = In_Stop T_Join"
  shows "quiet (cpc s)"
  unfolding quiet_def
proof
  fix i
  from assms(2) have h: "\<not> holds_mutexThread_c (cpc s i)" by (simp add: calm_def)
  from thread_inv_client(1) [OF assms(1), of i] have o: "owner_only (cpc s i) \<longrightarrow> i = 0"
    by (simp add: client_thread_ok_def)
  show "\<not> will_notify (cpc s i)"
  proof
    assume "will_notify (cpc s i)"
    with h o assms(3) show False
      by (cases "cpc s i" rule: will_notify.cases) auto
  qed
qed

lemma rest_after_stop:
  assumes "reachable xq w s" and "calm s" and "cpc s 0 = In_Stop T_Join" and "m_bExit s"
    and "todo s = 0"
  shows "wpc s = W_Done"
proof -
  from thread_inv_client(1) [OF assms(1), of 0] thread_inv_client(2) [OF assms(1)] assms(3)
  have "wpc s \<noteq> W_NotStarted"
    by (auto simp: client_thread_ok_def)
  moreover from reachable_cv_inv [OF assms(1)] calm_quiet [OF assms(1-3)] assms(4)
  have "Worker \<notin> m_cv s" by (auto simp: cv_inv_def)
  ultimately show ?thesis using assms(4,5) by (simp add: todo_0)
qed

theorem worker_finishes_witness:
  "\<exists>(s :: demo) n t. reachable Member_queue [] s \<and> wpc s = W_Waiting \<and> m_queue s = [1]
     \<and> m_bExit s \<and> n \<le> 20 \<and> run Member_queue (work n) s = Some t \<and> fault t = None
     \<and> wpc t = W_Done"
proof -
  from woken_for_exit_clients [of Member_queue] obtain s
    where r: "run Member_queue woken_for_exit (init_sys []) = Some s"
      and p: "wpc s = W_Waiting" "Worker \<notin> m_cv s" "m_bExit s" "m_queue s = [1]"
        "w_queue s = []" "m_pFunc s = Some (tag_cb 0)" "fault s = None"
        "cpc s 0 = In_Stop T_Join"
      and o: "\<forall>i. i \<noteq> 0 \<longrightarrow> outside (cpc s i)"
    by blast
  from r have re: "reachable Member_queue [] s" by (rule scenario_reachable)
  have "\<not> holds_mutexThread_c (cpc s i) \<and> \<not> holds_mutexFunc_c (cpc s i)" for i
    using o p(8) by (cases "i = 0") simp_all
  with p have c: "calm s" by (simp add: calm_def total_def tag_cb_def)
  from p have d: "todo s = 20" by (simp add: todo_def load_def)
  from worker_finishes [OF re c] d p obtain n t
    where t: "n \<le> 20" "run Member_queue (work n) s = Some t" "fault t = None"
      "wpc t = W_NotStarted \<or> wpc t = W_Done \<or> wpc t = W_LoopTest \<and> \<not> m_bExit t \<or>
        wpc t = W_Waiting \<and> Worker \<in> m_cv t"
      "cpc t = cpc s" "m_bExit t" "m_pFunc t = m_pFunc s"
    by auto
  from re t(2) have rt: "reachable Member_queue [] t" by (rule run_reachable)
  from c t(3,5,7) have ct: "calm t" by (simp add: calm_def)
  from t(4) have "todo t = 0" by (simp add: todo_0)
  with rt ct t(5,6) p(8) have "wpc t = W_Done" by (simp add: rest_after_stop)
  with re p t show ?thesis by blast
qed

section \<open>Stop returns\<close>

text \<open>\<open>own n\<close> is \<open>n\<close> statements of the owner.\<close>

definition own :: "nat \<Rightarrow> ('a, 'w) event list" where
  "own n = replicate n (ClientStep 0)"

text \<open>
  \<^verbatim>\<open>Stop\<close> from its first statement, against a worker that rests: without a thread
  object it returns at line 83; with a thread that has been joined it sets the flag,
  notifies and returns at line 91; otherwise it gets to the \<^verbatim>\<open>join\<close> of line 93.
\<close>

lemmas own_ops = own_def eval_nat_numeral qt_ops guard_def

lemma stop_without_thread:
  assumes "cpc s 0 = In_Stop T_Check" and "m_pThread s = None" and "fault s = None"
  shows "run xq (own 1) s = Some (s\<lparr>cpc := (cpc s)(0 := C_Ret RVoid)\<rparr>)"
  using assms by (simp add: own_ops)

lemma stop_joined:
  assumes "cpc s 0 = In_Stop T_Check" and "m_pThread s = Some Joined"
    and "m_mutexThread s = None" and "fault s = None"
  shows "run xq (own 6) s = Some (s\<lparr>m_cv := {}, m_bExit := True, cpc := (cpc s)(0 := C_Ret RVoid)\<rparr>)"
  using assms by (simp add: own_ops)

lemma stop_signals:
  assumes "cpc s 0 = In_Stop T_Check" and "m_pThread s = Some Joinable"
    and "m_mutexThread s = None" and "fault s = None"
  shows "run xq (own 6) s =
    Some (s\<lparr>m_cv := {}, m_bExit := True, cpc := (cpc s)(0 := In_Stop T_Join)\<rparr>)"
  using assms by (simp add: own_ops)

lemma join_returns:
  assumes "reachable xq w s" and "calm s" and "cpc s 0 = In_Stop T_Join" and "m_bExit s"
  shows "\<exists>n t. run xq (work n @ own 1) s = Some t \<and> cpc t 0 = C_Ret RVoid \<and> wpc t = W_Done \<and>
    fault t = None \<and> pushed t = pushed s \<and> (\<forall>i. i \<noteq> 0 \<longrightarrow> cpc t i = cpc s i)"
proof -
  from calm_run [OF assms(1,2)] obtain n u
    where u: "run xq (work n) s = Some u" "todo u = 0" "calm u" "worker_frame s u"
    by blast
  from assms(1) u(1) have "reachable xq w u" by (rule run_reachable)
  with u(2-4) assms(3,4) have d: "wpc u = W_Done"
    by (intro rest_after_stop) (simp_all add: worker_frame_def)
  let ?t = "u\<lparr>m_pThread := Some Joined, cpc := (cpc u)(0 := C_Ret RVoid)\<rparr>"
  from d u(3,4) assms(3) have "run xq (own 1) u = Some ?t"
    by (simp add: own_ops calm_def worker_frame_def)
  with u(1) have "run xq (work n @ own 1) s = Some ?t" by (simp add: run_append)
  moreover from d u(3,4) have "cpc ?t 0 = C_Ret RVoid" "wpc ?t = W_Done" "fault ?t = None"
    "pushed ?t = pushed s" "\<forall>i. i \<noteq> 0 \<longrightarrow> cpc ?t i = cpc s i"
    by (simp_all add: calm_def worker_frame_def)
  ultimately show ?thesis by blast
qed

lemma rest_free:
  assumes "reachable xq w s" and "calm s" and "todo s = 0"
  shows "m_mutexThread s = None"
  using calm_free(1) [OF assms(1,2)] assms(3) by (auto simp: todo_0)

lemma stop_from_rest:
  assumes "reachable xq w s" and "calm s" and "todo s = 0" and "cpc s 0 = In_Stop T_Check"
  shows "\<exists>es t. run xq es s = Some t \<and> cpc t 0 = C_Ret RVoid \<and> fault t = None \<and>
    (wpc t = W_NotStarted \<or> wpc t = W_Done) \<and> pushed t = pushed s \<and>
    (\<forall>i. i \<noteq> 0 \<longrightarrow> cpc t i = cpc s i)"
proof -
  from assms(2) have f: "fault s = None" by (simp add: calm_def)
  from assms(1-3) have m: "m_mutexThread s = None" by (rule rest_free)
  note t = reachable_thread_inv [OF assms(1)]
  consider "m_pThread s = None" | "m_pThread s = Some Joined" | "m_pThread s = Some Joinable"
    by (cases "m_pThread s"; cases "the (m_pThread s)") auto
  then show ?thesis
  proof cases
    case 1
    with t have "wpc s = W_NotStarted" by (simp add: thread_inv_def)
    with stop_without_thread [OF assms(4) 1 f, of xq] f show ?thesis
      by (intro exI [of _ "own 1"]) simp
  next
    case 2
    with t have "wpc s = W_Done" by (simp add: thread_inv_def)
    with stop_joined [OF assms(4) 2 m f, of xq] f show ?thesis
      by (intro exI [of _ "own 6"]) simp
  next
    case 3
    let ?u = "s\<lparr>m_cv := {}, m_bExit := True, cpc := (cpc s)(0 := In_Stop T_Join)\<rparr>"
    from assms(4) 3 m f have u: "run xq (own 6) s = Some ?u" by (rule stop_signals)
    with assms(1) have "reachable xq w ?u" by (rule run_reachable)
    moreover from assms(2) have "calm ?u" by (simp add: calm_def)
    ultimately obtain n v
      where v: "run xq (work n @ own 1) ?u = Some v" "cpc v 0 = C_Ret RVoid" "wpc v = W_Done"
        "fault v = None" "pushed v = pushed ?u" "\<forall>i. i \<noteq> 0 \<longrightarrow> cpc v i = cpc ?u i"
      using join_returns [of xq w ?u] by auto
    from u v(1) have "run xq (own 6 @ work n @ own 1) s = Some v" by (simp add: run_append)
    with v(2-6) show ?thesis by (intro exI [of _ "own 6 @ work n @ own 1"]) simp
  qed
qed

text \<open>
  C8. \<^verbatim>\<open>Stop\<close> returns. From every reachable state without fault in which the owner
  is outside the object, no client is inside a critical section and the registered
  callback throws on no item, wherever the worker is and whatever the queues hold, a call
  of \<^verbatim>\<open>Stop\<close> by the owner returns on a schedule in which only the worker and the
  owner run: the worker finishes its round, the owner sets \<^verbatim>\<open>m_bExit\<close>, notifies and
  reaches the \<^verbatim>\<open>join\<close>, the worker leaves the thread function, and the \<^verbatim>\<open>join\<close>
  returns. No fault occurs, the thread function has returned (or was never started), and the
  other clients have not moved.
\<close>

theorem stop_can_return:
  assumes "reachable xq w s" and "calm s" and "outside (cpc s 0)"
  shows "\<exists>es t. run xq (Invoke 0 Call_Stop # es) s = Some t \<and> cpc t 0 = C_Ret RVoid \<and>
    fault t = None \<and> (wpc t = W_NotStarted \<or> wpc t = W_Done) \<and> pushed t = pushed s \<and>
    (\<forall>i. i \<noteq> 0 \<longrightarrow> cpc t i = cpc s i)"
proof -
  let ?s0 = "s\<lparr>cpc := (cpc s)(0 := In_Stop T_Check)\<rparr>"
  from assms(2,3) have i: "fire xq (Invoke 0 Call_Stop) s = Some ?s0"
    by (simp add: calm_def qt_ops)
  with assms(1) have r0: "reachable xq w ?s0" by (blast intro: reachable.step fire_step)
  from assms(2) have c0: "calm ?s0" by (simp add: calm_def)
  from calm_run [OF r0 c0] obtain n u
    where u: "run xq (work n) ?s0 = Some u" "todo u = 0" "calm u" "worker_frame ?s0 u"
    by blast
  from r0 u(1) have ru: "reachable xq w u" by (rule run_reachable)
  from u(4) have "cpc u 0 = In_Stop T_Check" by (simp add: worker_frame_def)
  from stop_from_rest [OF ru u(3,2) this] obtain es t
    where t: "run xq es u = Some t" "cpc t 0 = C_Ret RVoid" "fault t = None"
      "wpc t = W_NotStarted \<or> wpc t = W_Done" "pushed t = pushed u"
      "\<forall>i. i \<noteq> 0 \<longrightarrow> cpc t i = cpc u i"
    by blast
  from i u(1) t(1) have "run xq (Invoke 0 Call_Stop # (work n @ es)) s = Some t"
    by (simp add: run_append)
  with t(2-6) u(4) show ?thesis
    by (intro exI [of _ "work n @ es"]) (simp add: worker_frame_def)
qed

theorem stop_can_return_witness:
  "\<exists>(s :: demo) es t. reachable Member_queue [] s \<and> wpc s = W_Call Loop_body P_LoopTest
     \<and> w_queue s = [1, 2, 3] \<and> run Member_queue (Invoke 0 Call_Stop # es) s = Some t
     \<and> cpc t 0 = C_Ret RVoid \<and> fault t = None \<and> (wpc t = W_NotStarted \<or> wpc t = W_Done)
     \<and> pushed t = [1, 2, 3]"
proof -
  from batch_idle [of Member_queue] obtain s
    where r: "run Member_queue batch (init_sys []) = Some s"
      and o: "\<forall>i. outside (cpc s i)"
      and p: "wpc s = W_Call Loop_body P_LoopTest" "w_queue s = [1, 2, 3]"
        "m_pFunc s = Some (tag_cb 0)" "fault s = None" "pushed s = [1, 2, 3]"
    by blast
  from r have re: "reachable Member_queue [] s" by (rule scenario_reachable)
  from o p have c: "calm s" by (simp add: calm_def total_def tag_cb_def)
  from o have "outside (cpc s 0)" by simp
  from stop_can_return [OF re c this] p obtain es t
    where "run Member_queue (Invoke 0 Call_Stop # es) s = Some t" "cpc t 0 = C_Ret RVoid"
      "fault t = None" "wpc t = W_NotStarted \<or> wpc t = W_Done" "pushed t = [1, 2, 3]"
    by auto
  with re p(1,2) show ?thesis by blast
qed

end
