(* ===== verification/Spec2Isabelle.thy ===== *)
theory Spec2Isabelle
  imports QT_Safety QT_Lifecycle QT_Refinement QT_Shutdown QT_Termination
begin

text \<open>
  \<^bold>\<open>A verification development for QueueThread\<close>

  \<^verbatim>\<open>src/QueueThread.h\<close> is one class template, \<^verbatim>\<open>QueueThread<T>\<close>: any number of
  producer threads hand items to one worker thread. \<^verbatim>\<open>AddQueueData\<close> pushes an item
  into \<^verbatim>\<open>m_queue\<close> under \<^verbatim>\<open>m_mutexThread\<close> and notifies the condition variable
  \<^verbatim>\<open>m_cv\<close>; the worker (\<^verbatim>\<open>QueueProcessThread\<close>) waits on \<^verbatim>\<open>m_cv\<close>, swaps the
  whole queue into a local one, releases the mutex and passes the items one by one
  (\<^verbatim>\<open>ProcessQueueData\<close>) to the callback \<^verbatim>\<open>m_pFunc\<close>, each call under
  \<^verbatim>\<open>m_mutexFunc\<close>; \<^verbatim>\<open>RegisterQueueProcessFunc\<close> replaces the callback under
  \<^verbatim>\<open>m_mutexFunc\<close>; \<^verbatim>\<open>Start\<close> creates the worker thread, \<^verbatim>\<open>Stop\<close> sets
  \<^verbatim>\<open>m_bExit\<close>, notifies and joins it, \<^verbatim>\<open>IsRunning\<close> tests the thread handle
  \<^verbatim>\<open>m_pThread\<close>.

  \<^bold>\<open>The model.\<close> The program is concurrent, so the development models it as an
  interleaving of atomic statements. A state (\<open>sys\<close>) holds the members of the object,
  the program point and the locals of the worker, the program point of every client
  thread, the world the callbacks act on, a fault, and two ghost lists, \<open>pushed\<close> and
  \<open>consumed\<close>, that record the history of the items. Every method is a step function
  that runs the one statement at a program point and returns \<open>None\<close> when the statement
  is blocked; mutexes are a field holding the thread that owns them, the condition
  variable is the set of the threads waiting on it, \<^verbatim>\<open>join\<close> is enabled when the thread
  function has returned. Errors are values: a callback that throws, a call through a null
  pointer and \<^verbatim>\<open>front()\<close> of an empty queue set \<open>fault\<close>, after which no thread runs; a
  failing thread creation (line 63) or allocation (lines 54 and 101) makes the method
  return the value \<open>RThrow\<close>, after the lock guard of the scope has released its mutex.

  \<^bold>\<open>The theories.\<close>
  \<^item> \<open>QT_Prelude\<close>: the fact collections, \<open>guard\<close> for blocked statements, lemmas on
    lists and multisets.
  \<^item> \<open>QT_State\<close>: the members of the class (lines 28 to 35) as the record
    \<open>QueueThread\<close>, the constructor (lines 38 to 42) as \<open>QueueThread_ctor\<close>, the program
    points of the methods as the datatypes \<open>reg_pc\<close>, \<open>start_pc\<close>, \<open>stop_pc\<close>,
    \<open>add_pc\<close>, \<open>ppc\<close>, \<open>wpc\<close>, \<open>cpc\<close>, the state \<open>sys\<close>, and the views
    \<open>in_flight\<close>, \<open>delivered\<close>, \<open>dropped\<close> of the history.
  \<^item> \<open>QT_Client\<close>: \<open>RegisterQueueProcessFunc\<close> (lines 50 to 55), \<open>Start\<close> (57 to
    70), \<open>Start_func\<close> and \<open>after_Register\<close> (72 to 77), \<open>Stop\<close> (79 to 95),
    \<open>AddQueueData\<close> (97 to 103), \<open>IsRunning\<close> (105 to 112); \<open>client_step\<close> runs the
    next statement of a client, normally or throwing (\<open>can_throw\<close>), \<open>invoke\<close> lets it
    enter a method.
  \<^item> \<open>QT_Worker\<close>: \<open>ProcessQueueData\<close> (lines 141 to 157) and \<open>QueueProcessThread\<close>
    (114 to 139), and \<open>spurious_wake\<close>. The wait of lines 121 to 124 is four program
    points: the test of the predicate with the mutex held, the atomic release of the mutex
    and entry into the set of waiters, the blocked state, and the re-acquisition of the
    mutex.
  \<^item> \<open>QT_System\<close>: \<open>event\<close>, \<open>fire\<close>, \<open>run\<close> (schedules), the transition
    relation \<open>qt_step\<close> and \<open>reachable\<close>.
  \<^item> \<open>QT_Statements\<close>: the same statements as inductive relations \<open>client_stmt\<close> and
    \<open>worker_stmt\<close>, one rule per statement and branch, proved to be the graphs of the
    step functions; the induction rule \<open>reachable_invariant\<close>.
  \<^item> \<open>QT_Invariants\<close>: the invariants of the reachable states.
  \<^item> \<open>QT_Scenarios\<close>: each method called alone (\<open>call_alone\<close>), and the schedules
    that lead to the states the theorems are applied to.
  \<^item> \<open>QT_Safety\<close>: the history of the items, mutual exclusion, absence of undefined
    behaviour, wake-ups.
  \<^item> \<open>QT_Lifecycle\<close>: the worker states of the specification (\<open>lifecycle\<close>, ordered),
    \<open>phase\<close>, what \<^verbatim>\<open>Stop\<close> guarantees when it returns and what happens after it.
  \<^item> \<open>QT_Refinement\<close>: the abstract FIFO channel and the proof that the model refines
    it.
  \<^item> \<open>QT_Drain\<close>: the drain loop of \<^verbatim>\<open>ProcessQueueData\<close> as one big step, against
    the reference function \<open>apply_all\<close>.
  \<^item> \<open>QT_Round\<close>: one iteration of the loop of \<^verbatim>\<open>QueueProcessThread\<close> as one big
    step, with and without a callback, and a registration between two items.
  \<^item> \<open>QT_Shutdown\<close>: what \<^verbatim>\<open>Stop\<close> does to the items still queued: the states in
    which the queue is abandoned, \<^verbatim>\<open>Stop\<close> against a worker at the loop test, and the
    exit path under both readings of line 128.
  \<^item> \<open>QT_Progress\<close>: which threads are enabled, the absence of deadlock, and the idle
    worker.
  \<^item> \<open>QT_Termination\<close>: a ranking function for the worker (\<open>todo\<close>), termination of
    its round, and a schedule on which \<^verbatim>\<open>Stop\<close> returns.
  \<^item> this theory: a round of the worker followed by \<^verbatim>\<open>Stop\<close>, which spans the
    worker, the drain loop and the lifecycle.

  \<^bold>\<open>Line 128.\<close> On the exit path the source calls \<^verbatim>\<open>ProcessQueueData(queue)\<close> before
  the declaration of \<^verbatim>\<open>queue\<close> (line 133) is in scope, so the text has no meaning as
  written. The model takes what the argument denotes as a parameter \<open>xq\<close> of the worker:
  \<open>Local_queue\<close> (the worker's local queue, empty there) or \<open>Member_queue\<close>
  (\<^verbatim>\<open>m_queue\<close>). A theorem with a free \<open>xq\<close> holds for both readings.

  \<^bold>\<open>What is assumed.\<close>
  \<^item> Statements are atomic and memory is sequentially consistent; the reads of
    \<^verbatim>\<open>m_bExit\<close> at line 118 and of \<^verbatim>\<open>m_pFunc\<close> at line 144, which the source makes
    without a lock, are atomic reads of the current value.
  \<^item> Only one thread, client 0 (the owner), calls \<^verbatim>\<open>Start\<close>, \<^verbatim>\<open>Stop\<close> and
    \<^verbatim>\<open>IsRunning\<close>: no mutex protects \<^verbatim>\<open>m_pThread\<close>. Any client calls
    \<^verbatim>\<open>AddQueueData\<close> and \<^verbatim>\<open>RegisterQueueProcessFunc\<close>. This is what \<open>invoke\<close>
    allows; it describes the callers, not the source.
  \<^item> Line 63 creates the thread and assigns \<^verbatim>\<open>m_pThread\<close> in one step. Only the
    owner reads \<^verbatim>\<open>m_pThread\<close>, and the owner is the thread that runs line 63, so no
    thread can see the object between the two.
  \<^item> \<^verbatim>\<open>front()\<close> and \<^verbatim>\<open>pop()\<close> (lines 151 and 152) are one step: the queue they
    act on is the worker's local queue, or \<^verbatim>\<open>m_queue\<close> with \<^verbatim>\<open>m_mutexThread\<close>
    held, so no other thread acts on it in between.
  \<^item> A callback is a function from the item and the world to a new world, or \<open>None\<close>
    if it throws; it returns, and it does not call the object.
  \<^item> The object is not destroyed while a thread is inside it; the destructor (lines 44 to
    48), which calls \<^verbatim>\<open>Stop\<close>, is not a separate definition.

  \<^bold>\<open>What the theorems show.\<close> For every schedule, every number of producers and both
  readings of line 128 (\<open>QT_Safety\<close>, \<open>QT_Refinement\<close>): the items pushed are the
  items disposed of followed by the items in flight, in order, every item is accounted for
  exactly once, and the model refines a FIFO channel; the two mutexes exclude and are
  released; no null pointer is dereferenced and no empty queue is read; no wake-up is
  lost, which rests on mutual exclusion because the worker tests the wait predicate and
  blocks in two steps; a worker that runs is never stuck, and an idle worker blocks
  (\<open>QT_Progress\<close>). For every queue and every callback (\<open>QT_Drain\<close>, \<open>QT_Round\<close>,
  \<open>QT_Termination\<close>): the drain loop terminates and applies the callback to the items
  in order; a round of the worker delivers the whole queue, or drops it when no callback is
  registered; the callback is read per item; from every reachable state the worker, run
  alone, finishes its round within \<open>todo\<close> statements, and a call of \<^verbatim>\<open>Stop\<close> can
  return. \<^verbatim>\<open>Stop\<close> returns only when the thread function has returned or was never
  started, and a second \<^verbatim>\<open>Stop\<close> changes nothing (\<open>QT_Lifecycle\<close>). The theorems of
  \<open>QT_Scenarios\<close> give the result of each method called alone on every branch, the
  throwing ones included. The theorems also show where the source does not do what the specification
  asks (\<open>QT_Shutdown\<close>, \<open>QT_Lifecycle\<close>): once the exit flag is set while the worker
  is at the loop test, the items still queued are never delivered, so \<^verbatim>\<open>Stop\<close> can
  return with items that were enqueued before it; whether the exit path delivers the queue
  depends on the reading of line 128; a stopped object cannot be started again, and
  \<^verbatim>\<open>Start\<close> never returns false.

  \<^bold>\<open>Bounds and fuel.\<close> The queue, the number of clients and the schedules are
  unbounded. \<open>call_alone\<close> runs a method for at most seven statements; \<^verbatim>\<open>Stop\<close>,
  the longest method, has seven, and the theorems on the methods called alone show that
  every method that is not blocked returns within them. The big steps of the worker are
  runs of \<open>work n\<close>, \<open>n\<close> statements of the worker, and each theorem shows that its
  \<open>n\<close> is enough: the drain loop needs \<open>5 * length xs + 1\<close> statements on a queue
  \<open>xs\<close> (test, front and pop, lock, call, unlock per item, and the last test); a round
  needs seven statements from the loop test of line 118 to that of line 149, the drain,
  and the end of the loop body, \<open>5 * length xs + 9\<close> in all, and eight when no callback
  is registered; the exit path needs five statements from the wake-up to the loop test of
  line 149, the drain, and the unlock, \<open>5 * length xs + 7\<close> in all. Where the worker
  starts from an arbitrary program point the bound is the ranking function \<open>todo\<close>: six
  statements per item in \<^verbatim>\<open>m_queue\<close> and the local queue, and at most fourteen for the
  rest of the round; every statement of the worker lowers it, which is the termination
  proof. The schedules of \<open>QT_Scenarios\<close> are explicit and evaluated by rewriting.

  \<^bold>\<open>Not modelled.\<close> The C++ memory model below sequential consistency; the copy and
  move of items and of the \<^verbatim>\<open>std::function\<close> object; exceptions of the mutexes and
  of the condition variable; calls of \<^verbatim>\<open>Start\<close> and \<^verbatim>\<open>Stop\<close> from several threads
  at once; callbacks that call back into the object or do not return; destruction of the
  object. That \<^verbatim>\<open>Stop\<close> returns is proved for the schedules on which the producers
  pause while the worker and the owner run (\<open>QT_Termination\<close>), not for every fair
  scheduler.
\<close>

section \<open>A round of the worker, then Stop\<close>

text \<open>
  C17. \<^verbatim>\<open>Stop\<close> is graceful when the worker has finished its round. From a reachable
  state in which the worker is at the loop test of line 118, no stop is requested, the
  owner is outside the object, both mutexes are free, \<^verbatim>\<open>m_queue\<close> is not empty and a
  callback \<open>f\<close> is registered that throws on none of the items: if the worker runs its
  round (\<open>5 * length (m_queue s) + 9\<close> statements) before the owner calls \<^verbatim>\<open>Stop\<close>,
  then \<^verbatim>\<open>Stop\<close> returns, the object is in the worker state \<open>Stopped\<close>, every item
  of the queue has been passed to \<open>f\<close> in the order of the queue, none has been dropped
  and nothing is left in flight. This is the first scenario of the specification on the
  schedules on which it holds, for every queue and both readings of line 128.
\<close>

theorem graceful_stop:
  assumes "reachable xq w s" and "at_loop_head s" and "outside (cpc s 0)"
    and "m_queue s \<noteq> []" and "m_pFunc s = Some f" and "m_mutexFunc s = None"
    and "apply_all f (m_queue s) (world s) = Some w'"
  shows "\<exists>t. run xq (work (5 * length (m_queue s) + 9) @ stop_signal @ work 1 @ [ClientStep 0]) s
      = Some t \<and>
    cpc t 0 = C_Ret RVoid \<and> phase t = Stopped \<and> wpc t = W_Done \<and> in_flight t = [] \<and>
    world t = w' \<and> delivered t = delivered s @ m_queue s \<and> dropped t = dropped s \<and>
    pushed t = pushed s"
proof -
  let ?n = "5 * length (m_queue s) + 9"
  from assms(1,2) have "w_data s = None"
    by (simp add: at_loop_head_def loop_head_locals)
  from round_run [OF assms(2,4) this assms(5-7)] obtain u
    where u: "run xq (work ?n) s = Some u" "at_loop_head u" "in_flight u = []" "world u = w'"
      "consumed u = consumed s @ map (\<lambda>x. (x, Some f)) (m_queue s)" "same_buffer s u"
    by blast
  from assms(1) u(1) have re: "reachable xq w u" by (rule run_reachable)
  let ?t = "u\<lparr>m_pThread := Some Joined, m_cv := {}, m_bExit := True, wpc := W_Done,
      cpc := (cpc u)(0 := C_Ret RVoid)\<rparr>"
  from u(2,6) assms(3) have "run xq (stop_signal @ work 1 @ [ClientStep 0]) u = Some ?t"
    by (intro stop_run [OF re]) (simp_all add: at_loop_head_def same_buffer_def)
  with u(1) have "run xq (work ?n @ stop_signal @ work 1 @ [ClientStep 0]) s = Some ?t"
    by (simp add: run_append)
  moreover from u(3-6) consumed_delivered [OF u(5)]
  have "cpc ?t 0 = C_Ret RVoid" "phase ?t = Stopped" "wpc ?t = W_Done" "in_flight ?t = []"
    "world ?t = w'" "delivered ?t = delivered s @ m_queue s" "dropped ?t = dropped s"
    "pushed ?t = pushed s"
    by (simp_all add: phase_eq in_flight_def same_buffer_def delivered_def dropped_def)
  ultimately show ?thesis by blast
qed

theorem graceful_stop_witness:
  "\<exists>(s :: demo) t. reachable Member_queue [] s \<and> pushed s = [1, 2, 3] \<and> consumed s = []
     \<and> run Member_queue (work 24 @ stop_signal @ work 1 @ [ClientStep 0]) s = Some t
     \<and> cpc t 0 = C_Ret RVoid \<and> phase t = Stopped \<and> world t = [(0, 1), (0, 2), (0, 3)]
     \<and> delivered t = [1, 2, 3] \<and> dropped t = [] \<and> pushed t = [1, 2, 3]"
proof -
  from warm_up_state [of Member_queue] obtain s
    where r: "run Member_queue warm_up (init_sys []) = Some s"
      and p: "wpc s = W_LoopTest" "\<not> m_bExit s" "m_mutexThread s = None" "fault s = None"
        "cpc s 0 = C_Ret (RBool True)"
      and q: "m_queue s = [1, 2, 3]" "m_pFunc s = Some (tag_cb 0)" "m_mutexFunc s = None"
        "world s = []" "consumed s = []" "pushed s = [1, 2, 3]"
    by blast
  from r have re: "reachable Member_queue [] s" by (rule scenario_reachable)
  from p have h: "at_loop_head s" and o: "outside (cpc s 0)"
    by (simp_all add: at_loop_head_def outside_def)
  from q have a: "apply_all (tag_cb 0) (m_queue s) (world s) = Some [(0, 1), (0, 2), (0, 3)]"
    and n: "m_queue s \<noteq> []"
    by (simp_all add: tag_cb_def)
  from graceful_stop [OF re h o n q(2,3) a] q obtain t
    where "run Member_queue (work 24 @ stop_signal @ work 1 @ [ClientStep 0]) s = Some t"
      "cpc t 0 = C_Ret RVoid" "phase t = Stopped" "world t = [(0, 1), (0, 2), (0, 3)]"
      "delivered t = [1, 2, 3]" "dropped t = []" "pushed t = [1, 2, 3]"
    by (auto simp: delivered_def dropped_def)
  with re q(5,6) show ?thesis by blast
qed

end
